theory Spec2Isabelle
  imports Complex_Main
begin

section \<open>JavaScript values used by the services\<close>

subsection \<open>Insertion-ordered maps\<close>

text \<open>
  A JavaScript \<^verbatim>\<open>Map<string, V>\<close> is an association list in insertion order:
  \<^verbatim>\<open>get\<close> finds the entry of a key, \<^verbatim>\<open>set\<close> overwrites the entry of a present key
  in place and appends an absent one, \<^verbatim>\<open>delete\<close> drops the entry, \<^verbatim>\<open>values()\<close>
  walks the entries in order.
\<close>

type_synonym 'v jsmap = "(string \<times> 'v) list"

definition map_get :: "'v jsmap \<Rightarrow> string \<Rightarrow> 'v option" where
  "map_get m k = map_of m k"

definition map_has :: "'v jsmap \<Rightarrow> string \<Rightarrow> bool" where
  "map_has m k = (map_of m k \<noteq> None)"

fun map_set :: "'v jsmap \<Rightarrow> string \<Rightarrow> 'v \<Rightarrow> 'v jsmap" where
  "map_set [] k v = [(k, v)]"
| "map_set ((k', v') # m) k v = (if k' = k then (k, v) # m else (k', v') # map_set m k v)"

definition map_delete :: "'v jsmap \<Rightarrow> string \<Rightarrow> 'v jsmap" where
  "map_delete m k = filter (\<lambda>p. fst p \<noteq> k) m"

definition map_values :: "'v jsmap \<Rightarrow> 'v list" where
  "map_values m = map snd m"

subsection \<open>Numbers\<close>

text \<open>
  The numbers of the completion percentage are finite and not negative. Such a number is
  the fraction \<open>a / b\<close> of two integers, \<open>0 \<le> a\<close> and \<open>0 < b\<close>, that it denotes. An
  arithmetic operation returns the exact result rounded to the nearest binary64 value,
  a tie going to the even significand (\<open>fl\<close>): with \<open>2 ^ p \<le> a / b < 2 ^ (p + 1)\<close> the
  result is \<open>m * 2 ^ (p - 52)\<close>, where \<open>m\<close> is the integer nearest to
  \<open>a / b / 2 ^ (p - 52)\<close>. The exponent range of binary64 and division by zero are
  not modelled: the operands below are counts of list elements and the divisor is
  checked to be positive. \<^verbatim>\<open>Math.round\<close> is exact: the nearest integer, a tie
  going up.
\<close>

type_synonym number = "int \<times> int"

function bitlen :: "int \<Rightarrow> nat" where
  "bitlen n = (if n \<le> 0 then 0 else Suc (bitlen (n div 2)))"
  by pat_completeness auto
termination
  by (relation "measure nat") auto

declare bitlen.simps [simp del]

definition roundQuotient :: "int \<Rightarrow> int \<Rightarrow> int" where
  "roundQuotient a b =
     (let q = a div b; r = a mod b
      in if 2 * r < b then q
         else if b < 2 * r then q + 1
         else if even q then q else q + 1)"

definition fl :: "number \<Rightarrow> number" where
  "fl x =
     (let (a, b) = x
      in if a = 0 then (0, 1)
         else
           let k = int (bitlen a) - int (bitlen b);
               p = (if b * 2 ^ nat k \<le> a * 2 ^ nat (- k) then k else k - 1);
               e = p - 52;
               m = roundQuotient (a * 2 ^ nat (- e)) (b * 2 ^ nat e)
           in (m * 2 ^ nat e, 2 ^ nat (- e)))"

definition number_of_nat :: "nat \<Rightarrow> number" where
  "number_of_nat n = (int n, 1)"

definition js_div :: "number \<Rightarrow> number \<Rightarrow> number" where
  "js_div x y = fl (fst x * snd y, snd x * fst y)"

definition js_mul :: "number \<Rightarrow> number \<Rightarrow> number" where
  "js_mul x y = fl (fst x * fst y, snd x * snd y)"

definition Math_round :: "number \<Rightarrow> int" where
  "Math_round x = (2 * fst x + snd x) div (2 * snd x)"

section \<open>The domain store (lms/models.ts)\<close>

subsection \<open>Entities\<close>

record Course =
  course_id :: string
  course_title :: string
  course_createdBy :: string
  course_createdAt :: string

record Module =
  module_id :: string
  module_courseId :: string
  module_title :: string
  module_position :: int

record Lesson =
  lesson_id :: string
  lesson_moduleId :: string
  lesson_title :: string
  lesson_position :: int

record Enrollment =
  enrollment_id :: string
  enrollment_courseId :: string
  enrollment_userId :: string
  enrollment_role :: string
  enrollment_enrolledAt :: string

datatype Provider = gdrive | s3 | r2

record LessonContentMetadata =
  content_lessonId :: string
  content_provider :: Provider
  content_key :: string
  content_fileId :: string
  content_contentType :: string
  content_size :: int
  content_updatedAt :: string

datatype Status = not_started | in_progress | completed

record Progress =
  progress_id :: string
  progress_enrollmentId :: string
  progress_lessonId :: string
  progress_status :: Status
  progress_completedAt :: "string option"

record UserUsageSnapshot =
  createdCourses :: int
  activeEnrollments :: int
  ownedStorageBytes :: int

text \<open>
  What a call can throw: an \<^verbatim>\<open>LmsModelError\<close> with its code and message, or the
  \<^verbatim>\<open>TypeError\<close> of reading a property of \<^verbatim>\<open>undefined\<close> (the non-null assertions
  \<^verbatim>\<open>this.modules.get(moduleId)!\<close> are erased by the compiler).
\<close>

datatype code = NOT_FOUND | INVALID_RELATION | DUPLICATE | ACCESS_DENIED

datatype exn = LmsModelError code string | TypeError

text \<open>The lookup \<^verbatim>\<open>index.get(key) ?? []\<close> of an index.\<close>

definition getIndex :: "string list jsmap \<Rightarrow> string \<Rightarrow> string list" where
  "getIndex index k = (case map_get index k of None \<Rightarrow> [] | Some xs \<Rightarrow> xs)"

definition pushIndex :: "string list jsmap \<Rightarrow> string \<Rightarrow> string \<Rightarrow> string list jsmap" where
  "pushIndex index k v = (let current = getIndex index k in map_set index k (current @ [v]))"


record LmsCoreStore =
  courses :: "Course jsmap"
  modules :: "Module jsmap"
  lessons :: "Lesson jsmap"
  enrollments :: "Enrollment jsmap"
  progress :: "Progress jsmap"
  lessonContent :: "LessonContentMetadata jsmap"
  moduleIdsByCourse :: "string list jsmap"
  lessonIdsByModule :: "string list jsmap"
  enrollmentIdsByCourse :: "string list jsmap"
  progressIdsByEnrollment :: "string list jsmap"
  enrollmentByCourseUser :: "string jsmap"

definition newStore :: LmsCoreStore where
  "newStore =
     \<lparr>courses = [], modules = [], lessons = [], enrollments = [], progress = [],
      lessonContent = [], moduleIdsByCourse = [], lessonIdsByModule = [],
      enrollmentIdsByCourse = [], progressIdsByEnrollment = [], enrollmentByCourseUser = []\<rparr>"

subsection \<open>Operations\<close>

text \<open>
  Every operation takes the value \<open>now\<close> that \<^verbatim>\<open>this.now()\<close> returns during the call
  and the store, and returns the store as the call leaves it together with the value
  returned (\<open>Inr\<close>) or the exception thrown (\<open>Inl\<close>).
\<close>

definition createCourse ::
  "string \<Rightarrow> LmsCoreStore \<Rightarrow> string \<Rightarrow> string \<Rightarrow> string \<Rightarrow> LmsCoreStore \<times> (exn + Course)" where
  "createCourse now s cid ctitle cby =
     (if map_has (courses s) cid
      then (s, Inl (LmsModelError DUPLICATE (''course already exists: '' @ cid)))
      else
        let course = \<lparr>course_id = cid, course_title = ctitle, course_createdBy = cby,
                       course_createdAt = now\<rparr>;
            s1 = s\<lparr>courses := map_set (courses s) (course_id course) course\<rparr>;
            s2 = s1\<lparr>moduleIdsByCourse := map_set (moduleIdsByCourse s1) (course_id course) []\<rparr>;
            s3 = s2\<lparr>enrollmentIdsByCourse :=
                      map_set (enrollmentIdsByCourse s2) (course_id course) []\<rparr>
        in (s3, Inr course))"

definition getCourse :: "LmsCoreStore \<Rightarrow> string \<Rightarrow> exn + Course" where
  "getCourse s courseId =
     (case map_get (courses s) courseId of
        None \<Rightarrow> Inl (LmsModelError NOT_FOUND (''course does not exist: '' @ courseId))
      | Some course \<Rightarrow> Inr course)"

text \<open>
  The scan of the sibling rows for a used position: the first id without a row throws
  the \<^verbatim>\<open>TypeError\<close>, the first row at the position throws \<open>dup\<close>; \<open>None\<close> when the loop
  runs to its end.
\<close>

fun positionScan :: "(string \<Rightarrow> int option) \<Rightarrow> int \<Rightarrow> exn \<Rightarrow> string list \<Rightarrow> exn option" where
  "positionScan pos p dup [] = None"
| "positionScan pos p dup (i # ids) =
     (case pos i of
        None \<Rightarrow> Some TypeError
      | Some q \<Rightarrow> if q = p then Some dup else positionScan pos p dup ids)"

definition createModule ::
  "LmsCoreStore \<Rightarrow> string \<Rightarrow> string \<Rightarrow> string \<Rightarrow> int \<Rightarrow> LmsCoreStore \<times> (exn + Module)" where
  "createModule s mid courseId mtitle position =
     (case map_get (courses s) courseId of
        None \<Rightarrow> (s, Inl (LmsModelError INVALID_RELATION (''course does not exist: '' @ courseId)))
      | Some course \<Rightarrow>
          if map_has (modules s) mid
          then (s, Inl (LmsModelError DUPLICATE (''module already exists: '' @ mid)))
          else
            let moduleIds = getIndex (moduleIdsByCourse s) (course_id course)
            in case positionScan (\<lambda>i. map_option module_position (map_get (modules s) i)) position
                      (LmsModelError DUPLICATE
                         (''module position already used in course: '' @ courseId)) moduleIds of
                 Some e \<Rightarrow> (s, Inl e)
               | None \<Rightarrow>
                   let moduleRow = \<lparr>module_id = mid, module_courseId = courseId,
                                     module_title = mtitle, module_position = position\<rparr>;
                       s1 = s\<lparr>modules := map_set (modules s) (module_id moduleRow) moduleRow\<rparr>;
                       s2 = s1\<lparr>moduleIdsByCourse :=
                                 pushIndex (moduleIdsByCourse s1) courseId (module_id moduleRow)\<rparr>;
                       s3 = s2\<lparr>lessonIdsByModule :=
                                 map_set (lessonIdsByModule s2) (module_id moduleRow) []\<rparr>
                   in (s3, Inr moduleRow))"

definition newProgress :: "string \<Rightarrow> string \<Rightarrow> Progress" where
  "newProgress enrollmentId lessonId =
     \<lparr>progress_id = enrollmentId @ '':'' @ lessonId, progress_enrollmentId = enrollmentId,
      progress_lessonId = lessonId, progress_status = not_started,
      progress_completedAt = None\<rparr>"

text \<open>The fan-out loop of \<^verbatim>\<open>createLesson\<close>, over the enrollment ids of the course.\<close>

fun fanOutEnrollments :: "string \<Rightarrow> string list \<Rightarrow> LmsCoreStore \<Rightarrow> LmsCoreStore" where
  "fanOutEnrollments lessonId [] s = s"
| "fanOutEnrollments lessonId (enrollmentId # rest) s =
     (let progressId = enrollmentId @ '':'' @ lessonId;
          s1 = s\<lparr>progress := map_set (progress s) progressId (newProgress enrollmentId lessonId)\<rparr>;
          s2 = s1\<lparr>progressIdsByEnrollment :=
                    pushIndex (progressIdsByEnrollment s1) enrollmentId progressId\<rparr>
      in fanOutEnrollments lessonId rest s2)"

definition createLesson ::
  "LmsCoreStore \<Rightarrow> string \<Rightarrow> string \<Rightarrow> string \<Rightarrow> int \<Rightarrow> LmsCoreStore \<times> (exn + Lesson)" where
  "createLesson s lid moduleId ltitle position =
     (case map_get (modules s) moduleId of
        None \<Rightarrow> (s, Inl (LmsModelError INVALID_RELATION (''module does not exist: '' @ moduleId)))
      | Some moduleRow \<Rightarrow>
          if map_has (lessons s) lid
          then (s, Inl (LmsModelError DUPLICATE (''lesson already exists: '' @ lid)))
          else
            let lessonIds = getIndex (lessonIdsByModule s) moduleId
            in case positionScan (\<lambda>i. map_option lesson_position (map_get (lessons s) i)) position
                      (LmsModelError DUPLICATE
                         (''lesson position already used in module: '' @ moduleId)) lessonIds of
                 Some e \<Rightarrow> (s, Inl e)
               | None \<Rightarrow>
                   let lesson = \<lparr>lesson_id = lid, lesson_moduleId = moduleId,
                                  lesson_title = ltitle, lesson_position = position\<rparr>;
                       s1 = s\<lparr>lessons := map_set (lessons s) (lesson_id lesson) lesson\<rparr>;
                       s2 = s1\<lparr>lessonIdsByModule :=
                                 pushIndex (lessonIdsByModule s1) moduleId (lesson_id lesson)\<rparr>;
                       enrollmentIds =
                         getIndex (enrollmentIdsByCourse s2) (module_courseId moduleRow)
                   in (fanOutEnrollments (lesson_id lesson) enrollmentIds s2, Inr lesson))"

definition getLessonsForCourse :: "LmsCoreStore \<Rightarrow> string \<Rightarrow> Lesson list" where
  "getLessonsForCourse s courseId =
     (let moduleIds = getIndex (moduleIdsByCourse s) courseId;
          lessonIds = concat (map (\<lambda>moduleId. getIndex (lessonIdsByModule s) moduleId) moduleIds)
      in List.map_filter (\<lambda>lessonId. map_get (lessons s) lessonId) lessonIds)"

text \<open>The fan-out loop of \<^verbatim>\<open>enrollStudent\<close>, over the lessons of the course.\<close>

fun fanOutLessons :: "string \<Rightarrow> Lesson list \<Rightarrow> LmsCoreStore \<Rightarrow> LmsCoreStore" where
  "fanOutLessons enrollmentId [] s = s"
| "fanOutLessons enrollmentId (lesson # rest) s =
     (let progressId = enrollmentId @ '':'' @ lesson_id lesson;
          s1 = s\<lparr>progress :=
                   map_set (progress s) progressId (newProgress enrollmentId (lesson_id lesson))\<rparr>;
          s2 = s1\<lparr>progressIdsByEnrollment :=
                    pushIndex (progressIdsByEnrollment s1) enrollmentId progressId\<rparr>
      in fanOutLessons enrollmentId rest s2)"

definition enrollStudent ::
  "string \<Rightarrow> LmsCoreStore \<Rightarrow> string \<Rightarrow> string \<Rightarrow> string \<Rightarrow> LmsCoreStore \<times> (exn + Enrollment)" where
  "enrollStudent now s eid courseId userId =
     (if \<not> map_has (courses s) courseId
      then (s, Inl (LmsModelError INVALID_RELATION (''course does not exist: '' @ courseId)))
      else if map_has (enrollments s) eid
      then (s, Inl (LmsModelError DUPLICATE (''enrollment already exists: '' @ eid)))
      else
        let uniqueKey = courseId @ '':'' @ userId
        in if map_has (enrollmentByCourseUser s) uniqueKey
           then (s, Inl (LmsModelError DUPLICATE
                           (''student already enrolled in course: '' @ courseId)))
           else
             let enrollment = \<lparr>enrollment_id = eid, enrollment_courseId = courseId,
                                enrollment_userId = userId, enrollment_role = ''Student'',
                                enrollment_enrolledAt = now\<rparr>;
                 s1 = s\<lparr>enrollments :=
                          map_set (enrollments s) (enrollment_id enrollment) enrollment\<rparr>;
                 s2 = s1\<lparr>enrollmentByCourseUser :=
                           map_set (enrollmentByCourseUser s1) uniqueKey (enrollment_id enrollment)\<rparr>;
                 s3 = s2\<lparr>enrollmentIdsByCourse :=
                           pushIndex (enrollmentIdsByCourse s2) courseId (enrollment_id enrollment)\<rparr>;
                 s4 = s3\<lparr>progressIdsByEnrollment :=
                           map_set (progressIdsByEnrollment s3) (enrollment_id enrollment) []\<rparr>;
                 lessonsInCourse = getLessonsForCourse s4 courseId
             in (fanOutLessons (enrollment_id enrollment) lessonsInCourse s4, Inr enrollment))"

definition attachLessonContent ::
  "string \<Rightarrow> LmsCoreStore \<Rightarrow> string \<Rightarrow> Provider \<Rightarrow> string \<Rightarrow> string \<Rightarrow> string \<Rightarrow> int \<Rightarrow>
   LmsCoreStore \<times> (exn + LessonContentMetadata)" where
  "attachLessonContent now s lessonId provider key fileId contentType size' =
     (if \<not> map_has (lessons s) lessonId
      then (s, Inl (LmsModelError NOT_FOUND (''lesson does not exist: '' @ lessonId)))
      else
        let metadata = \<lparr>content_lessonId = lessonId, content_provider = provider,
                         content_key = key, content_fileId = fileId,
                         content_contentType = contentType, content_size = size',
                         content_updatedAt = now\<rparr>
        in (s\<lparr>lessonContent := map_set (lessonContent s) lessonId metadata\<rparr>, Inr metadata))"

definition getLessonContent :: "LmsCoreStore \<Rightarrow> string \<Rightarrow> exn + LessonContentMetadata" where
  "getLessonContent s lessonId =
     (case map_get (lessonContent s) lessonId of
        None \<Rightarrow> Inl (LmsModelError NOT_FOUND (''lesson content does not exist: '' @ lessonId))
      | Some metadata \<Rightarrow> Inr metadata)"

definition getEnrollment :: "LmsCoreStore \<Rightarrow> string \<Rightarrow> exn + Enrollment" where
  "getEnrollment s enrollmentId =
     (case map_get (enrollments s) enrollmentId of
        None \<Rightarrow> Inl (LmsModelError NOT_FOUND (''enrollment does not exist: '' @ enrollmentId))
      | Some enrollment \<Rightarrow> Inr enrollment)"

definition getCourseIdForModule :: "LmsCoreStore \<Rightarrow> string \<Rightarrow> exn + string" where
  "getCourseIdForModule s moduleId =
     (case map_get (modules s) moduleId of
        None \<Rightarrow> Inl (LmsModelError NOT_FOUND (''module does not exist: '' @ moduleId))
      | Some moduleRow \<Rightarrow> Inr (module_courseId moduleRow))"

definition getCourseIdForLesson :: "LmsCoreStore \<Rightarrow> string \<Rightarrow> exn + string" where
  "getCourseIdForLesson s lessonId =
     (case map_get (lessons s) lessonId of
        None \<Rightarrow> Inl (LmsModelError NOT_FOUND (''lesson does not exist: '' @ lessonId))
      | Some lesson \<Rightarrow>
          (case map_get (modules s) (lesson_moduleId lesson) of
             None \<Rightarrow> Inl (LmsModelError INVALID_RELATION
                            (''module does not exist for lesson: '' @ lessonId))
           | Some moduleRow \<Rightarrow> Inr (module_courseId moduleRow)))"

definition markLessonProgress ::
  "string \<Rightarrow> LmsCoreStore \<Rightarrow> string \<Rightarrow> string \<Rightarrow> string \<Rightarrow> Status \<Rightarrow>
   LmsCoreStore \<times> (exn + Progress)" where
  "markLessonProgress now s enrollmentId lessonId actorUserId status =
     (case map_get (enrollments s) enrollmentId of
        None \<Rightarrow> (s, Inl (LmsModelError NOT_FOUND
                           (''enrollment does not exist: '' @ enrollmentId)))
      | Some enrollment \<Rightarrow>
          if enrollment_userId enrollment \<noteq> actorUserId
          then (s, Inl (LmsModelError ACCESS_DENIED ''students can only update their own progress''))
          else
            (case map_get (lessons s) lessonId of
               None \<Rightarrow> (s, Inl (LmsModelError NOT_FOUND (''lesson does not exist: '' @ lessonId)))
             | Some lesson \<Rightarrow>
                 if (case map_get (modules s) (lesson_moduleId lesson) of
                       None \<Rightarrow> True
                     | Some moduleRow \<Rightarrow>
                         module_courseId moduleRow \<noteq> enrollment_courseId enrollment)
                 then (s, Inl (LmsModelError INVALID_RELATION ''lesson is outside enrolled course''))
                 else
                   let progressId = enrollment_id enrollment @ '':'' @ lesson_id lesson
                   in case map_get (progress s) progressId of
                        None \<Rightarrow> (s, Inl (LmsModelError INVALID_RELATION
                                           ''missing progress row for enrollment/lesson''))
                      | Some row \<Rightarrow>
                          let row1 = row\<lparr>progress_status := status\<rparr>;
                              row2 = row1\<lparr>progress_completedAt :=
                                            (if status = completed then Some now else None)\<rparr>
                          in (s\<lparr>progress := map_set (progress s) progressId row2\<rparr>, Inr row2)))"

definition completedCount :: "LmsCoreStore \<Rightarrow> string list \<Rightarrow> nat" where
  "completedCount s progressIds =
     length (filter (\<lambda>progressId. map_option progress_status (map_get (progress s) progressId)
                                  = Some completed) progressIds)"

definition getCourseCompletionPercent :: "LmsCoreStore \<Rightarrow> string \<Rightarrow> exn + int" where
  "getCourseCompletionPercent s enrollmentId =
     (case map_get (enrollments s) enrollmentId of
        None \<Rightarrow> Inl (LmsModelError NOT_FOUND (''enrollment does not exist: '' @ enrollmentId))
      | Some enrollment \<Rightarrow>
          let progressIds = getIndex (progressIdsByEnrollment s) enrollmentId
          in if length progressIds = 0 then Inr 0
             else Inr (Math_round
                         (js_mul (js_div (number_of_nat (completedCount s progressIds))
                                         (number_of_nat (length progressIds)))
                                 (number_of_nat 100))))"

text \<open>
  The three loops of \<^verbatim>\<open>getUserUsageSnapshot\<close>: the counters are the lengths and the
  sum of the lists that the loops walk.
\<close>

definition getUserUsageSnapshot :: "LmsCoreStore \<Rightarrow> string \<Rightarrow> UserUsageSnapshot" where
  "getUserUsageSnapshot s userId =
     (let ownedCourseIds =
            map course_id (filter (\<lambda>course. course_createdBy course = userId)
                             (map_values (courses s)));
          ownedEnrollments =
            filter (\<lambda>enrollment. enrollment_userId enrollment = userId)
              (map_values (enrollments s));
          ownedLessonIds =
            concat (map (\<lambda>courseId.
                      concat (map (\<lambda>moduleId. getIndex (lessonIdsByModule s) moduleId)
                                (getIndex (moduleIdsByCourse s) courseId)))
                      ownedCourseIds);
          ownedSizes =
            List.map_filter (\<lambda>lessonId. map_option content_size
                                           (map_get (lessonContent s) lessonId)) ownedLessonIds
      in \<lparr>createdCourses = int (length ownedCourseIds),
          activeEnrollments = int (length ownedEnrollments),
          ownedStorageBytes = sum_list ownedSizes\<rparr>)"

subsection \<open>Sequences of calls\<close>

text \<open>
  The mutating calls of the store. \<open>apply_op\<close> is the store that a call leaves behind,
  whether it returned or threw; \<open>reachable\<close> are the stores that sequences of calls
  produce from the new store, each call with its own clock value.
\<close>

datatype store_op =
    CreateCourse string string string
  | CreateModule string string string int
  | CreateLesson string string string int
  | EnrollStudent string string string
  | AttachLessonContent string Provider string string string int
  | MarkLessonProgress string string string Status

fun apply_op :: "string \<Rightarrow> store_op \<Rightarrow> LmsCoreStore \<Rightarrow> LmsCoreStore" where
  "apply_op now (CreateCourse cid ctitle cby) s = fst (createCourse now s cid ctitle cby)"
| "apply_op now (CreateModule mid courseId mtitle position) s =
     fst (createModule s mid courseId mtitle position)"
| "apply_op now (CreateLesson lid moduleId ltitle position) s =
     fst (createLesson s lid moduleId ltitle position)"
| "apply_op now (EnrollStudent eid courseId userId) s =
     fst (enrollStudent now s eid courseId userId)"
| "apply_op now (AttachLessonContent lessonId provider key fileId contentType size') s =
     fst (attachLessonContent now s lessonId provider key fileId contentType size')"
| "apply_op now (MarkLessonProgress enrollmentId lessonId actorUserId status) s =
     fst (markLessonProgress now s enrollmentId lessonId actorUserId status)"

inductive reachable :: "LmsCoreStore \<Rightarrow> bool" where
  reachable_new: "reachable newStore"
| reachable_op: "reachable s \<Longrightarrow> reachable (apply_op now op s)"

fun run_ops :: "string \<Rightarrow> store_op list \<Rightarrow> LmsCoreStore \<Rightarrow> LmsCoreStore" where
  "run_ops now [] s = s"
| "run_ops now (op # ops) s = run_ops now ops (apply_op now op s)"


subsection \<open>A store with forty lessons\<close>

text \<open>
  The store after one student \<open>s1\<close> enrolled as \<open>e1\<close> in a course \<open>c1\<close> of one module
  \<open>m1\<close> with \<open>n\<close> lessons and completed the first \<open>k\<close> of them, every call made at
  the clock value \<open>now\<close>.
\<close>

definition lessonName :: "nat \<Rightarrow> string" where
  "lessonName i = CHR ''l'' # replicate i (CHR ''i'')"

definition courseStore :: "string \<Rightarrow> nat \<Rightarrow> nat \<Rightarrow> LmsCoreStore" where
  "courseStore now n k =
     \<lparr>courses = [(''c1'', \<lparr>course_id = ''c1'', course_title = ''t'', course_createdBy = ''u1'',
                             course_createdAt = now\<rparr>)],
      modules = [(''m1'', \<lparr>module_id = ''m1'', module_courseId = ''c1'', module_title = ''t'',
                            module_position = 1\<rparr>)],
      lessons = map (\<lambda>i. (lessonName i,
                            \<lparr>lesson_id = lessonName i, lesson_moduleId = ''m1'', lesson_title = ''t'',
                             lesson_position = int i\<rparr>)) [1..<Suc n],
      enrollments = [(''e1'', \<lparr>enrollment_id = ''e1'', enrollment_courseId = ''c1'',
                                enrollment_userId = ''s1'', enrollment_role = ''Student'',
                                enrollment_enrolledAt = now\<rparr>)],
      progress = map (\<lambda>i. (''e1:'' @ lessonName i,
                             \<lparr>progress_id = ''e1:'' @ lessonName i, progress_enrollmentId = ''e1'',
                              progress_lessonId = lessonName i,
                              progress_status = (if i \<le> k then completed else not_started),
                              progress_completedAt = (if i \<le> k then Some now else None)\<rparr>))
                     [1..<Suc n],
      lessonContent = [],
      moduleIdsByCourse = [(''c1'', [''m1''])],
      lessonIdsByModule = [(''m1'', map lessonName [1..<Suc n])],
      enrollmentIdsByCourse = [(''c1'', [''e1''])],
      progressIdsByEnrollment = [(''e1'', map (\<lambda>i. ''e1:'' @ lessonName i) [1..<Suc n])],
      enrollmentByCourseUser = [(''c1:s1'', ''e1'')]\<rparr>"

definition courseCalls :: "nat \<Rightarrow> nat \<Rightarrow> store_op list" where
  "courseCalls n k =
     [CreateCourse ''c1'' ''t'' ''u1'', CreateModule ''m1'' ''c1'' ''t'' 1]
     @ map (\<lambda>i. CreateLesson (lessonName i) ''m1'' ''t'' (int i)) [1..<Suc n]
     @ [EnrollStudent ''e1'' ''c1'' ''s1'']
     @ map (\<lambda>i. MarkLessonProgress ''e1'' (lessonName i) ''s1'' completed) [1..<Suc k]"

subsection \<open>Invariants of the store\<close>

text \<open>
  Every row is stored under its own id, refers to an existing parent and is listed in the
  index of its parent; every enrollment has a progress row for every lesson of its course;
  a progress row has a completion time exactly when it is completed.
\<close>

definition modules_indexed :: "LmsCoreStore \<Rightarrow> bool" where
  "modules_indexed s =
     (\<forall>m M. map_get (modules s) m = Some M \<longrightarrow>
        module_id M = m \<and> map_has (courses s) (module_courseId M) \<and>
        m \<in> set (getIndex (moduleIdsByCourse s) (module_courseId M)))"

definition lessons_indexed :: "LmsCoreStore \<Rightarrow> bool" where
  "lessons_indexed s =
     (\<forall>l L. map_get (lessons s) l = Some L \<longrightarrow>
        lesson_id L = l \<and> map_has (modules s) (lesson_moduleId L) \<and>
        l \<in> set (getIndex (lessonIdsByModule s) (lesson_moduleId L)))"

definition enrollments_indexed :: "LmsCoreStore \<Rightarrow> bool" where
  "enrollments_indexed s =
     (\<forall>e E. map_get (enrollments s) e = Some E \<longrightarrow>
        enrollment_id E = e \<and> map_has (courses s) (enrollment_courseId E) \<and>
        e \<in> set (getIndex (enrollmentIdsByCourse s) (enrollment_courseId E)))"

definition progress_complete :: "LmsCoreStore \<Rightarrow> bool" where
  "progress_complete s =
     (\<forall>e E l L M.
        map_get (enrollments s) e = Some E \<and> map_get (lessons s) l = Some L \<and>
        map_get (modules s) (lesson_moduleId L) = Some M \<and>
        module_courseId M = enrollment_courseId E \<longrightarrow>
        map_has (progress s) (enrollment_id E @ '':'' @ lesson_id L))"

definition store_inv :: "LmsCoreStore \<Rightarrow> bool" where
  "store_inv s =
     (modules_indexed s \<and> lessons_indexed s \<and> enrollments_indexed s \<and> progress_complete s)"

definition completedAt_consistent :: "Progress \<Rightarrow> bool" where
  "completedAt_consistent row =
     ((progress_completedAt row \<noteq> None) = (progress_status row = completed))"

definition progress_consistent :: "LmsCoreStore \<Rightarrow> bool" where
  "progress_consistent s =
     (\<forall>k row. map_get (progress s) k = Some row \<longrightarrow> completedAt_consistent row)"

text \<open>
  The indices are exact: an index lists every id once, and only ids of existing rows of
  that parent. A progress row is stored under its own id.
\<close>

definition module_index_exact :: "LmsCoreStore \<Rightarrow> bool" where
  "module_index_exact s =
     (\<forall>c. distinct (getIndex (moduleIdsByCourse s) c) \<and>
          (\<forall>m. m \<in> set (getIndex (moduleIdsByCourse s) c) \<longrightarrow>
             (\<exists>M. map_get (modules s) m = Some M \<and> module_courseId M = c)))"

definition lesson_index_exact :: "LmsCoreStore \<Rightarrow> bool" where
  "lesson_index_exact s =
     (\<forall>m. distinct (getIndex (lessonIdsByModule s) m) \<and>
          (\<forall>l. l \<in> set (getIndex (lessonIdsByModule s) m) \<longrightarrow>
             (\<exists>L. map_get (lessons s) l = Some L \<and> lesson_moduleId L = m)))"

definition enrollment_index_exact :: "LmsCoreStore \<Rightarrow> bool" where
  "enrollment_index_exact s =
     (\<forall>c. distinct (getIndex (enrollmentIdsByCourse s) c) \<and>
          (\<forall>e. e \<in> set (getIndex (enrollmentIdsByCourse s) c) \<longrightarrow>
             (\<exists>E. map_get (enrollments s) e = Some E \<and> enrollment_courseId E = c)))"

definition indexes_exact :: "LmsCoreStore \<Rightarrow> bool" where
  "indexes_exact s =
     (module_index_exact s \<and> lesson_index_exact s \<and> enrollment_index_exact s)"


definition progress_keyed :: "LmsCoreStore \<Rightarrow> bool" where
  "progress_keyed s = (\<forall>k row. map_get (progress s) k = Some row \<longrightarrow> progress_id row = k)"


section \<open>The library and the injected dependencies\<close>

text \<open>
  The services call the JavaScript runtime, the \<^verbatim>\<open>crypto\<close> and \<^verbatim>\<open>jsonwebtoken\<close>
  libraries and the injected \<^verbatim>\<open>AuthDeps\<close>. These are parameters of the model, the
  fields of one record. A time is the number of milliseconds since the epoch that
  \<^verbatim>\<open>getTime()\<close> returns. A string is the list of its bytes.
\<close>

datatype jsnum = NaN | PosInfinity | NegInfinity | Finite rat

datatype Role = Admin | Instructor | Student

record GoogleProfile =
  profile_email :: string
  profile_name :: string

text \<open>The payload that \<^verbatim>\<open>jwt.verify\<close> returns; an access token carries no \<^verbatim>\<open>sid\<close>.\<close>

record Decoded =
  decoded_sub :: string
  decoded_sid :: "string option"
  decoded_tokenVersion :: int
  decoded_type :: string

datatype jwt_error = TokenExpiredError | JsonWebTokenError

record Runtime =
  hmacSha256Hex :: "string \<Rightarrow> string \<Rightarrow> string"
  toNumber :: "string \<Rightarrow> jsnum"
  numberToString :: "int \<Rightarrow> string"
  encodeURIComponent :: "string \<Rightarrow> string"
  toISOString :: "int \<Rightarrow> string"
  toLowerCase :: "string \<Rightarrow> string"
  sha256 :: "string \<Rightarrow> string"
  signAccess :: "int \<Rightarrow> string \<Rightarrow> string \<Rightarrow> Role \<Rightarrow> int \<Rightarrow> string"
  signRefresh :: "int \<Rightarrow> string \<Rightarrow> string \<Rightarrow> int \<Rightarrow> string"
  verifyRefresh :: "int \<Rightarrow> string \<Rightarrow> jwt_error + Decoded"
  randomId :: "nat \<Rightarrow> string"
  getAuthorizationUrl :: "string \<Rightarrow> string"
  exchangeCodeForProfile :: "string \<Rightarrow> GoogleProfile option"

text \<open>
  \<^item> \<open>hmacSha256Hex secret payload\<close> is
    \<^verbatim>\<open>crypto.createHmac("sha256", secret).update(payload).digest("hex")\<close>;
  \<^item> \<open>toNumber\<close> is \<^verbatim>\<open>Number\<close> on a string, \<open>numberToString\<close> is \<^verbatim>\<open>String\<close> on an
    integer;
  \<^item> \<open>sha256\<close> is the hex digest of \<^verbatim>\<open>crypto.createHash("sha256")\<close>;
  \<^item> \<open>signAccess clock sub email role tokenVersion\<close> and
    \<open>signRefresh clock sub sid tokenVersion\<close> are the two calls of \<^verbatim>\<open>jwt.sign\<close> with the
    secrets, issuer, audience and lifetimes of the environment, made when the system
    clock of the library shows \<open>clock\<close>;
  \<^item> \<open>verifyRefresh clock token\<close> is \<^verbatim>\<open>jwt.verify\<close> of a token with the refresh
    secret, issuer and audience at that clock: the payload, or the error thrown;
  \<^item> \<open>randomId n\<close> is what the \<open>n\<close>-th call of \<^verbatim>\<open>deps.randomId()\<close> returns;
  \<^item> \<open>exchangeCodeForProfile code\<close> is the profile that the awaited exchange resolves
    to, \<open>None\<close> when it rejects.
\<close>

section \<open>Signed content URLs (lms/contentDelivery.ts)\<close>

record LessonContentRef =
  ref_provider :: Provider
  ref_key :: string
  ref_fileId :: string
  ref_contentType :: string
  ref_size :: int

record SignedUrlInput =
  input_userId :: string
  input_lessonId :: string
  input_content :: LessonContentRef
  input_expiresInSeconds :: int

record SignedUrl =
  url :: string
  expiresAt :: string

record VerifyParams =
  params_provider :: Provider
  params_key :: string
  params_lessonId :: string
  params_userId :: string
  params_exp :: string
  params_sig :: string

fun providerName :: "Provider \<Rightarrow> string" where
  "providerName gdrive = ''gdrive''"
| "providerName s3 = ''s3''"
| "providerName r2 = ''r2''"

text \<open>The template \<^verbatim>\<open>`${provider}:${key}:${lessonId}:${userId}:${exp}`\<close> of both functions.\<close>

definition canonicalPayload ::
  "Provider \<Rightarrow> string \<Rightarrow> string \<Rightarrow> string \<Rightarrow> string \<Rightarrow> string" where
  "canonicalPayload provider key lessonId userId exp' =
     providerName provider @ '':'' @ key @ '':'' @ lessonId @ '':'' @ userId @ '':'' @ exp'"

text \<open>\<^verbatim>\<open>baseUrl.replace(/\/$/, "")\<close>: one slash at the end is dropped.\<close>

definition stripTrailingSlash :: "string \<Rightarrow> string" where
  "stripTrailingSlash baseUrl =
     (if baseUrl \<noteq> [] \<and> last baseUrl = CHR ''/'' then butlast baseUrl else baseUrl)"

text \<open>The values \<^verbatim>\<open>exp\<close> and \<^verbatim>\<open>sig\<close> that \<open>buildSignedLessonContentUrl\<close> computes.\<close>

definition signedExp :: "Runtime \<Rightarrow> int \<Rightarrow> SignedUrlInput \<Rightarrow> string" where
  "signedExp rt now input = numberToString rt (now div 1000 + input_expiresInSeconds input)"

definition signedSig :: "Runtime \<Rightarrow> string \<Rightarrow> int \<Rightarrow> SignedUrlInput \<Rightarrow> string" where
  "signedSig rt signingSecret now input =
     hmacSha256Hex rt signingSecret
       (canonicalPayload (ref_provider (input_content input)) (ref_key (input_content input))
          (input_lessonId input) (input_userId input) (signedExp rt now input))"

definition buildSignedLessonContentUrl ::
  "Runtime \<Rightarrow> string \<Rightarrow> string \<Rightarrow> int \<Rightarrow> SignedUrlInput \<Rightarrow> SignedUrl" where
  "buildSignedLessonContentUrl rt baseUrl signingSecret now input =
     (let expiresAtEpoch = now div 1000 + input_expiresInSeconds input;
          exp' = numberToString rt expiresAtEpoch;
          provider = ref_provider (input_content input);
          key = encodeURIComponent rt (ref_key (input_content input));
          payload = canonicalPayload provider (ref_key (input_content input))
                      (input_lessonId input) (input_userId input) exp';
          sig = hmacSha256Hex rt signingSecret payload
      in \<lparr>url = stripTrailingSlash baseUrl @ ''/'' @ providerName provider @ ''/'' @ key
                 @ ''?fileId='' @ encodeURIComponent rt (ref_fileId (input_content input))
                 @ ''&lessonId='' @ encodeURIComponent rt (input_lessonId input)
                 @ ''&uid='' @ encodeURIComponent rt (input_userId input)
                 @ ''&exp='' @ exp' @ ''&sig='' @ sig,
          expiresAt = toISOString rt (expiresAtEpoch * 1000)\<rparr>)"

text \<open>
  \<^verbatim>\<open>crypto.timingSafeEqual\<close> on the bytes of two strings throws a \<^verbatim>\<open>RangeError\<close> when
  the lengths differ.
\<close>

datatype crypto_error = RangeError

definition timingSafeEqual :: "string \<Rightarrow> string \<Rightarrow> crypto_error + bool" where
  "timingSafeEqual a b = (if length a \<noteq> length b then Inl RangeError else Inr (a = b))"

definition verifySignedLessonContentUrl ::
  "Runtime \<Rightarrow> string \<Rightarrow> int \<Rightarrow> VerifyParams \<Rightarrow> bool" where
  "verifySignedLessonContentUrl rt signingSecret now params =
     (case toNumber rt (params_exp params) of
        Finite expNum \<Rightarrow>
          if expNum \<le> of_int (now div 1000) then False
          else
            let payload = canonicalPayload (params_provider params) (params_key params)
                            (params_lessonId params) (params_userId params) (params_exp params);
                expected = hmacSha256Hex rt signingSecret payload
            in (case timingSafeEqual expected (params_sig params) of
                  Inr equal \<Rightarrow> equal
                | Inl thrown \<Rightarrow> False)
      | notFinite \<Rightarrow> False)"

text \<open>
  The payload of the parameters of a verification, and the parameters \<open>P'\<close> that keep
  the signature of \<open>P\<close> and differ from \<open>P\<close> in exactly one of the five signed fields.
\<close>

definition paramsPayload :: "VerifyParams \<Rightarrow> string" where
  "paramsPayload P =
     canonicalPayload (params_provider P) (params_key P) (params_lessonId P) (params_userId P)
       (params_exp P)"

definition altersOneField :: "VerifyParams \<Rightarrow> VerifyParams \<Rightarrow> bool" where
  "altersOneField P P' =
     (params_sig P' = params_sig P \<and>
      length (filter (\<lambda>changed. changed)
                [params_provider P' \<noteq> params_provider P, params_key P' \<noteq> params_key P,
                 params_lessonId P' \<noteq> params_lessonId P, params_userId P' \<noteq> params_userId P,
                 params_exp P' \<noteq> params_exp P]) = 1)"

section \<open>The service (index.ts)\<close>

subsection \<open>State\<close>

record User =
  user_id :: string
  user_email :: string
  user_name :: string
  user_role :: Role
  user_createdAt :: int
  user_updatedAt :: int
  user_tokenVersion :: int

datatype SubscriptionPlan = free | pro | enterprise

record PlanLimits =
  maxCreatedCourses :: int
  maxActiveEnrollments :: int
  maxOwnedStorageBytes :: int

record SubscriptionRecord =
  subscription_userId :: string
  subscription_plan :: SubscriptionPlan
  subscription_updatedAt :: string

record RefreshSession =
  session_sessionId :: string
  session_userId :: string
  session_tokenHash :: string
  session_expiresAt :: int
  session_revokedAt :: "int option"

text \<open>
  The environment: the lifetimes of the tokens, the two parsed e-mail lists
  (\<^verbatim>\<open>adminEmails\<close>, \<^verbatim>\<open>instructorEmails\<close>) and the delivery settings. The secrets, the
  issuer and the audience are part of \<open>signAccess\<close>, \<open>signRefresh\<close> and \<open>verifyRefresh\<close>.
\<close>

record Env =
  ACCESS_TOKEN_TTL_SECONDS :: int
  REFRESH_TOKEN_TTL_SECONDS :: int
  adminEmails :: "string list"
  instructorEmails :: "string list"
  DELIVERY_BASE_URL :: string
  DELIVERY_SIGNING_SECRET :: string
  DELIVERY_URL_TTL_SECONDS :: int

text \<open>
  The maps of \<^verbatim>\<open>createAuthApp\<close>, the store, and the number of calls of
  \<^verbatim>\<open>deps.randomId()\<close> made so far. The two user maps hold the same object for a user:
  an assignment to a field of the object is written to both.
\<close>

record AppState =
  usersByEmail :: "User jsmap"
  usersById :: "User jsmap"
  subscriptionsByUserId :: "SubscriptionRecord jsmap"
  refreshSessions :: "RefreshSession jsmap"
  oauthStates :: "int jsmap"
  lmsStore :: LmsCoreStore
  randomIdCalls :: nat

definition newApp :: AppState where
  "newApp =
     \<lparr>usersByEmail = [], usersById = [], subscriptionsByUserId = [], refreshSessions = [],
      oauthStates = [], lmsStore = newStore, randomIdCalls = 0\<rparr>"

text \<open>The payload \<^verbatim>\<open>req.auth\<close> that \<^verbatim>\<open>authenticate\<close> attaches to a request.\<close>

record AuthContext =
  auth_sub :: string
  auth_email :: string
  auth_role :: Role
  auth_tokenVersion :: int

subsection \<open>Responses\<close>

record AuthUser =
  authUser_id :: string
  authUser_email :: string
  authUser_name :: string
  authUser_role :: Role

record AuthResponse =
  auth_accessToken :: string
  auth_refreshToken :: string
  auth_expiresIn :: int
  auth_tokenType :: string
  auth_user :: AuthUser
  auth_subscriptionPlan :: SubscriptionPlan

record SoftLimit =
  createdCoursesExceededBy :: int
  activeEnrollmentsExceededBy :: int
  ownedStorageBytesExceededBy :: int

record SubscriptionStatus =
  status_plan :: SubscriptionPlan
  status_limits :: PlanLimits
  status_usage :: UserUsageSnapshot
  status_softLimit :: SoftLimit

record SubscriptionMeta =
  meta_plan :: SubscriptionPlan
  meta_softLimitExceeded :: bool
  meta_softLimit :: SoftLimit

datatype Body =
    ErrorBody string
  | LmsErrorBody code string
  | StartBody string string string
  | AuthBody AuthResponse
  | OkBody
  | StatusBody SubscriptionStatus
  | PlanBody SubscriptionRecord
  | CourseBody Course SubscriptionMeta
  | ModuleBody Module
  | LessonBody Lesson
  | EnrollmentBody Enrollment SubscriptionMeta
  | ProgressBody Progress
  | ContentBody LessonContentMetadata SubscriptionMeta

record Response =
  res_status :: nat
  res_body :: Body

definition respond :: "nat \<Rightarrow> Body \<Rightarrow> Response" where
  "respond code' body' = \<lparr>res_status = code', res_body = body'\<rparr>"

subsection \<open>Subscriptions\<close>

definition MAX_SAFE_INTEGER :: int where
  "MAX_SAFE_INTEGER = 9007199254740991"

fun PLAN_LIMITS :: "SubscriptionPlan \<Rightarrow> PlanLimits" where
  "PLAN_LIMITS free =
     \<lparr>maxCreatedCourses = 2, maxActiveEnrollments = 5,
      maxOwnedStorageBytes = 50 * 1024 * 1024\<rparr>"
| "PLAN_LIMITS pro =
     \<lparr>maxCreatedCourses = 20, maxActiveEnrollments = 100,
      maxOwnedStorageBytes = 5 * 1024 * 1024 * 1024\<rparr>"
| "PLAN_LIMITS enterprise =
     \<lparr>maxCreatedCourses = MAX_SAFE_INTEGER, maxActiveEnrollments = MAX_SAFE_INTEGER,
      maxOwnedStorageBytes = MAX_SAFE_INTEGER\<rparr>"

definition getOrCreateSubscription ::
  "Runtime \<Rightarrow> int \<Rightarrow> AppState \<Rightarrow> string \<Rightarrow> AppState \<times> SubscriptionRecord" where
  "getOrCreateSubscription rt now s userId =
     (case map_get (subscriptionsByUserId s) userId of
        Some existing \<Rightarrow> (s, existing)
      | None \<Rightarrow>
          let created = \<lparr>subscription_userId = userId, subscription_plan = free,
                          subscription_updatedAt = toISOString rt now\<rparr>
          in (s\<lparr>subscriptionsByUserId := map_set (subscriptionsByUserId s) userId created\<rparr>,
              created))"

definition getSubscriptionStatus ::
  "Runtime \<Rightarrow> int \<Rightarrow> AppState \<Rightarrow> string \<Rightarrow> AppState \<times> SubscriptionStatus" where
  "getSubscriptionStatus rt now s userId =
     (let (s1, subscription) = getOrCreateSubscription rt now s userId;
          limits = PLAN_LIMITS (subscription_plan subscription);
          usage = getUserUsageSnapshot (lmsStore s1) userId
      in (s1,
          \<lparr>status_plan = subscription_plan subscription, status_limits = limits,
           status_usage = usage,
           status_softLimit =
             \<lparr>createdCoursesExceededBy = max (createdCourses usage - maxCreatedCourses limits) 0,
              activeEnrollmentsExceededBy =
                max (activeEnrollments usage - maxActiveEnrollments limits) 0,
              ownedStorageBytesExceededBy =
                max (ownedStorageBytes usage - maxOwnedStorageBytes limits) 0\<rparr>\<rparr>))"

definition withSoftLimitMeta ::
  "Runtime \<Rightarrow> int \<Rightarrow> AppState \<Rightarrow> string \<Rightarrow> AppState \<times> SubscriptionMeta" where
  "withSoftLimitMeta rt now s userId =
     (let (s1, status') = getSubscriptionStatus rt now s userId;
          softLimitExceeded =
            (createdCoursesExceededBy (status_softLimit status') > 0 \<or>
             activeEnrollmentsExceededBy (status_softLimit status') > 0 \<or>
             ownedStorageBytesExceededBy (status_softLimit status') > 0)
      in (s1,
          \<lparr>meta_plan = status_plan status', meta_softLimitExceeded = softLimitExceeded,
           meta_softLimit = status_softLimit status'\<rparr>))"

subsection \<open>Tokens and sessions\<close>

definition roleForEmail :: "Runtime \<Rightarrow> Env \<Rightarrow> string \<Rightarrow> Role" where
  "roleForEmail rt env email =
     (let normalized = toLowerCase rt email
      in if normalized \<in> set (adminEmails env) then Admin
         else if normalized \<in> set (instructorEmails env) then Instructor
         else Student)"

definition signAccessToken :: "Runtime \<Rightarrow> int \<Rightarrow> User \<Rightarrow> string" where
  "signAccessToken rt clock user =
     signAccess rt clock (user_id user) (user_email user) (user_role user)
       (user_tokenVersion user)"

definition issueRefreshToken ::
  "Runtime \<Rightarrow> Env \<Rightarrow> int \<Rightarrow> int \<Rightarrow> AppState \<Rightarrow> User \<Rightarrow>
   AppState \<times> string \<times> RefreshSession" where
  "issueRefreshToken rt env now clock s user =
     (let sessionId = randomId rt (randomIdCalls s);
          s1 = s\<lparr>randomIdCalls := Suc (randomIdCalls s)\<rparr>;
          expiresAt = now + REFRESH_TOKEN_TTL_SECONDS env * 1000;
          token = signRefresh rt clock (user_id user) sessionId (user_tokenVersion user);
          session = \<lparr>session_sessionId = sessionId, session_userId = user_id user,
                      session_tokenHash = sha256 rt token, session_expiresAt = expiresAt,
                      session_revokedAt = None\<rparr>
      in (s1\<lparr>refreshSessions := map_set (refreshSessions s1) sessionId session\<rparr>,
          token, session))"

definition toAuthResponse ::
  "Runtime \<Rightarrow> Env \<Rightarrow> int \<Rightarrow> int \<Rightarrow> AppState \<Rightarrow> User \<Rightarrow> AppState \<times> AuthResponse" where
  "toAuthResponse rt env now clock s user =
     (let (s1, subscription) = getOrCreateSubscription rt now s (user_id user);
          accessToken = signAccessToken rt clock user;
          (s2, token, session) = issueRefreshToken rt env now clock s1 user
      in (s2,
          \<lparr>auth_accessToken = accessToken, auth_refreshToken = token,
           auth_expiresIn = ACCESS_TOKEN_TTL_SECONDS env, auth_tokenType = ''Bearer'',
           auth_user = \<lparr>authUser_id = user_id user, authUser_email = user_email user,
                         authUser_name = user_name user, authUser_role = user_role user\<rparr>,
           auth_subscriptionPlan = subscription_plan subscription\<rparr>))"

subsection \<open>The authentication routes\<close>

text \<open>
  A route takes the value \<open>now\<close> of \<^verbatim>\<open>deps.now()\<close> during the request, the system clock
  \<open>clock\<close> that the token library reads, and the state; it returns the state that the
  request leaves and the response sent. A request is handled to its end before the
  next one starts.
\<close>

definition get_auth_google_start :: "Runtime \<Rightarrow> int \<Rightarrow> AppState \<Rightarrow> AppState \<times> Response" where
  "get_auth_google_start rt now s =
     (let state = randomId rt (randomIdCalls s);
          s1 = s\<lparr>randomIdCalls := Suc (randomIdCalls s)\<rparr>;
          s2 = s1\<lparr>oauthStates := map_set (oauthStates s1) state now\<rparr>;
          authUrl = getAuthorizationUrl rt state
      in (s2, respond 200 (StartBody authUrl ''openid email'' state)))"

text \<open>
  The callback after the state check and the exchange: the user of the profile is
  looked up or created, and the tokens are issued.
\<close>

definition loginProfile ::
  "Runtime \<Rightarrow> Env \<Rightarrow> int \<Rightarrow> int \<Rightarrow> AppState \<Rightarrow> GoogleProfile \<Rightarrow> AppState \<times> Response" where
  "loginProfile rt env now clock s profile =
     (let normalizedEmail = toLowerCase rt (profile_email profile);
          (s3, user) =
            (case map_get (usersByEmail s) normalizedEmail of
               None \<Rightarrow>
                 let user = \<lparr>user_id = randomId rt (randomIdCalls s),
                              user_email = normalizedEmail, user_name = profile_name profile,
                              user_role = roleForEmail rt env normalizedEmail,
                              user_createdAt = now, user_updatedAt = now,
                              user_tokenVersion = 1\<rparr>;
                     s1 = s\<lparr>randomIdCalls := Suc (randomIdCalls s)\<rparr>;
                     s2 = s1\<lparr>usersByEmail := map_set (usersByEmail s1) normalizedEmail user,
                            usersById := map_set (usersById s1) (user_id user) user\<rparr>
                 in (fst (getOrCreateSubscription rt now s2 (user_id user)), user)
             | Some existing \<Rightarrow>
                 let user = existing\<lparr>user_updatedAt := now\<rparr>
                 in (s\<lparr>usersByEmail := map_set (usersByEmail s) normalizedEmail user,
                       usersById :=
                         (if map_get (usersById s) (user_id existing) = Some existing
                          then map_set (usersById s) (user_id existing) user
                          else usersById s)\<rparr>,
                     user));
          (s4, payload) = toAuthResponse rt env now clock s3 user
      in (s4, respond 200 (AuthBody payload)))"

definition get_auth_google_callback ::
  "Runtime \<Rightarrow> Env \<Rightarrow> int \<Rightarrow> int \<Rightarrow> AppState \<Rightarrow> string \<Rightarrow> string \<Rightarrow> AppState \<times> Response" where
  "get_auth_google_callback rt env now clock s code' state =
     (if code' = [] \<or> state = [] then (s, respond 400 (ErrorBody ''invalid_callback_params''))
      else
        case map_get (oauthStates s) state of
          None \<Rightarrow> (s, respond 400 (ErrorBody ''invalid_state''))
        | Some issuedAt \<Rightarrow>
            let s1 = s\<lparr>oauthStates := map_delete (oauthStates s) state\<rparr>
            in if now - issuedAt > 10 * 60 * 1000
               then (s1, respond 400 (ErrorBody ''expired_state''))
               else
                 (case exchangeCodeForProfile rt code' of
                    None \<Rightarrow> (s1, respond 401 (ErrorBody ''google_auth_failed''))
                  | Some profile \<Rightarrow> loginProfile rt env now clock s1 profile))"

text \<open>
  \<^verbatim>\<open>refreshSessions.get(decoded.sid)\<close> finds no session when the payload has no
  \<^verbatim>\<open>sid\<close>. The assignment \<^verbatim>\<open>session.revokedAt = deps.now()\<close> changes the object that
  the map holds under that key.
\<close>

definition post_auth_refresh ::
  "Runtime \<Rightarrow> Env \<Rightarrow> int \<Rightarrow> int \<Rightarrow> AppState \<Rightarrow> string \<Rightarrow> AppState \<times> Response" where
  "post_auth_refresh rt env now clock s refreshToken =
     (if refreshToken = [] then (s, respond 400 (ErrorBody ''invalid_input''))
      else
        case verifyRefresh rt clock refreshToken of
          Inl TokenExpiredError \<Rightarrow> (s, respond 401 (ErrorBody ''refresh_token_expired''))
        | Inl JsonWebTokenError \<Rightarrow> (s, respond 401 (ErrorBody ''invalid_refresh_token''))
        | Inr decoded \<Rightarrow>
            if decoded_type decoded \<noteq> ''refresh''
            then (s, respond 401 (ErrorBody ''invalid_token_type''))
            else
              (case decoded_sid decoded of
                 None \<Rightarrow> (s, respond 401 (ErrorBody ''refresh_session_invalid''))
               | Some sid \<Rightarrow>
              (case map_get (refreshSessions s) sid of
                 None \<Rightarrow> (s, respond 401 (ErrorBody ''refresh_session_invalid''))
               | Some session \<Rightarrow>
                   if session_revokedAt session \<noteq> None \<or> session_expiresAt session \<le> now
                   then (s, respond 401 (ErrorBody ''refresh_session_invalid''))
                   else if session_userId session \<noteq> decoded_sub decoded \<or>
                           session_tokenHash session \<noteq> sha256 rt refreshToken
                   then (s, respond 401 (ErrorBody ''refresh_session_mismatch''))
                   else
                     (case map_get (usersById s) (decoded_sub decoded) of
                        None \<Rightarrow> (s, respond 401 (ErrorBody ''stale_refresh_token''))
                      | Some user \<Rightarrow>
                          if user_tokenVersion user \<noteq> decoded_tokenVersion decoded
                          then (s, respond 401 (ErrorBody ''stale_refresh_token''))
                          else
                            let s1 = s\<lparr>refreshSessions :=
                                         map_set (refreshSessions s) sid
                                           (session\<lparr>session_revokedAt := Some now\<rparr>)\<rparr>;
                                (s2, payload) = toAuthResponse rt env now clock s1 user
                            in (s2, respond 200 (AuthBody payload))))))"

definition post_auth_logout ::
  "Runtime \<Rightarrow> int \<Rightarrow> int \<Rightarrow> AppState \<Rightarrow> string \<Rightarrow> AppState \<times> Response" where
  "post_auth_logout rt now clock s refreshToken =
     (if refreshToken = [] then (s, respond 400 (ErrorBody ''invalid_input''))
      else
        case verifyRefresh rt clock refreshToken of
          Inl thrown \<Rightarrow> (s, respond 401 (ErrorBody ''invalid_refresh_token''))
        | Inr decoded \<Rightarrow>
            if decoded_type decoded \<noteq> ''refresh''
            then (s, respond 401 (ErrorBody ''invalid_token_type''))
            else
              (case decoded_sid decoded of
                 None \<Rightarrow> (s, respond 200 OkBody)
               | Some sid \<Rightarrow>
              (case map_get (refreshSessions s) sid of
                 None \<Rightarrow> (s, respond 200 OkBody)
               | Some session \<Rightarrow>
                   if session_revokedAt session = None
                   then (s\<lparr>refreshSessions :=
                             map_set (refreshSessions s) sid
                               (session\<lparr>session_revokedAt := Some now\<rparr>)\<rparr>,
                         respond 200 OkBody)
                   else (s, respond 200 OkBody))))"

subsection \<open>The subscription routes\<close>

definition get_subscription_me ::
  "Runtime \<Rightarrow> int \<Rightarrow> AppState \<Rightarrow> AuthContext \<Rightarrow> AppState \<times> Response" where
  "get_subscription_me rt now s auth =
     (let (s1, status') = getSubscriptionStatus rt now s (auth_sub auth)
      in (s1, respond 200 (StatusBody status')))"

definition post_subscription_plan ::
  "Runtime \<Rightarrow> int \<Rightarrow> AppState \<Rightarrow> AuthContext \<Rightarrow> string \<Rightarrow> SubscriptionPlan \<Rightarrow>
   AppState \<times> Response" where
  "post_subscription_plan rt now s auth userId plan =
     (if auth_role auth \<notin> set [Admin] then (s, respond 403 (ErrorBody ''forbidden''))
      else if userId = [] then (s, respond 400 (ErrorBody ''invalid_input''))
      else if \<not> map_has (usersById s) userId then (s, respond 404 (ErrorBody ''not_found''))
      else
        let next = \<lparr>subscription_userId = userId, subscription_plan = plan,
                     subscription_updatedAt = toISOString rt now\<rparr>
        in (s\<lparr>subscriptionsByUserId := map_set (subscriptionsByUserId s) userId next\<rparr>,
            respond 200 (PlanBody next)))"

subsection \<open>The LMS routes\<close>

definition canInstructorManageCourse :: "AppState \<Rightarrow> string \<Rightarrow> string \<Rightarrow> exn + bool" where
  "canInstructorManageCourse s userId courseId =
     (case getCourse (lmsStore s) courseId of
        Inl thrown \<Rightarrow> Inl thrown
      | Inr course \<Rightarrow> Inr (course_createdBy course = userId))"

definition handleLmsError :: "exn \<Rightarrow> Response" where
  "handleLmsError error =
     (case error of
        LmsModelError code' message \<Rightarrow>
          if code' = ACCESS_DENIED then respond 403 (LmsErrorBody code' message)
          else if code' = NOT_FOUND then respond 404 (LmsErrorBody code' message)
          else if code' = DUPLICATE then respond 409 (LmsErrorBody code' message)
          else respond 400 (LmsErrorBody code' message)
      | TypeError \<Rightarrow> respond 500 (ErrorBody ''internal_error''))"

definition post_lms_courses ::
  "Runtime \<Rightarrow> int \<Rightarrow> AppState \<Rightarrow> AuthContext \<Rightarrow> string \<Rightarrow> string \<Rightarrow> AppState \<times> Response" where
  "post_lms_courses rt now s auth cid ctitle =
     (if auth_role auth \<notin> set [Admin, Instructor] then (s, respond 403 (ErrorBody ''forbidden''))
      else if cid = [] \<or> ctitle = [] then (s, respond 400 (ErrorBody ''invalid_input''))
      else
        case createCourse (toISOString rt now) (lmsStore s) cid ctitle (auth_sub auth) of
          (store, Inl thrown) \<Rightarrow> (s\<lparr>lmsStore := store\<rparr>, handleLmsError thrown)
        | (store, Inr course) \<Rightarrow>
            let (s1, meta) = withSoftLimitMeta rt now (s\<lparr>lmsStore := store\<rparr>) (auth_sub auth)
            in (s1, respond 201 (CourseBody course meta)))"

definition post_lms_modules ::
  "AppState \<Rightarrow> AuthContext \<Rightarrow> string \<Rightarrow> string \<Rightarrow> string \<Rightarrow> int \<Rightarrow> AppState \<times> Response" where
  "post_lms_modules s auth mid courseId mtitle position =
     (if auth_role auth \<notin> set [Admin, Instructor] then (s, respond 403 (ErrorBody ''forbidden''))
      else if mid = [] \<or> courseId = [] \<or> mtitle = [] \<or> position \<le> 0
      then (s, respond 400 (ErrorBody ''invalid_input''))
      else
        case (if auth_role auth = Instructor
              then canInstructorManageCourse s (auth_sub auth) courseId else Inr True) of
          Inl thrown \<Rightarrow> (s, handleLmsError thrown)
        | Inr False \<Rightarrow> (s, respond 403 (ErrorBody ''forbidden''))
        | Inr True \<Rightarrow>
            (case createModule (lmsStore s) mid courseId mtitle position of
               (store, Inl thrown) \<Rightarrow> (s\<lparr>lmsStore := store\<rparr>, handleLmsError thrown)
             | (store, Inr row) \<Rightarrow> (s\<lparr>lmsStore := store\<rparr>, respond 201 (ModuleBody row))))"

definition post_lms_lessons ::
  "AppState \<Rightarrow> AuthContext \<Rightarrow> string \<Rightarrow> string \<Rightarrow> string \<Rightarrow> int \<Rightarrow> AppState \<times> Response" where
  "post_lms_lessons s auth lid moduleId ltitle position =
     (if auth_role auth \<notin> set [Admin, Instructor] then (s, respond 403 (ErrorBody ''forbidden''))
      else if lid = [] \<or> moduleId = [] \<or> ltitle = [] \<or> position \<le> 0
      then (s, respond 400 (ErrorBody ''invalid_input''))
      else
        case (if auth_role auth = Instructor
              then (case getCourseIdForModule (lmsStore s) moduleId of
                      Inl thrown \<Rightarrow> Inl thrown
                    | Inr courseId \<Rightarrow> canInstructorManageCourse s (auth_sub auth) courseId)
              else Inr True) of
          Inl thrown \<Rightarrow> (s, handleLmsError thrown)
        | Inr False \<Rightarrow> (s, respond 403 (ErrorBody ''forbidden''))
        | Inr True \<Rightarrow>
            (case createLesson (lmsStore s) lid moduleId ltitle position of
               (store, Inl thrown) \<Rightarrow> (s\<lparr>lmsStore := store\<rparr>, handleLmsError thrown)
             | (store, Inr row) \<Rightarrow> (s\<lparr>lmsStore := store\<rparr>, respond 201 (LessonBody row))))"

definition post_lms_enrollments ::
  "Runtime \<Rightarrow> int \<Rightarrow> AppState \<Rightarrow> AuthContext \<Rightarrow> string \<Rightarrow> string \<Rightarrow> string \<Rightarrow>
   AppState \<times> Response" where
  "post_lms_enrollments rt now s auth eid courseId userId =
     (if auth_role auth \<notin> set [Admin, Instructor, Student]
      then (s, respond 403 (ErrorBody ''forbidden''))
      else if eid = [] \<or> courseId = [] \<or> userId = []
      then (s, respond 400 (ErrorBody ''invalid_input''))
      else if auth_role auth = Student \<and> auth_sub auth \<noteq> userId
      then (s, respond 403 (ErrorBody ''forbidden''))
      else
        case enrollStudent (toISOString rt now) (lmsStore s) eid courseId userId of
          (store, Inl thrown) \<Rightarrow> (s\<lparr>lmsStore := store\<rparr>, handleLmsError thrown)
        | (store, Inr row) \<Rightarrow>
            let (s1, meta) = withSoftLimitMeta rt now (s\<lparr>lmsStore := store\<rparr>) userId
            in (s1, respond 201 (EnrollmentBody row meta)))"

definition patch_lms_progress ::
  "Runtime \<Rightarrow> int \<Rightarrow> AppState \<Rightarrow> AuthContext \<Rightarrow> string \<Rightarrow> string \<Rightarrow> Status \<Rightarrow>
   AppState \<times> Response" where
  "patch_lms_progress rt now s auth enrollmentId lessonId status' =
     (if auth_role auth \<notin> set [Student] then (s, respond 403 (ErrorBody ''forbidden''))
      else if enrollmentId = [] \<or> lessonId = []
      then (s, respond 400 (ErrorBody ''invalid_input''))
      else
        case markLessonProgress (toISOString rt now) (lmsStore s) enrollmentId lessonId
               (auth_sub auth) status' of
          (store, Inl thrown) \<Rightarrow> (s\<lparr>lmsStore := store\<rparr>, handleLmsError thrown)
        | (store, Inr row) \<Rightarrow> (s\<lparr>lmsStore := store\<rparr>, respond 200 (ProgressBody row)))"

definition put_lms_lesson_content ::
  "Runtime \<Rightarrow> int \<Rightarrow> AppState \<Rightarrow> AuthContext \<Rightarrow> string \<Rightarrow> Provider \<Rightarrow> string \<Rightarrow> string \<Rightarrow>
   string \<Rightarrow> int \<Rightarrow> AppState \<times> Response" where
  "put_lms_lesson_content rt now s auth lessonId provider key fileId contentType size' =
     (if auth_role auth \<notin> set [Admin, Instructor] then (s, respond 403 (ErrorBody ''forbidden''))
      else if key = [] \<or> fileId = [] \<or> contentType = [] \<or> size' < 0
      then (s, respond 400 (ErrorBody ''invalid_input''))
      else
        case (if auth_role auth = Instructor
              then (case getCourseIdForLesson (lmsStore s) lessonId of
                      Inl thrown \<Rightarrow> Inl thrown
                    | Inr courseId \<Rightarrow> canInstructorManageCourse s (auth_sub auth) courseId)
              else Inr True) of
          Inl thrown \<Rightarrow> (s, handleLmsError thrown)
        | Inr False \<Rightarrow> (s, respond 403 (ErrorBody ''forbidden''))
        | Inr True \<Rightarrow>
            (case attachLessonContent (toISOString rt now) (lmsStore s) lessonId provider key
                    fileId contentType size' of
               (store, Inl thrown) \<Rightarrow> (s\<lparr>lmsStore := store\<rparr>, handleLmsError thrown)
             | (store, Inr metadata) \<Rightarrow>
                 let (s1, meta) =
                       withSoftLimitMeta rt now (s\<lparr>lmsStore := store\<rparr>) (auth_sub auth)
                 in (s1, respond 201 (ContentBody metadata meta))))"

subsection \<open>Sequences of requests\<close>

text \<open>
  The requests that write to the state, those behind \<^verbatim>\<open>authenticate\<close> with the payload
  of their access token. The other routes send a response computed from the state and
  write at most a missing subscription record.
\<close>

datatype Request =
    GetAuthGoogleStart
  | GetAuthGoogleCallback string string
  | PostAuthRefresh string
  | PostAuthLogout string
  | GetSubscriptionMe AuthContext
  | PostSubscriptionPlan AuthContext string SubscriptionPlan
  | PostLmsCourses AuthContext string string
  | PostLmsModules AuthContext string string string int
  | PostLmsLessons AuthContext string string string int
  | PostLmsEnrollments AuthContext string string string
  | PatchLmsProgress AuthContext string string Status
  | PutLmsLessonContent AuthContext string Provider string string string int

fun handle ::
  "Runtime \<Rightarrow> Env \<Rightarrow> int \<Rightarrow> int \<Rightarrow> Request \<Rightarrow> AppState \<Rightarrow> AppState \<times> Response" where
  "handle rt env now clock GetAuthGoogleStart s = get_auth_google_start rt now s"
| "handle rt env now clock (GetAuthGoogleCallback code' state) s =
     get_auth_google_callback rt env now clock s code' state"
| "handle rt env now clock (PostAuthRefresh refreshToken) s =
     post_auth_refresh rt env now clock s refreshToken"
| "handle rt env now clock (PostAuthLogout refreshToken) s =
     post_auth_logout rt now clock s refreshToken"
| "handle rt env now clock (GetSubscriptionMe auth) s = get_subscription_me rt now s auth"
| "handle rt env now clock (PostSubscriptionPlan auth userId plan) s =
     post_subscription_plan rt now s auth userId plan"
| "handle rt env now clock (PostLmsCourses auth cid ctitle) s =
     post_lms_courses rt now s auth cid ctitle"
| "handle rt env now clock (PostLmsModules auth mid courseId mtitle position) s =
     post_lms_modules s auth mid courseId mtitle position"
| "handle rt env now clock (PostLmsLessons auth lid moduleId ltitle position) s =
     post_lms_lessons s auth lid moduleId ltitle position"
| "handle rt env now clock (PostLmsEnrollments auth eid courseId userId) s =
     post_lms_enrollments rt now s auth eid courseId userId"
| "handle rt env now clock (PatchLmsProgress auth enrollmentId lessonId status') s =
     patch_lms_progress rt now s auth enrollmentId lessonId status'"
| "handle rt env now clock (PutLmsLessonContent auth lessonId provider key fileId contentType
                              size') s =
     put_lms_lesson_content rt now s auth lessonId provider key fileId contentType size'"

text \<open>The state after a list of requests, each with its \<open>now\<close> and its \<open>clock\<close>.\<close>

fun run :: "Runtime \<Rightarrow> Env \<Rightarrow> (int \<times> int \<times> Request) list \<Rightarrow> AppState \<Rightarrow> AppState" where
  "run rt env [] s = s"
| "run rt env ((now, clock, request) # requests) s =
     run rt env requests (fst (handle rt env now clock request s))"

subsection \<open>Dead sessions and unused ids\<close>

text \<open>
  A session id is dead when no session is stored under it or the session is revoked.
  An id is unused when no later call of \<^verbatim>\<open>deps.randomId()\<close> returns it.
\<close>

definition dead :: "AppState \<Rightarrow> string \<Rightarrow> bool" where
  "dead s sid =
     (case map_get (refreshSessions s) sid of
        None \<Rightarrow> True
      | Some session \<Rightarrow> session_revokedAt session \<noteq> None)"

definition unused :: "Runtime \<Rightarrow> AppState \<Rightarrow> string \<Rightarrow> bool" where
  "unused rt s k = (\<forall>n\<ge>randomIdCalls s. randomId rt n \<noteq> k)"

subsection \<open>Examples\<close>

text \<open>
  A runtime for examples. The digest of a payload is the secret followed by the
  payload; an integer is written in unary, and a string of \<open>n\<close> letters \<open>i\<close> is read back
  as the number \<open>n\<close>, anything else as \<^verbatim>\<open>NaN\<close>. A refresh token is the user id, a dot and
  the session id; it verifies until the clock shows 30 seconds. The \<open>n\<close>-th random id
  is a string of \<open>n + 1\<close> letters \<open>x\<close>. The exchange fails for the code \<open>bad\<close>.
\<close>

definition exampleRuntime :: Runtime where
  "exampleRuntime =
     \<lparr>hmacSha256Hex = (\<lambda>secret payload. secret @ ''|'' @ payload),
      toNumber = (\<lambda>s. if s = replicate (length s) (CHR ''i'') then Finite (of_nat (length s))
                       else NaN),
      numberToString = (\<lambda>n. replicate (nat n) (CHR ''i'')),
      encodeURIComponent = (\<lambda>s. s),
      toISOString = (\<lambda>t. replicate (nat t) (CHR ''i'')),
      toLowerCase = (\<lambda>s. s),
      sha256 = (\<lambda>s. ''#'' @ s),
      signAccess = (\<lambda>clock sub email role tokenVersion. ''access.'' @ sub),
      signRefresh = (\<lambda>clock sub sid tokenVersion. sub @ ''.'' @ sid),
      verifyRefresh =
        (\<lambda>clock token.
           if CHR ''.'' \<notin> set token then Inl JsonWebTokenError
           else if 30000 \<le> clock then Inl TokenExpiredError
           else Inr \<lparr>decoded_sub = takeWhile (\<lambda>c. c \<noteq> CHR ''.'') token,
                     decoded_sid = Some (tl (dropWhile (\<lambda>c. c \<noteq> CHR ''.'') token)),
                     decoded_tokenVersion = 1, decoded_type = ''refresh''\<rparr>),
      randomId = (\<lambda>n. replicate (Suc n) (CHR ''x'')),
      getAuthorizationUrl = (\<lambda>state. ''https://accounts.google.com/mock?state='' @ state),
      exchangeCodeForProfile =
        (\<lambda>code'. if code' = ''bad'' then None
                else Some \<lparr>profile_email = code' @ ''@navcloud.io'', profile_name = code'\<rparr>)\<rparr>"

definition exampleEnv :: Env where
  "exampleEnv =
     \<lparr>ACCESS_TOKEN_TTL_SECONDS = 900, REFRESH_TOKEN_TTL_SECONDS = 3600,
      adminEmails = [''admin@navcloud.io''], instructorEmails = [''instructor@navcloud.io''],
      DELIVERY_BASE_URL = ''https://files.navcloud.example/content'',
      DELIVERY_SIGNING_SECRET = ''cccccccccccccccccccccccccccccccc'',
      DELIVERY_URL_TTL_SECONDS = 120\<rparr>"

text \<open>The state after one student logged in: user \<open>xx\<close>, session \<open>xxx\<close>, token \<open>xx.xxx\<close>.\<close>

definition exampleLogin :: AppState where
  "exampleLogin =
     run exampleRuntime exampleEnv
       [(0, 0, GetAuthGoogleStart), (0, 0, GetAuthGoogleCallback ''student'' ''x'')] newApp"

text \<open>The state after one instructor logged in: user \<open>xx\<close> with role \<open>Instructor\<close>.\<close>

definition exampleInstructorLogin :: AppState where
  "exampleInstructorLogin =
     run exampleRuntime exampleEnv
       [(0, 0, GetAuthGoogleStart), (0, 0, GetAuthGoogleCallback ''instructor'' ''x'')] newApp"

text \<open>The instructor \<open>xx\<close> with two courses, and with a third one.\<close>

definition exampleInstructor :: AuthContext where
  "exampleInstructor =
     \<lparr>auth_sub = ''xx'', auth_email = ''instructor@navcloud.io'', auth_role = Instructor,
      auth_tokenVersion = 1\<rparr>"

definition exampleAdmin :: AuthContext where
  "exampleAdmin =
     \<lparr>auth_sub = ''aa'', auth_email = ''admin@navcloud.io'', auth_role = Admin,
      auth_tokenVersion = 1\<rparr>"

definition exampleTwoCourses :: AppState where
  "exampleTwoCourses =
     run exampleRuntime exampleEnv
       [(1, 1, PostLmsCourses exampleInstructor ''c1'' ''First''),
        (2, 2, PostLmsCourses exampleInstructor ''c2'' ''Second'')] exampleInstructorLogin"

definition exampleThreeCourses :: AppState where
  "exampleThreeCourses =
     run exampleRuntime exampleEnv
       [(3, 3, PostLmsCourses exampleInstructor ''c3'' ''Third'')] exampleTwoCourses"

section \<open>Properties of the domain store\<close>

subsection \<open>Maps\<close>

lemma map_of_map_set [simp]: "map_of (map_set m k v) = (map_of m)(k \<mapsto> v)"
  by (induction m) (auto simp: fun_eq_iff)

lemma map_get_map_set [simp]:
  "map_get (map_set m k v) k' = (if k' = k then Some v else map_get m k')"
  by (simp add: map_get_def)

lemma map_has_map_set [simp]: "map_has (map_set m k v) k' = (k' = k \<or> map_has m k')"
  by (simp add: map_has_def)

lemma map_has_get: "map_has m k = (map_get m k \<noteq> None)"
  by (simp add: map_has_def map_get_def)

subsection \<open>Failed calls\<close>

lemma createCourse_throws:
  "isl (snd (createCourse now s cid ctitle cby)) \<Longrightarrow> fst (createCourse now s cid ctitle cby) = s"
  by (simp add: createCourse_def Let_def split: if_splits)

lemma createModule_throws:
  "isl (snd (createModule s mid courseId mtitle position)) \<Longrightarrow>
   fst (createModule s mid courseId mtitle position) = s"
  by (auto simp: createModule_def Let_def split: option.splits if_splits)

lemma createLesson_throws:
  "isl (snd (createLesson s lid moduleId ltitle position)) \<Longrightarrow>
   fst (createLesson s lid moduleId ltitle position) = s"
  by (auto simp: createLesson_def Let_def split: option.splits if_splits)

lemma enrollStudent_throws:
  "isl (snd (enrollStudent now s eid courseId userId)) \<Longrightarrow>
   fst (enrollStudent now s eid courseId userId) = s"
  by (simp add: enrollStudent_def Let_def split: if_splits)

lemma attachLessonContent_throws:
  "isl (snd (attachLessonContent now s lessonId provider key fileId contentType size')) \<Longrightarrow>
   fst (attachLessonContent now s lessonId provider key fileId contentType size') = s"
  by (simp add: attachLessonContent_def Let_def split: if_splits)

lemma markLessonProgress_throws:
  "isl (snd (markLessonProgress now s enrollmentId lessonId actorUserId status)) \<Longrightarrow>
   fst (markLessonProgress now s enrollmentId lessonId actorUserId status) = s"
  by (auto simp: markLessonProgress_def Let_def split: option.splits if_splits)

subsection \<open>Indices and fan-out\<close>

lemma getIndex_map_set [simp]:
  "getIndex (map_set m k v) k' = (if k' = k then v else getIndex m k')"
  by (simp add: getIndex_def)

lemma getIndex_pushIndex [simp]:
  "getIndex (pushIndex m k v) k' = (if k' = k then getIndex m k @ [v] else getIndex m k')"
  by (simp add: pushIndex_def Let_def)

lemma fanOutEnrollments_fields [simp]:
  "courses (fanOutEnrollments lid es s) = courses s"
  "modules (fanOutEnrollments lid es s) = modules s"
  "lessons (fanOutEnrollments lid es s) = lessons s"
  "enrollments (fanOutEnrollments lid es s) = enrollments s"
  "lessonContent (fanOutEnrollments lid es s) = lessonContent s"
  "moduleIdsByCourse (fanOutEnrollments lid es s) = moduleIdsByCourse s"
  "lessonIdsByModule (fanOutEnrollments lid es s) = lessonIdsByModule s"
  "enrollmentIdsByCourse (fanOutEnrollments lid es s) = enrollmentIdsByCourse s"
  "enrollmentByCourseUser (fanOutEnrollments lid es s) = enrollmentByCourseUser s"
  by (induction lid es s rule: fanOutEnrollments.induct; simp add: Let_def)+

lemma fanOutLessons_fields [simp]:
  "courses (fanOutLessons eid ls s) = courses s"
  "modules (fanOutLessons eid ls s) = modules s"
  "lessons (fanOutLessons eid ls s) = lessons s"
  "enrollments (fanOutLessons eid ls s) = enrollments s"
  "lessonContent (fanOutLessons eid ls s) = lessonContent s"
  "moduleIdsByCourse (fanOutLessons eid ls s) = moduleIdsByCourse s"
  "lessonIdsByModule (fanOutLessons eid ls s) = lessonIdsByModule s"
  "enrollmentIdsByCourse (fanOutLessons eid ls s) = enrollmentIdsByCourse s"
  "enrollmentByCourseUser (fanOutLessons eid ls s) = enrollmentByCourseUser s"
  by (induction eid ls s rule: fanOutLessons.induct; simp add: Let_def)+

lemma fanOutEnrollments_progress:
  "map_get (progress (fanOutEnrollments lid es s)) k =
     (if \<exists>e\<in>set es. k = e @ '':'' @ lid
      then Some (newProgress (take (length k - length ('':'' @ lid)) k) lid)
      else map_get (progress s) k)"
  by (induction lid es s rule: fanOutEnrollments.induct) (auto simp: Let_def)

lemma fanOutLessons_progress:
  "map_get (progress (fanOutLessons eid ls s)) k =
     (if \<exists>L\<in>set ls. k = eid @ '':'' @ lesson_id L
      then Some (newProgress eid (drop (length (eid @ '':'')) k))
      else map_get (progress s) k)"
  by (induction eid ls s rule: fanOutLessons.induct) (auto simp: Let_def)


lemma map_has_iff: "map_has m k = (\<exists>v. map_get m k = Some v)"
  by (auto simp: map_has_def map_get_def)

lemma modules_indexedD:
  "modules_indexed s \<Longrightarrow> map_get (modules s) m = Some M \<Longrightarrow>
   module_id M = m \<and> map_has (courses s) (module_courseId M) \<and>
   m \<in> set (getIndex (moduleIdsByCourse s) (module_courseId M))"
  unfolding modules_indexed_def by blast

lemma lessons_indexedD:
  "lessons_indexed s \<Longrightarrow> map_get (lessons s) l = Some L \<Longrightarrow>
   lesson_id L = l \<and> map_has (modules s) (lesson_moduleId L) \<and>
   l \<in> set (getIndex (lessonIdsByModule s) (lesson_moduleId L))"
  unfolding lessons_indexed_def by blast

lemma enrollments_indexedD:
  "enrollments_indexed s \<Longrightarrow> map_get (enrollments s) e = Some E \<Longrightarrow>
   enrollment_id E = e \<and> map_has (courses s) (enrollment_courseId E) \<and>
   e \<in> set (getIndex (enrollmentIdsByCourse s) (enrollment_courseId E))"
  unfolding enrollments_indexed_def by blast

lemma progress_completeD:
  "progress_complete s \<Longrightarrow> map_get (enrollments s) e = Some E \<Longrightarrow>
   map_get (lessons s) l = Some L \<Longrightarrow> map_get (modules s) (lesson_moduleId L) = Some M \<Longrightarrow>
   module_courseId M = enrollment_courseId E \<Longrightarrow>
   map_has (progress s) (enrollment_id E @ '':'' @ lesson_id L)"
  unfolding progress_complete_def by blast

subsection \<open>Effects of the successful calls\<close>

lemma createCourse_returns:
  "\<not> isl (snd (createCourse now s cid ctitle cby)) \<Longrightarrow>
   \<not> map_has (courses s) cid \<and>
   fst (createCourse now s cid ctitle cby) =
     s\<lparr>courses := map_set (courses s) cid
                     \<lparr>course_id = cid, course_title = ctitle, course_createdBy = cby,
                      course_createdAt = now\<rparr>,
       moduleIdsByCourse := map_set (moduleIdsByCourse s) cid [],
       enrollmentIdsByCourse := map_set (enrollmentIdsByCourse s) cid []\<rparr>"
  by (simp add: createCourse_def Let_def split: if_splits)

lemma createModule_returns:
  "\<not> isl (snd (createModule s mid courseId mtitle position)) \<Longrightarrow>
   map_has (courses s) courseId \<and> \<not> map_has (modules s) mid \<and>
   fst (createModule s mid courseId mtitle position) =
     s\<lparr>modules := map_set (modules s) mid
                     \<lparr>module_id = mid, module_courseId = courseId, module_title = mtitle,
                      module_position = position\<rparr>,
       moduleIdsByCourse := pushIndex (moduleIdsByCourse s) courseId mid,
       lessonIdsByModule := map_set (lessonIdsByModule s) mid []\<rparr>"
  by (auto simp: createModule_def Let_def map_has_iff split: option.splits if_splits)

lemma createLesson_returns:
  "\<not> isl (snd (createLesson s lid moduleId ltitle position)) \<Longrightarrow>
   \<exists>moduleRow. map_get (modules s) moduleId = Some moduleRow \<and> \<not> map_has (lessons s) lid \<and>
   fst (createLesson s lid moduleId ltitle position) =
     fanOutEnrollments lid (getIndex (enrollmentIdsByCourse s) (module_courseId moduleRow))
       (s\<lparr>lessons := map_set (lessons s) lid
                        \<lparr>lesson_id = lid, lesson_moduleId = moduleId, lesson_title = ltitle,
                         lesson_position = position\<rparr>,
          lessonIdsByModule := pushIndex (lessonIdsByModule s) moduleId lid\<rparr>)"
  by (auto simp: createLesson_def Let_def map_has_iff split: option.splits if_splits)

lemma enrollStudent_returns:
  "\<not> isl (snd (enrollStudent now s eid courseId userId)) \<Longrightarrow>
   map_has (courses s) courseId \<and> \<not> map_has (enrollments s) eid \<and>
   fst (enrollStudent now s eid courseId userId) =
     fanOutLessons eid (getLessonsForCourse s courseId)
       (s\<lparr>enrollments := map_set (enrollments s) eid
                            \<lparr>enrollment_id = eid, enrollment_courseId = courseId,
                             enrollment_userId = userId, enrollment_role = ''Student'',
                             enrollment_enrolledAt = now\<rparr>,
          enrollmentByCourseUser :=
            map_set (enrollmentByCourseUser s) (courseId @ '':'' @ userId) eid,
          enrollmentIdsByCourse := pushIndex (enrollmentIdsByCourse s) courseId eid,
          progressIdsByEnrollment := map_set (progressIdsByEnrollment s) eid []\<rparr>)"
  by (auto simp: enrollStudent_def Let_def getLessonsForCourse_def split: if_splits)

lemma attachLessonContent_returns:
  "\<not> isl (snd (attachLessonContent now s lessonId provider key fileId contentType size')) \<Longrightarrow>
   fst (attachLessonContent now s lessonId provider key fileId contentType size') =
     s\<lparr>lessonContent := map_set (lessonContent s) lessonId
        \<lparr>content_lessonId = lessonId, content_provider = provider, content_key = key,
         content_fileId = fileId, content_contentType = contentType, content_size = size',
         content_updatedAt = now\<rparr>\<rparr>"
  by (auto simp: attachLessonContent_def Let_def split: if_splits)

lemma markLessonProgress_returns:
  "\<not> isl (snd (markLessonProgress now s enrollmentId lessonId actorUserId status)) \<Longrightarrow>
   \<exists>k row. map_get (progress s) k = Some row \<and>
     fst (markLessonProgress now s enrollmentId lessonId actorUserId status) =
       s\<lparr>progress := map_set (progress s) k
          (row\<lparr>progress_status := status,
               progress_completedAt := (if status = completed then Some now else None)\<rparr>)\<rparr>"
  by (auto simp: markLessonProgress_def Let_def split: option.splits if_splits)

subsection \<open>The store invariant is preserved\<close>

lemma createCourse_inv:
  assumes "store_inv s"
  shows "store_inv (fst (createCourse now s cid ctitle cby))"
proof (cases "isl (snd (createCourse now s cid ctitle cby))")
  case True
  then show ?thesis using assms by (simp add: createCourse_throws)
next
  case False
  from createCourse_returns [OF False]
  have fresh: "\<not> map_has (courses s) cid"
    and eq: "fst (createCourse now s cid ctitle cby) =
      s\<lparr>courses := map_set (courses s) cid
                     \<lparr>course_id = cid, course_title = ctitle, course_createdBy = cby,
                      course_createdAt = now\<rparr>,
       moduleIdsByCourse := map_set (moduleIdsByCourse s) cid [],
       enrollmentIdsByCourse := map_set (enrollmentIdsByCourse s) cid []\<rparr>"
    by simp_all
  from assms have mi: "modules_indexed s" and li: "lessons_indexed s"
    and ei: "enrollments_indexed s" and pc: "progress_complete s"
    by (simp_all add: store_inv_def)
  have "modules_indexed (fst (createCourse now s cid ctitle cby))"
    unfolding eq modules_indexed_def using fresh
    by (auto dest!: modules_indexedD [OF mi])
  moreover have "lessons_indexed (fst (createCourse now s cid ctitle cby))"
    unfolding eq lessons_indexed_def
    by (auto dest!: lessons_indexedD [OF li])
  moreover have "enrollments_indexed (fst (createCourse now s cid ctitle cby))"
    unfolding eq enrollments_indexed_def using fresh
    by (auto dest!: enrollments_indexedD [OF ei])
  moreover have "progress_complete (fst (createCourse now s cid ctitle cby))"
    unfolding eq progress_complete_def
    by (auto dest: progress_completeD [OF pc])
  ultimately show ?thesis by (simp add: store_inv_def)
qed


lemma createModule_inv:
  assumes "store_inv s"
  shows "store_inv (fst (createModule s mid courseId mtitle position))"
proof (cases "isl (snd (createModule s mid courseId mtitle position))")
  case True
  then show ?thesis using assms by (simp add: createModule_throws)
next
  case False
  from createModule_returns [OF False]
  have course: "map_has (courses s) courseId" and fresh: "\<not> map_has (modules s) mid"
    and eq: "fst (createModule s mid courseId mtitle position) =
      s\<lparr>modules := map_set (modules s) mid
                     \<lparr>module_id = mid, module_courseId = courseId, module_title = mtitle,
                      module_position = position\<rparr>,
       moduleIdsByCourse := pushIndex (moduleIdsByCourse s) courseId mid,
       lessonIdsByModule := map_set (lessonIdsByModule s) mid []\<rparr>"
    by simp_all
  from assms have mi: "modules_indexed s" and li: "lessons_indexed s"
    and ei: "enrollments_indexed s" and pc: "progress_complete s"
    by (simp_all add: store_inv_def)
  have "modules_indexed (fst (createModule s mid courseId mtitle position))"
    unfolding eq modules_indexed_def using course
    by (auto dest!: modules_indexedD [OF mi])
  moreover have "lessons_indexed (fst (createModule s mid courseId mtitle position))"
    unfolding eq lessons_indexed_def using fresh
    by (auto dest!: lessons_indexedD [OF li])
  moreover have "enrollments_indexed (fst (createModule s mid courseId mtitle position))"
    unfolding eq enrollments_indexed_def
    by (auto dest!: enrollments_indexedD [OF ei])
  moreover have "progress_complete (fst (createModule s mid courseId mtitle position))"
    unfolding eq progress_complete_def using fresh
    by (auto dest: progress_completeD [OF pc] lessons_indexedD [OF li] split: if_splits)
  ultimately show ?thesis by (simp add: store_inv_def)
qed

lemma store_inv_other_fields:
  assumes "store_inv s"
    and "modules s' = modules s" and "lessons s' = lessons s" and "courses s' = courses s"
    and "enrollments s' = enrollments s" and "moduleIdsByCourse s' = moduleIdsByCourse s"
    and "lessonIdsByModule s' = lessonIdsByModule s"
    and "enrollmentIdsByCourse s' = enrollmentIdsByCourse s"
    and "\<And>k. map_has (progress s) k \<Longrightarrow> map_has (progress s') k"
  shows "store_inv s'"
proof -
  from assms(1) have mi: "modules_indexed s" and li: "lessons_indexed s"
    and ei: "enrollments_indexed s" and pc: "progress_complete s"
    by (simp_all add: store_inv_def)
  have "modules_indexed s'"
    unfolding modules_indexed_def using assms(2-8)
    by (auto dest!: modules_indexedD [OF mi])
  moreover have "lessons_indexed s'"
    unfolding lessons_indexed_def using assms(2-8)
    by (auto dest!: lessons_indexedD [OF li])
  moreover have "enrollments_indexed s'"
    unfolding enrollments_indexed_def using assms(2-8)
    by (auto dest!: enrollments_indexedD [OF ei])
  moreover have "progress_complete s'"
    unfolding progress_complete_def using assms(2-8)
    by (auto intro!: assms(9) dest: progress_completeD [OF pc])
  ultimately show ?thesis by (simp add: store_inv_def)
qed

lemma attachLessonContent_inv:
  assumes "store_inv s"
  shows "store_inv (fst (attachLessonContent now s lessonId provider key fileId contentType size'))"
proof (cases "isl (snd (attachLessonContent now s lessonId provider key fileId contentType size'))")
  case True
  then show ?thesis using assms by (simp add: attachLessonContent_throws)
next
  case False
  show ?thesis
    unfolding attachLessonContent_returns [OF False]
    by (rule store_inv_other_fields [OF assms]) simp_all
qed

lemma markLessonProgress_inv:
  assumes "store_inv s"
  shows "store_inv (fst (markLessonProgress now s enrollmentId lessonId actorUserId status))"
proof (cases "isl (snd (markLessonProgress now s enrollmentId lessonId actorUserId status))")
  case True
  then show ?thesis using assms by (simp add: markLessonProgress_throws)
next
  case False
  from markLessonProgress_returns [OF False] obtain k row' where
    eq: "fst (markLessonProgress now s enrollmentId lessonId actorUserId status) =
           s\<lparr>progress := map_set (progress s) k row'\<rparr>"
    by blast
  show ?thesis
    unfolding eq by (rule store_inv_other_fields [OF assms]) simp_all
qed

lemma fanOutEnrollments_has:
  "map_has (progress (fanOutEnrollments lid es s)) k =
     (map_has (progress s) k \<or> (\<exists>e\<in>set es. k = e @ '':'' @ lid))"
  by (auto simp: map_has_iff fanOutEnrollments_progress)

lemma fanOutLessons_has:
  "map_has (progress (fanOutLessons eid ls s)) k =
     (map_has (progress s) k \<or> (\<exists>L\<in>set ls. k = eid @ '':'' @ lesson_id L))"
  by (auto simp: map_has_iff fanOutLessons_progress)

lemma getLessonsForCourse_member:
  "map_get (lessons s) l = Some L \<Longrightarrow> l \<in> set (getIndex (lessonIdsByModule s) m) \<Longrightarrow>
   m \<in> set (getIndex (moduleIdsByCourse s) c) \<Longrightarrow> L \<in> set (getLessonsForCourse s c)"
  by (auto simp: getLessonsForCourse_def Let_def List.map_filter_def intro!: image_eqI [where x = l])

lemma createLesson_inv:
  assumes "store_inv s"
  shows "store_inv (fst (createLesson s lid moduleId ltitle position))"
proof (cases "isl (snd (createLesson s lid moduleId ltitle position))")
  case True
  then show ?thesis using assms by (simp add: createLesson_throws)
next
  case False
  from createLesson_returns [OF False] obtain moduleRow where
    mrow: "map_get (modules s) moduleId = Some moduleRow" and fresh: "\<not> map_has (lessons s) lid"
    and eq: "fst (createLesson s lid moduleId ltitle position) =
      fanOutEnrollments lid (getIndex (enrollmentIdsByCourse s) (module_courseId moduleRow))
       (s\<lparr>lessons := map_set (lessons s) lid
                        \<lparr>lesson_id = lid, lesson_moduleId = moduleId, lesson_title = ltitle,
                         lesson_position = position\<rparr>,
          lessonIdsByModule := pushIndex (lessonIdsByModule s) moduleId lid\<rparr>)"
    by blast
  from assms have mi: "modules_indexed s" and li: "lessons_indexed s"
    and ei: "enrollments_indexed s" and pc: "progress_complete s"
    by (simp_all add: store_inv_def)
  have "modules_indexed (fst (createLesson s lid moduleId ltitle position))"
    unfolding eq modules_indexed_def
    by (auto dest!: modules_indexedD [OF mi])
  moreover have "lessons_indexed (fst (createLesson s lid moduleId ltitle position))"
    unfolding eq lessons_indexed_def using mrow
    by (auto simp: map_has_iff dest!: lessons_indexedD [OF li])
  moreover have "enrollments_indexed (fst (createLesson s lid moduleId ltitle position))"
    unfolding eq enrollments_indexed_def
    by (auto dest!: enrollments_indexedD [OF ei])
  moreover have "progress_complete (fst (createLesson s lid moduleId ltitle position))"
    unfolding eq progress_complete_def using mrow
    by (auto simp: fanOutEnrollments_has dest: progress_completeD [OF pc]
        enrollments_indexedD [OF ei] split: if_splits)
  ultimately show ?thesis by (simp add: store_inv_def)
qed

lemma enrollStudent_inv:
  assumes "store_inv s"
  shows "store_inv (fst (enrollStudent now s eid courseId userId))"
proof (cases "isl (snd (enrollStudent now s eid courseId userId))")
  case True
  then show ?thesis using assms by (simp add: enrollStudent_throws)
next
  case False
  from enrollStudent_returns [OF False]
  have course: "map_has (courses s) courseId" and fresh: "\<not> map_has (enrollments s) eid"
    and eq: "fst (enrollStudent now s eid courseId userId) =
     fanOutLessons eid (getLessonsForCourse s courseId)
       (s\<lparr>enrollments := map_set (enrollments s) eid
                            \<lparr>enrollment_id = eid, enrollment_courseId = courseId,
                             enrollment_userId = userId, enrollment_role = ''Student'',
                             enrollment_enrolledAt = now\<rparr>,
          enrollmentByCourseUser :=
            map_set (enrollmentByCourseUser s) (courseId @ '':'' @ userId) eid,
          enrollmentIdsByCourse := pushIndex (enrollmentIdsByCourse s) courseId eid,
          progressIdsByEnrollment := map_set (progressIdsByEnrollment s) eid []\<rparr>)"
    by simp_all
  from assms have mi: "modules_indexed s" and li: "lessons_indexed s"
    and ei: "enrollments_indexed s" and pc: "progress_complete s"
    by (simp_all add: store_inv_def)
  have "modules_indexed (fst (enrollStudent now s eid courseId userId))"
    unfolding eq modules_indexed_def
    by (auto dest!: modules_indexedD [OF mi])
  moreover have "lessons_indexed (fst (enrollStudent now s eid courseId userId))"
    unfolding eq lessons_indexed_def
    by (auto dest!: lessons_indexedD [OF li])
  moreover have "enrollments_indexed (fst (enrollStudent now s eid courseId userId))"
    unfolding eq enrollments_indexed_def using course
    by (auto dest!: enrollments_indexedD [OF ei])
  moreover have "progress_complete (fst (enrollStudent now s eid courseId userId))"
    unfolding progress_complete_def
  proof (intro allI impI, elim conjE)
    fix e E l L M
    let ?s' = "fst (enrollStudent now s eid courseId userId)"
    assume E: "map_get (enrollments ?s') e = Some E" and L: "map_get (lessons ?s') l = Some L"
      and M: "map_get (modules ?s') (lesson_moduleId L) = Some M"
      and c: "module_courseId M = enrollment_courseId E"
    from L M have L0: "map_get (lessons s) l = Some L"
      and M0: "map_get (modules s) (lesson_moduleId L) = Some M"
      by (simp_all add: eq)
    show "map_has (progress ?s') (enrollment_id E @ '':'' @ lesson_id L)"
    proof (cases "e = eid")
      case True
      with E have Eeq: "enrollment_id E = eid" "enrollment_courseId E = courseId"
        by (auto simp: eq)
      from lessons_indexedD [OF li L0] modules_indexedD [OF mi M0] c Eeq
      have "L \<in> set (getLessonsForCourse s courseId)"
        by (auto intro: getLessonsForCourse_member [OF L0])
      then show ?thesis
        unfolding eq fanOutLessons_has Eeq by blast
    next
      case False
      with E have "map_get (enrollments s) e = Some E" by (simp add: eq)
      from progress_completeD [OF pc this L0 M0 c] show ?thesis
        unfolding eq fanOutLessons_has by simp
    qed
  qed
  ultimately show ?thesis by (simp add: store_inv_def)
qed

subsection \<open>Reachable stores\<close>

lemma store_inv_newStore: "store_inv newStore"
  by (simp add: store_inv_def modules_indexed_def lessons_indexed_def enrollments_indexed_def
      progress_complete_def newStore_def map_get_def)

lemma apply_op_inv: "store_inv s \<Longrightarrow> store_inv (apply_op now op s)"
  by (cases op)
    (simp_all add: createCourse_inv createModule_inv createLesson_inv enrollStudent_inv
      attachLessonContent_inv markLessonProgress_inv)

lemma reachable_store_inv: "reachable s \<Longrightarrow> store_inv s"
  by (induction rule: reachable.induct) (simp_all add: store_inv_newStore apply_op_inv)

lemma reachable_run_ops: "reachable s \<Longrightarrow> reachable (run_ops now ops s)"
  by (induction ops arbitrary: s) (simp_all add: reachable_op)

lemma newProgress_consistent: "completedAt_consistent (newProgress e l)"
  by (simp add: completedAt_consistent_def newProgress_def)

lemma fanOutEnrollments_consistent:
  "progress_consistent s \<Longrightarrow> progress_consistent (fanOutEnrollments lid es s)"
  by (auto simp: progress_consistent_def fanOutEnrollments_progress newProgress_consistent
      split: if_splits)

lemma fanOutLessons_consistent:
  "progress_consistent s \<Longrightarrow> progress_consistent (fanOutLessons eid ls s)"
  by (auto simp: progress_consistent_def fanOutLessons_progress newProgress_consistent
      split: if_splits)

lemma progress_consistent_same:
  "progress_consistent s \<Longrightarrow> progress s' = progress s \<Longrightarrow> progress_consistent s'"
  by (simp add: progress_consistent_def)

lemma progress_consistent_map_set:
  "progress_consistent s \<Longrightarrow> completedAt_consistent row \<Longrightarrow>
   progress_consistent (s\<lparr>progress := map_set (progress s) k row\<rparr>)"
  by (auto simp: progress_consistent_def split: if_splits)

lemma apply_op_consistent:
  assumes "progress_consistent s"
  shows "progress_consistent (apply_op now op s)"
proof (cases op)
  case (CreateCourse cid ctitle cby)
  show ?thesis
  proof (cases "isl (snd (createCourse now s cid ctitle cby))")
    case True
    then show ?thesis using assms CreateCourse by (simp add: createCourse_throws)
  next
    case False
    from createCourse_returns [OF False] show ?thesis
      using CreateCourse by (auto intro: progress_consistent_same [OF assms])
  qed
next
  case (CreateModule mid courseId mtitle position)
  show ?thesis
  proof (cases "isl (snd (createModule s mid courseId mtitle position))")
    case True
    then show ?thesis using assms CreateModule by (simp add: createModule_throws)
  next
    case False
    from createModule_returns [OF False] show ?thesis
      using CreateModule by (auto intro: progress_consistent_same [OF assms])
  qed
next
  case (CreateLesson lid moduleId ltitle position)
  show ?thesis
  proof (cases "isl (snd (createLesson s lid moduleId ltitle position))")
    case True
    then show ?thesis using assms CreateLesson by (simp add: createLesson_throws)
  next
    case False
    from createLesson_returns [OF False] show ?thesis
      using CreateLesson assms
      by (auto simp: progress_consistent_def fanOutEnrollments_progress newProgress_consistent
          split: if_splits)
  qed
next
  case (EnrollStudent eid courseId userId)
  show ?thesis
  proof (cases "isl (snd (enrollStudent now s eid courseId userId))")
    case True
    then show ?thesis using assms EnrollStudent by (simp add: enrollStudent_throws)
  next
    case False
    from enrollStudent_returns [OF False] show ?thesis
      using EnrollStudent assms
      by (auto simp: progress_consistent_def fanOutLessons_progress newProgress_consistent
          split: if_splits)
  qed
next
  case (AttachLessonContent lessonId provider key fileId contentType size')
  show ?thesis
  proof (cases "isl (snd (attachLessonContent now s lessonId provider key fileId contentType
                            size'))")
    case True
    then show ?thesis using assms AttachLessonContent by (simp add: attachLessonContent_throws)
  next
    case False
    from attachLessonContent_returns [OF False] show ?thesis
      using AttachLessonContent by (auto intro: progress_consistent_same [OF assms])
  qed
next
  case (MarkLessonProgress enrollmentId lessonId actorUserId status)
  show ?thesis
  proof (cases "isl (snd (markLessonProgress now s enrollmentId lessonId actorUserId status))")
    case True
    then show ?thesis using assms MarkLessonProgress by (simp add: markLessonProgress_throws)
  next
    case False
    from markLessonProgress_returns [OF False] show ?thesis
      using MarkLessonProgress
      by (auto intro!: progress_consistent_map_set [OF assms] simp: completedAt_consistent_def)
  qed
qed

lemma newStore_consistent: "progress_consistent newStore"
  by (simp add: progress_consistent_def newStore_def map_get_def)

lemma reachable_consistent: "reachable s \<Longrightarrow> progress_consistent s"
  by (induction rule: reachable.induct) (simp_all add: apply_op_consistent newStore_consistent)

lemma markLessonProgress_accepts:
  "map_get (enrollments s) e = Some E \<Longrightarrow> enrollment_userId E = a \<Longrightarrow>
   map_get (lessons s) l = Some L \<Longrightarrow> map_get (modules s) (lesson_moduleId L) = Some M \<Longrightarrow>
   module_courseId M = enrollment_courseId E \<Longrightarrow>
   map_get (progress s) (enrollment_id E @ '':'' @ lesson_id L) = Some row \<Longrightarrow>
   markLessonProgress now s e l a st =
     (s\<lparr>progress := map_set (progress s) (enrollment_id E @ '':'' @ lesson_id L)
          (row\<lparr>progress_status := st,
               progress_completedAt := (if st = completed then Some now else None)\<rparr>)\<rparr>,
      Inr (row\<lparr>progress_status := st,
               progress_completedAt := (if st = completed then Some now else None)\<rparr>))"
  by (simp add: markLessonProgress_def Let_def)

lemma markLessonProgress_result:
  "snd (markLessonProgress now s e l a st) = Inr row' \<Longrightarrow>
   progress_status row' = st \<and>
   progress_completedAt row' = (if st = completed then Some now else None) \<and>
   (\<exists>k. map_get (progress (fst (markLessonProgress now s e l a st))) k = Some row')"
  by (auto simp: markLessonProgress_def Let_def split: option.splits if_splits)

lemma markLessonProgress_row_exists:
  assumes "store_inv s"
  shows "snd (markLessonProgress now s e l a st) \<noteq>
           Inl (LmsModelError INVALID_RELATION ''missing progress row for enrollment/lesson'')"
proof -
  from assms have pc: "progress_complete s" by (simp add: store_inv_def)
  show ?thesis
    by (auto simp: markLessonProgress_def Let_def map_has_iff
        dest: progress_completeD [OF pc] split: option.splits if_splits)
qed

lemma createLesson_fans_out:
  assumes "store_inv s"
    and "snd (createLesson s lid moduleId ltitle position) = Inr lesson"
    and "map_get (modules s) moduleId = Some moduleRow"
    and "map_get (enrollments s) e = Some E"
    and "enrollment_courseId E = module_courseId moduleRow"
  shows "map_get (progress (fst (createLesson s lid moduleId ltitle position))) (e @ '':'' @ lid)
           = Some (newProgress e lid)"
proof -
  from assms(1) have ei: "enrollments_indexed s" by (simp add: store_inv_def)
  from assms(2) have "\<not> isl (snd (createLesson s lid moduleId ltitle position))" by simp
  from createLesson_returns [OF this] assms(3) enrollments_indexedD [OF ei assms(4)] assms(5)
  show ?thesis
    by (auto simp: fanOutEnrollments_progress)
qed

lemma enrollStudent_fans_out:
  assumes "store_inv s"
    and "snd (enrollStudent now s eid courseId userId) = Inr enrollment"
    and "map_get (lessons s) l = Some L"
    and "map_get (modules s) (lesson_moduleId L) = Some M"
    and "module_courseId M = courseId"
  shows "map_get (progress (fst (enrollStudent now s eid courseId userId))) (eid @ '':'' @ l)
           = Some (newProgress eid l)"
proof -
  from assms(1) have mi: "modules_indexed s" and li: "lessons_indexed s"
    by (simp_all add: store_inv_def)
  from lessons_indexedD [OF li assms(3)] modules_indexedD [OF mi assms(4)] assms(5)
  have "L \<in> set (getLessonsForCourse s courseId)" and "lesson_id L = l"
    by (auto intro: getLessonsForCourse_member [OF assms(3)])
  moreover from assms(2) have "\<not> isl (snd (enrollStudent now s eid courseId userId))" by simp
  note enrollStudent_returns [OF this]
  ultimately show ?thesis
    by (auto simp: fanOutLessons_progress)
qed

lemma courseStore_matches_calls:
  "run_ops ''t0'' (courseCalls 3 2) newStore = courseStore ''t0'' 3 2"
  by code_simp

lemma courseStore_reachable: "reachable (courseStore ''t0'' 3 2)"
  using reachable_run_ops [OF reachable_new, of "''t0''" "courseCalls 3 2"]
  by (simp add: courseStore_matches_calls)

subsection \<open>Exact indices and exact fan-out\<close>

lemma module_index_exactD:
  "module_index_exact s \<Longrightarrow> m \<in> set (getIndex (moduleIdsByCourse s) c) \<Longrightarrow>
   \<exists>M. map_get (modules s) m = Some M \<and> module_courseId M = c"
  unfolding module_index_exact_def by blast

lemma lesson_index_exactD:
  "lesson_index_exact s \<Longrightarrow> l \<in> set (getIndex (lessonIdsByModule s) m) \<Longrightarrow>
   \<exists>L. map_get (lessons s) l = Some L \<and> lesson_moduleId L = m"
  unfolding lesson_index_exact_def by blast

lemma enrollment_index_exactD:
  "enrollment_index_exact s \<Longrightarrow> e \<in> set (getIndex (enrollmentIdsByCourse s) c) \<Longrightarrow>
   \<exists>E. map_get (enrollments s) e = Some E \<and> enrollment_courseId E = c"
  unfolding enrollment_index_exact_def by blast

lemma indexes_exact_other_fields:
  assumes "indexes_exact s"
    and "modules s' = modules s" and "lessons s' = lessons s" and "enrollments s' = enrollments s"
    and "moduleIdsByCourse s' = moduleIdsByCourse s"
    and "lessonIdsByModule s' = lessonIdsByModule s"
    and "enrollmentIdsByCourse s' = enrollmentIdsByCourse s"
  shows "indexes_exact s'"
  using assms
  by (simp add: indexes_exact_def module_index_exact_def lesson_index_exact_def
      enrollment_index_exact_def)

lemma indexes_exact_newStore: "indexes_exact newStore"
  by (simp add: indexes_exact_def module_index_exact_def lesson_index_exact_def
      enrollment_index_exact_def newStore_def getIndex_def map_get_def)

lemma createCourse_exact:
  assumes "indexes_exact s"
  shows "indexes_exact (fst (createCourse now s cid ctitle cby))"
proof (cases "isl (snd (createCourse now s cid ctitle cby))")
  case True
  then show ?thesis using assms by (simp add: createCourse_throws)
next
  case False
  from createCourse_returns [OF False] assms show ?thesis
    by (simp add: indexes_exact_def module_index_exact_def lesson_index_exact_def
        enrollment_index_exact_def)
qed

lemma createModule_exact:
  assumes "indexes_exact s"
  shows "indexes_exact (fst (createModule s mid courseId mtitle position))"
proof (cases "isl (snd (createModule s mid courseId mtitle position))")
  case True
  then show ?thesis using assms by (simp add: createModule_throws)
next
  case False
  from assms have m: "module_index_exact s" and l: "lesson_index_exact s"
    and e: "enrollment_index_exact s"
    by (simp_all add: indexes_exact_def)
  from createModule_returns [OF False] have
    fresh: "\<not> map_has (modules s) mid" and
    eq: "fst (createModule s mid courseId mtitle position) =
     s\<lparr>modules := map_set (modules s) mid
                     \<lparr>module_id = mid, module_courseId = courseId, module_title = mtitle,
                      module_position = position\<rparr>,
       moduleIdsByCourse := pushIndex (moduleIdsByCourse s) courseId mid,
       lessonIdsByModule := map_set (lessonIdsByModule s) mid []\<rparr>"
    by simp_all
  have notin: "mid \<notin> set (getIndex (moduleIdsByCourse s) c)" for c
    using module_index_exactD [OF m, of mid c] fresh by (auto simp: map_has_iff)
  have m': "module_index_exact (fst (createModule s mid courseId mtitle position))"
    unfolding eq module_index_exact_def
    using m notin by (auto simp: module_index_exact_def)
  have l': "lesson_index_exact (fst (createModule s mid courseId mtitle position))"
    unfolding eq lesson_index_exact_def
    using l by (auto simp: lesson_index_exact_def)
  have e': "enrollment_index_exact (fst (createModule s mid courseId mtitle position))"
    unfolding eq enrollment_index_exact_def
    using e by (auto simp: enrollment_index_exact_def)
  from m' l' e' show ?thesis by (simp add: indexes_exact_def)
qed

lemma createLesson_exact:
  assumes "indexes_exact s"
  shows "indexes_exact (fst (createLesson s lid moduleId ltitle position))"
proof (cases "isl (snd (createLesson s lid moduleId ltitle position))")
  case True
  then show ?thesis using assms by (simp add: createLesson_throws)
next
  case False
  from assms have m: "module_index_exact s" and l: "lesson_index_exact s"
    and e: "enrollment_index_exact s"
    by (simp_all add: indexes_exact_def)
  from createLesson_returns [OF False] obtain moduleRow where
    mr: "map_get (modules s) moduleId = Some moduleRow" and
    fresh: "\<not> map_has (lessons s) lid" and
    eq: "fst (createLesson s lid moduleId ltitle position) =
     fanOutEnrollments lid (getIndex (enrollmentIdsByCourse s) (module_courseId moduleRow))
       (s\<lparr>lessons := map_set (lessons s) lid
                        \<lparr>lesson_id = lid, lesson_moduleId = moduleId, lesson_title = ltitle,
                         lesson_position = position\<rparr>,
          lessonIdsByModule := pushIndex (lessonIdsByModule s) moduleId lid\<rparr>)"
    by (elim exE conjE)
  have notin: "lid \<notin> set (getIndex (lessonIdsByModule s) m')" for m'
    using lesson_index_exactD [OF l, of lid m'] fresh by (auto simp: map_has_iff)
  have m': "module_index_exact (fst (createLesson s lid moduleId ltitle position))"
    unfolding eq module_index_exact_def
    using m by (auto simp: module_index_exact_def)
  have l': "lesson_index_exact (fst (createLesson s lid moduleId ltitle position))"
    unfolding eq lesson_index_exact_def
    using l notin by (auto simp: lesson_index_exact_def)
  have e': "enrollment_index_exact (fst (createLesson s lid moduleId ltitle position))"
    unfolding eq enrollment_index_exact_def
    using e by (auto simp: enrollment_index_exact_def)
  from m' l' e' show ?thesis by (simp add: indexes_exact_def)
qed

lemma enrollStudent_exact:
  assumes "indexes_exact s"
  shows "indexes_exact (fst (enrollStudent now s eid courseId userId))"
proof (cases "isl (snd (enrollStudent now s eid courseId userId))")
  case True
  then show ?thesis using assms by (simp add: enrollStudent_throws)
next
  case False
  from assms have m: "module_index_exact s" and l: "lesson_index_exact s"
    and e: "enrollment_index_exact s"
    by (simp_all add: indexes_exact_def)
  from enrollStudent_returns [OF False] have
    fresh: "\<not> map_has (enrollments s) eid" and
    eq: "fst (enrollStudent now s eid courseId userId) =
     fanOutLessons eid (getLessonsForCourse s courseId)
       (s\<lparr>enrollments := map_set (enrollments s) eid
                            \<lparr>enrollment_id = eid, enrollment_courseId = courseId,
                             enrollment_userId = userId, enrollment_role = ''Student'',
                             enrollment_enrolledAt = now\<rparr>,
          enrollmentByCourseUser :=
            map_set (enrollmentByCourseUser s) (courseId @ '':'' @ userId) eid,
          enrollmentIdsByCourse := pushIndex (enrollmentIdsByCourse s) courseId eid,
          progressIdsByEnrollment := map_set (progressIdsByEnrollment s) eid []\<rparr>)"
    by simp_all
  have notin: "eid \<notin> set (getIndex (enrollmentIdsByCourse s) c)" for c
    using enrollment_index_exactD [OF e, of eid c] fresh by (auto simp: map_has_iff)
  have m': "module_index_exact (fst (enrollStudent now s eid courseId userId))"
    unfolding eq module_index_exact_def
    using m by (auto simp: module_index_exact_def)
  have l': "lesson_index_exact (fst (enrollStudent now s eid courseId userId))"
    unfolding eq lesson_index_exact_def
    using l by (auto simp: lesson_index_exact_def)
  have e': "enrollment_index_exact (fst (enrollStudent now s eid courseId userId))"
    unfolding eq enrollment_index_exact_def
    using e notin by (auto simp: enrollment_index_exact_def)
  from m' l' e' show ?thesis by (simp add: indexes_exact_def)
qed

lemma attachLessonContent_exact:
  assumes "indexes_exact s"
  shows "indexes_exact
           (fst (attachLessonContent now s lessonId provider key fileId contentType size'))"
proof (cases "isl (snd (attachLessonContent now s lessonId provider key fileId contentType
                          size'))")
  case True
  then show ?thesis using assms by (simp add: attachLessonContent_throws)
next
  case False
  show ?thesis
    by (rule indexes_exact_other_fields [OF assms])
      (simp_all add: attachLessonContent_returns [OF False])
qed

lemma markLessonProgress_exact:
  assumes "indexes_exact s"
  shows "indexes_exact (fst (markLessonProgress now s e l a st))"
proof (cases "isl (snd (markLessonProgress now s e l a st))")
  case True
  then show ?thesis using assms by (simp add: markLessonProgress_throws)
next
  case False
  from markLessonProgress_returns [OF False] obtain k row where
    eq: "fst (markLessonProgress now s e l a st) =
       s\<lparr>progress := map_set (progress s) k
          (row\<lparr>progress_status := st,
               progress_completedAt := (if st = completed then Some now else None)\<rparr>)\<rparr>"
    by blast
  show ?thesis
    by (rule indexes_exact_other_fields [OF assms]) (simp_all add: eq)
qed

lemma apply_op_exact: "indexes_exact s \<Longrightarrow> indexes_exact (apply_op now op s)"
  by (cases op)
    (simp_all add: createCourse_exact createModule_exact createLesson_exact enrollStudent_exact
      attachLessonContent_exact markLessonProgress_exact)

lemma reachable_indexes_exact: "reachable s \<Longrightarrow> indexes_exact s"
  by (induction rule: reachable.induct) (simp_all add: indexes_exact_newStore apply_op_exact)

lemma fanOutEnrollments_index:
  "distinct es \<Longrightarrow>
   getIndex (progressIdsByEnrollment (fanOutEnrollments lid es s)) e =
     getIndex (progressIdsByEnrollment s) e @ (if e \<in> set es then [e @ '':'' @ lid] else [])"
  by (induction lid es s rule: fanOutEnrollments.induct) (auto simp: Let_def)

lemma fanOutLessons_index:
  "getIndex (progressIdsByEnrollment (fanOutLessons eid ls s)) e =
     (if e = eid
      then getIndex (progressIdsByEnrollment s) eid @ map (\<lambda>L. eid @ '':'' @ lesson_id L) ls
      else getIndex (progressIdsByEnrollment s) e)"
  by (induction eid ls s rule: fanOutLessons.induct) (auto simp: Let_def)

lemma distinct_concat_map:
  "distinct ms \<Longrightarrow> (\<And>m. m \<in> set ms \<Longrightarrow> distinct (f m)) \<Longrightarrow>
   (\<And>m m'. m \<in> set ms \<Longrightarrow> m' \<in> set ms \<Longrightarrow> m \<noteq> m' \<Longrightarrow> set (f m) \<inter> set (f m') = {}) \<Longrightarrow>
   distinct (concat (map f ms))"
proof (induction ms)
  case Nil
  then show ?case by simp
next
  case (Cons a ms)
  have "distinct (concat (map f ms))"
    by (rule Cons.IH) (use Cons.prems in auto)
  moreover have "distinct (f a)" using Cons.prems(2) by simp
  moreover have "set (f a) \<inter> set (f m) = {}" if "m \<in> set ms" for m
    using Cons.prems(1) Cons.prems(3) [of a m] that by auto
  ultimately show ?case by auto
qed

lemma map_filter_ids:
  "(\<And>l. l \<in> set ids \<Longrightarrow> \<exists>L. f l = Some L \<and> g L = l) \<Longrightarrow>
   map g (List.map_filter f ids) = ids"
proof (induction ids)
  case Nil
  then show ?case by (simp add: List.map_filter_def)
next
  case (Cons a ids)
  from Cons.prems [of a] obtain L where "f a = Some L" "g L = a" by auto
  moreover have "map g (List.map_filter f ids) = ids"
    by (rule Cons.IH) (use Cons.prems in auto)
  ultimately show ?case by (simp add: List.map_filter_def)
qed

lemma getLessonsForCourse_ids:
  assumes "lessons_indexed s" and "module_index_exact s" and "lesson_index_exact s"
  shows "map lesson_id (getLessonsForCourse s c) =
           concat (map (\<lambda>moduleId. getIndex (lessonIdsByModule s) moduleId)
                     (getIndex (moduleIdsByCourse s) c))"
  unfolding getLessonsForCourse_def Let_def
proof (rule map_filter_ids)
  fix l
  assume "l \<in> set (concat (map (\<lambda>moduleId. getIndex (lessonIdsByModule s) moduleId)
                             (getIndex (moduleIdsByCourse s) c)))"
  then obtain m where "l \<in> set (getIndex (lessonIdsByModule s) m)" by auto
  from lesson_index_exactD [OF assms(3) this] obtain L where
    L: "map_get (lessons s) l = Some L" by blast
  from lessons_indexedD [OF assms(1) L] L
  show "\<exists>L. map_get (lessons s) l = Some L \<and> lesson_id L = l" by simp
qed

lemma getLessonsForCourse_distinct:
  assumes "lessons_indexed s" and "module_index_exact s" and "lesson_index_exact s"
  shows "distinct (map lesson_id (getLessonsForCourse s c))"
  unfolding getLessonsForCourse_ids [OF assms]
proof (rule distinct_concat_map)
  show "distinct (getIndex (moduleIdsByCourse s) c)"
    using assms(2) by (simp add: module_index_exact_def)
next
  fix m :: string
  show "distinct (getIndex (lessonIdsByModule s) m)"
    using assms(3) by (simp add: lesson_index_exact_def)
next
  fix m m' :: string
  assume "m \<noteq> m'"
  show "set (getIndex (lessonIdsByModule s) m) \<inter> set (getIndex (lessonIdsByModule s) m') = {}"
  proof (rule ccontr)
    assume "set (getIndex (lessonIdsByModule s) m) \<inter> set (getIndex (lessonIdsByModule s) m')
              \<noteq> {}"
    then obtain l where a: "l \<in> set (getIndex (lessonIdsByModule s) m)"
      and b: "l \<in> set (getIndex (lessonIdsByModule s) m')" by auto
    from lesson_index_exactD [OF assms(3) a] lesson_index_exactD [OF assms(3) b]
    have "m = m'" by auto
    with \<open>m \<noteq> m'\<close> show False by simp
  qed
qed

lemma getLessonsForCourse_set:
  assumes "store_inv s" and "indexes_exact s"
  shows "set (getLessonsForCourse s c) =
           {L. \<exists>l M. map_get (lessons s) l = Some L \<and>
                      map_get (modules s) (lesson_moduleId L) = Some M \<and> module_courseId M = c}"
proof (intro set_eqI iffI)
  fix L
  assume "L \<in> set (getLessonsForCourse s c)"
  then obtain l m where l: "map_get (lessons s) l = Some L"
    and lm: "l \<in> set (getIndex (lessonIdsByModule s) m)"
    and mc: "m \<in> set (getIndex (moduleIdsByCourse s) c)"
    by (auto simp: getLessonsForCourse_def Let_def List.map_filter_def)
  from assms(2) have me: "module_index_exact s" and le: "lesson_index_exact s"
    by (simp_all add: indexes_exact_def)
  from lesson_index_exactD [OF le lm] l have "lesson_moduleId L = m" by auto
  moreover from module_index_exactD [OF me mc] obtain M where
    "map_get (modules s) m = Some M" "module_courseId M = c" by blast
  ultimately show "L \<in> {L. \<exists>l M. map_get (lessons s) l = Some L \<and>
                      map_get (modules s) (lesson_moduleId L) = Some M \<and> module_courseId M = c}"
    using l by auto
next
  fix L
  assume "L \<in> {L. \<exists>l M. map_get (lessons s) l = Some L \<and>
                      map_get (modules s) (lesson_moduleId L) = Some M \<and> module_courseId M = c}"
  then obtain l M where l: "map_get (lessons s) l = Some L"
    and m: "map_get (modules s) (lesson_moduleId L) = Some M" and c: "module_courseId M = c"
    by blast
  from assms(1) have mi: "modules_indexed s" and li: "lessons_indexed s"
    by (simp_all add: store_inv_def)
  from lessons_indexedD [OF li l] modules_indexedD [OF mi m] c
  show "L \<in> set (getLessonsForCourse s c)"
    by (auto intro: getLessonsForCourse_member [OF l])
qed

lemma enrollmentIds_set:
  assumes "store_inv s" and "indexes_exact s"
  shows "set (getIndex (enrollmentIdsByCourse s) c) =
           {e. \<exists>E. map_get (enrollments s) e = Some E \<and> enrollment_courseId E = c}"
proof (intro set_eqI iffI)
  fix e
  assume "e \<in> set (getIndex (enrollmentIdsByCourse s) c)"
  with assms(2) show "e \<in> {e. \<exists>E. map_get (enrollments s) e = Some E \<and>
                                   enrollment_courseId E = c}"
    by (auto simp: indexes_exact_def dest: enrollment_index_exactD)
next
  fix e
  assume "e \<in> {e. \<exists>E. map_get (enrollments s) e = Some E \<and> enrollment_courseId E = c}"
  then obtain E where E: "map_get (enrollments s) e = Some E" "enrollment_courseId E = c"
    by blast
  from assms(1) have "enrollments_indexed s" by (simp add: store_inv_def)
  from enrollments_indexedD [OF this E(1)] E(2)
  show "e \<in> set (getIndex (enrollmentIdsByCourse s) c)" by simp
qed

lemma createLesson_fans_out_exactly:
  assumes "store_inv s" and "indexes_exact s"
    and "snd (createLesson s lid moduleId ltitle position) = Inr lesson"
    and "map_get (modules s) moduleId = Some moduleRow"
  shows "distinct (getIndex (enrollmentIdsByCourse s) (module_courseId moduleRow))"
    and "set (getIndex (enrollmentIdsByCourse s) (module_courseId moduleRow)) =
           {e. \<exists>E. map_get (enrollments s) e = Some E \<and>
                    enrollment_courseId E = module_courseId moduleRow}"
    and "\<forall>e\<in>set (getIndex (enrollmentIdsByCourse s) (module_courseId moduleRow)).
           map_get (progress (fst (createLesson s lid moduleId ltitle position)))
             (e @ '':'' @ lid) = Some (newProgress e lid)"
    and "\<forall>k. k \<notin> (\<lambda>e. e @ '':'' @ lid) `
                 set (getIndex (enrollmentIdsByCourse s) (module_courseId moduleRow)) \<longrightarrow>
           map_get (progress (fst (createLesson s lid moduleId ltitle position))) k =
             map_get (progress s) k"
    and "\<forall>e. getIndex (progressIdsByEnrollment
                         (fst (createLesson s lid moduleId ltitle position))) e =
             getIndex (progressIdsByEnrollment s) e @
               (if e \<in> set (getIndex (enrollmentIdsByCourse s) (module_courseId moduleRow))
                then [e @ '':'' @ lid] else [])"
proof -
  let ?es = "getIndex (enrollmentIdsByCourse s) (module_courseId moduleRow)"
  from assms(2) show d: "distinct ?es"
    by (simp add: indexes_exact_def enrollment_index_exact_def)
  show "set ?es = {e. \<exists>E. map_get (enrollments s) e = Some E \<and>
                    enrollment_courseId E = module_courseId moduleRow}"
    by (rule enrollmentIds_set [OF assms(1,2)])
  from assms(3) have "\<not> isl (snd (createLesson s lid moduleId ltitle position))" by simp
  from createLesson_returns [OF this] assms(4)
  have eq: "fst (createLesson s lid moduleId ltitle position) =
     fanOutEnrollments lid ?es
       (s\<lparr>lessons := map_set (lessons s) lid
                        \<lparr>lesson_id = lid, lesson_moduleId = moduleId, lesson_title = ltitle,
                         lesson_position = position\<rparr>,
          lessonIdsByModule := pushIndex (lessonIdsByModule s) moduleId lid\<rparr>)"
    by auto
  show "\<forall>e\<in>set ?es.
           map_get (progress (fst (createLesson s lid moduleId ltitle position)))
             (e @ '':'' @ lid) = Some (newProgress e lid)"
    unfolding eq by (auto simp: fanOutEnrollments_progress)
  show "\<forall>k. k \<notin> (\<lambda>e. e @ '':'' @ lid) ` set ?es \<longrightarrow>
           map_get (progress (fst (createLesson s lid moduleId ltitle position))) k =
             map_get (progress s) k"
    unfolding eq by (auto simp: fanOutEnrollments_progress)
  show "\<forall>e. getIndex (progressIdsByEnrollment
                         (fst (createLesson s lid moduleId ltitle position))) e =
             getIndex (progressIdsByEnrollment s) e @
               (if e \<in> set ?es then [e @ '':'' @ lid] else [])"
    unfolding eq by (simp add: fanOutEnrollments_index [OF d])
qed

lemma enrollStudent_fans_out_exactly:
  assumes "store_inv s" and "indexes_exact s"
    and "snd (enrollStudent now s eid courseId userId) = Inr enrollment"
  shows "distinct (map lesson_id (getLessonsForCourse s courseId))"
    and "set (getLessonsForCourse s courseId) =
           {L. \<exists>l M. map_get (lessons s) l = Some L \<and>
                      map_get (modules s) (lesson_moduleId L) = Some M \<and>
                      module_courseId M = courseId}"
    and "\<forall>L\<in>set (getLessonsForCourse s courseId).
           map_get (progress (fst (enrollStudent now s eid courseId userId)))
             (eid @ '':'' @ lesson_id L) = Some (newProgress eid (lesson_id L))"
    and "\<forall>k. k \<notin> (\<lambda>L. eid @ '':'' @ lesson_id L) ` set (getLessonsForCourse s courseId) \<longrightarrow>
           map_get (progress (fst (enrollStudent now s eid courseId userId))) k =
             map_get (progress s) k"
    and "getIndex (progressIdsByEnrollment (fst (enrollStudent now s eid courseId userId))) eid =
           map (\<lambda>L. eid @ '':'' @ lesson_id L) (getLessonsForCourse s courseId)"
    and "\<forall>e. e \<noteq> eid \<longrightarrow>
           getIndex (progressIdsByEnrollment (fst (enrollStudent now s eid courseId userId))) e =
             getIndex (progressIdsByEnrollment s) e"
proof -
  let ?ls = "getLessonsForCourse s courseId"
  from assms(1) have li: "lessons_indexed s" by (simp add: store_inv_def)
  from assms(2) have me: "module_index_exact s" and le: "lesson_index_exact s"
    by (simp_all add: indexes_exact_def)
  show "distinct (map lesson_id ?ls)"
    by (rule getLessonsForCourse_distinct [OF li me le])
  show "set ?ls = {L. \<exists>l M. map_get (lessons s) l = Some L \<and>
                      map_get (modules s) (lesson_moduleId L) = Some M \<and>
                      module_courseId M = courseId}"
    by (rule getLessonsForCourse_set [OF assms(1,2)])
  from assms(3) have "\<not> isl (snd (enrollStudent now s eid courseId userId))" by simp
  from enrollStudent_returns [OF this]
  have eq: "fst (enrollStudent now s eid courseId userId) =
     fanOutLessons eid ?ls
       (s\<lparr>enrollments := map_set (enrollments s) eid
                            \<lparr>enrollment_id = eid, enrollment_courseId = courseId,
                             enrollment_userId = userId, enrollment_role = ''Student'',
                             enrollment_enrolledAt = now\<rparr>,
          enrollmentByCourseUser :=
            map_set (enrollmentByCourseUser s) (courseId @ '':'' @ userId) eid,
          enrollmentIdsByCourse := pushIndex (enrollmentIdsByCourse s) courseId eid,
          progressIdsByEnrollment := map_set (progressIdsByEnrollment s) eid []\<rparr>)"
    by simp
  show "\<forall>L\<in>set ?ls.
           map_get (progress (fst (enrollStudent now s eid courseId userId)))
             (eid @ '':'' @ lesson_id L) = Some (newProgress eid (lesson_id L))"
    unfolding eq by (auto simp: fanOutLessons_progress)
  show "\<forall>k. k \<notin> (\<lambda>L. eid @ '':'' @ lesson_id L) ` set ?ls \<longrightarrow>
           map_get (progress (fst (enrollStudent now s eid courseId userId))) k =
             map_get (progress s) k"
    unfolding eq by (auto simp: fanOutLessons_progress)
  show "getIndex (progressIdsByEnrollment (fst (enrollStudent now s eid courseId userId))) eid =
           map (\<lambda>L. eid @ '':'' @ lesson_id L) ?ls"
    unfolding eq by (simp add: fanOutLessons_index)
  show "\<forall>e. e \<noteq> eid \<longrightarrow>
           getIndex (progressIdsByEnrollment (fst (enrollStudent now s eid courseId userId))) e =
             getIndex (progressIdsByEnrollment s) e"
    unfolding eq by (simp add: fanOutLessons_index)
qed

lemma progress_keyed_same:
  "progress_keyed s \<Longrightarrow> progress s' = progress s \<Longrightarrow> progress_keyed s'"
  by (simp add: progress_keyed_def)

lemma apply_op_keyed:
  assumes "progress_keyed s"
  shows "progress_keyed (apply_op now op s)"
proof (cases op)
  case (CreateCourse cid ctitle cby)
  show ?thesis
  proof (cases "isl (snd (createCourse now s cid ctitle cby))")
    case True
    then show ?thesis using assms CreateCourse by (simp add: createCourse_throws)
  next
    case False
    from createCourse_returns [OF False] show ?thesis
      using CreateCourse by (auto intro: progress_keyed_same [OF assms])
  qed
next
  case (CreateModule mid courseId mtitle position)
  show ?thesis
  proof (cases "isl (snd (createModule s mid courseId mtitle position))")
    case True
    then show ?thesis using assms CreateModule by (simp add: createModule_throws)
  next
    case False
    from createModule_returns [OF False] show ?thesis
      using CreateModule by (auto intro: progress_keyed_same [OF assms])
  qed
next
  case (CreateLesson lid moduleId ltitle position)
  show ?thesis
  proof (cases "isl (snd (createLesson s lid moduleId ltitle position))")
    case True
    then show ?thesis using assms CreateLesson by (simp add: createLesson_throws)
  next
    case False
    from createLesson_returns [OF False] show ?thesis
      using CreateLesson assms
      by (auto simp: progress_keyed_def fanOutEnrollments_progress newProgress_def
          split: if_splits)
  qed
next
  case (EnrollStudent eid courseId userId)
  show ?thesis
  proof (cases "isl (snd (enrollStudent now s eid courseId userId))")
    case True
    then show ?thesis using assms EnrollStudent by (simp add: enrollStudent_throws)
  next
    case False
    from enrollStudent_returns [OF False] show ?thesis
      using EnrollStudent assms
      by (auto simp: progress_keyed_def fanOutLessons_progress newProgress_def
          split: if_splits)
  qed
next
  case (AttachLessonContent lessonId provider key fileId contentType size')
  show ?thesis
  proof (cases "isl (snd (attachLessonContent now s lessonId provider key fileId contentType
                            size'))")
    case True
    then show ?thesis using assms AttachLessonContent by (simp add: attachLessonContent_throws)
  next
    case False
    from attachLessonContent_returns [OF False] show ?thesis
      using AttachLessonContent by (auto intro: progress_keyed_same [OF assms])
  qed
next
  case (MarkLessonProgress enrollmentId lessonId actorUserId status)
  show ?thesis
  proof (cases "isl (snd (markLessonProgress now s enrollmentId lessonId actorUserId status))")
    case True
    then show ?thesis using assms MarkLessonProgress by (simp add: markLessonProgress_throws)
  next
    case False
    from markLessonProgress_returns [OF False] show ?thesis
      using MarkLessonProgress assms
      by (auto simp: progress_keyed_def split: if_splits)
  qed
qed

lemma newStore_keyed: "progress_keyed newStore"
  by (simp add: progress_keyed_def newStore_def map_get_def)

lemma reachable_keyed: "reachable s \<Longrightarrow> progress_keyed s"
  by (induction rule: reachable.induct) (simp_all add: apply_op_keyed newStore_keyed)


lemma markLessonProgress_stores:
  assumes "snd (markLessonProgress now s e l a st) = Inr row'"
  shows "\<exists>E L row0.
           map_get (enrollments s) e = Some E \<and> map_get (lessons s) l = Some L \<and>
           map_get (progress s) (enrollment_id E @ '':'' @ lesson_id L) = Some row0 \<and>
           row' = row0\<lparr>progress_status := st,
                       progress_completedAt := (if st = completed then Some now else None)\<rparr> \<and>
           fst (markLessonProgress now s e l a st) =
             s\<lparr>progress := map_set (progress s) (enrollment_id E @ '':'' @ lesson_id L) row'\<rparr>"
proof (cases "map_get (enrollments s) e")
  case None
  with assms show ?thesis by (simp add: markLessonProgress_def)
next
  case (Some E)
  note E = this
  show ?thesis
  proof (cases "map_get (lessons s) l")
    case None
    with assms E show ?thesis by (simp add: markLessonProgress_def split: if_splits)
  next
    case (Some L)
    note L = this
    show ?thesis
    proof (cases "map_get (progress s) (enrollment_id E @ '':'' @ lesson_id L)")
      case None
      with assms E L show ?thesis
        by (simp add: markLessonProgress_def Let_def split: if_splits option.splits)
    next
      case (Some row0)
      with assms E L show ?thesis
        by (simp add: markLessonProgress_def Let_def split: if_splits option.splits)
    qed
  qed
qed

lemma markLessonProgress_stores_reachable:
  assumes "store_inv s" and "snd (markLessonProgress now s e l a st) = Inr row'"
  shows "map_get (progress (fst (markLessonProgress now s e l a st))) k =
           (if k = e @ '':'' @ l then Some row' else map_get (progress s) k)"
proof -
  from assms(1) have ei: "enrollments_indexed s" and li: "lessons_indexed s"
    by (simp_all add: store_inv_def)
  from markLessonProgress_stores [OF assms(2)] obtain E L row0 where
    h: "map_get (enrollments s) e = Some E" "map_get (lessons s) l = Some L"
       "fst (markLessonProgress now s e l a st) =
          s\<lparr>progress := map_set (progress s) (enrollment_id E @ '':'' @ lesson_id L) row'\<rparr>"
    by blast
  from enrollments_indexedD [OF ei h(1)] lessons_indexedD [OF li h(2)]
  have "enrollment_id E = e" "lesson_id L = l" by simp_all
  with h(3) show ?thesis by simp
qed


subsection \<open>Claims about the store\<close>

text \<open>
  Claim C10. Every mutating operation of the store is atomic on error: when
  \<open>createCourse\<close>, \<open>createModule\<close>, \<open>createLesson\<close>, \<open>enrollStudent\<close>,
  \<open>attachLessonContent\<close> or \<open>markLessonProgress\<close> throws (an \<^verbatim>\<open>LmsModelError\<close>, or the
  \<^verbatim>\<open>TypeError\<close> of the position scan), the store it leaves, all entity maps and all
  secondary indices, is the store before the call.
\<close>

theorem store_ops_atomic_on_error:
  "(isl (snd (createCourse now s cid ctitle cby)) \<longrightarrow>
      fst (createCourse now s cid ctitle cby) = s) \<and>
   (isl (snd (createModule s mid courseId mtitle position)) \<longrightarrow>
      fst (createModule s mid courseId mtitle position) = s) \<and>
   (isl (snd (createLesson s lid moduleId ltitle position)) \<longrightarrow>
      fst (createLesson s lid moduleId ltitle position) = s) \<and>
   (isl (snd (enrollStudent now s eid courseId userId)) \<longrightarrow>
      fst (enrollStudent now s eid courseId userId) = s) \<and>
   (isl (snd (attachLessonContent now s lessonId provider key fileId contentType size')) \<longrightarrow>
      fst (attachLessonContent now s lessonId provider key fileId contentType size') = s) \<and>
   (isl (snd (markLessonProgress now s enrollmentId lessonId actorUserId status)) \<longrightarrow>
      fst (markLessonProgress now s enrollmentId lessonId actorUserId status) = s)"
  by (simp add: createCourse_throws createModule_throws createLesson_throws
      enrollStudent_throws attachLessonContent_throws markLessonProgress_throws)


theorem store_ops_atomic_on_error_witness:
  "isl (snd (createCourse ''t0'' (courseStore ''t0'' 1 0) ''c1'' ''t'' ''u1'')) \<and>
   fst (createCourse ''t0'' (courseStore ''t0'' 1 0) ''c1'' ''t'' ''u1'') = courseStore ''t0'' 1 0 \<and>
   isl (snd (createModule (courseStore ''t0'' 1 0) ''m2'' ''c1'' ''t'' 1)) \<and>
   fst (createModule (courseStore ''t0'' 1 0) ''m2'' ''c1'' ''t'' 1) = courseStore ''t0'' 1 0 \<and>
   isl (snd (createLesson (courseStore ''t0'' 1 0) ''l2'' ''m2'' ''t'' 1)) \<and>
   fst (createLesson (courseStore ''t0'' 1 0) ''l2'' ''m2'' ''t'' 1) = courseStore ''t0'' 1 0 \<and>
   isl (snd (enrollStudent ''t0'' (courseStore ''t0'' 1 0) ''e2'' ''c1'' ''s1'')) \<and>
   fst (enrollStudent ''t0'' (courseStore ''t0'' 1 0) ''e2'' ''c1'' ''s1'') = courseStore ''t0'' 1 0 \<and>
   isl (snd (attachLessonContent ''t0'' (courseStore ''t0'' 1 0) ''l9'' s3 ''k'' ''f'' ''ct'' 10)) \<and>
   fst (attachLessonContent ''t0'' (courseStore ''t0'' 1 0) ''l9'' s3 ''k'' ''f'' ''ct'' 10)
     = courseStore ''t0'' 1 0 \<and>
   isl (snd (markLessonProgress ''t0'' (courseStore ''t0'' 1 0) ''e1'' ''l9'' ''s2'' completed)) \<and>
   fst (markLessonProgress ''t0'' (courseStore ''t0'' 1 0) ''e1'' ''l9'' ''s2'' completed)
     = courseStore ''t0'' 1 0"
proof -
  have h1: "isl (snd (createCourse ''t0'' (courseStore ''t0'' 1 0) ''c1'' ''t'' ''u1''))"
    by code_simp
  have h2: "isl (snd (createModule (courseStore ''t0'' 1 0) ''m2'' ''c1'' ''t'' 1))"
    by code_simp
  have h3: "isl (snd (createLesson (courseStore ''t0'' 1 0) ''l2'' ''m2'' ''t'' 1))"
    by code_simp
  have h4: "isl (snd (enrollStudent ''t0'' (courseStore ''t0'' 1 0) ''e2'' ''c1'' ''s1''))"
    by code_simp
  have h5: "isl (snd (attachLessonContent ''t0'' (courseStore ''t0'' 1 0) ''l9'' s3 ''k'' ''f''
                        ''ct'' 10))"
    by code_simp
  have h6: "isl (snd (markLessonProgress ''t0'' (courseStore ''t0'' 1 0) ''e1'' ''l9'' ''s2''
                        completed))"
    by code_simp
  show ?thesis
    using h1 h2 h3 h4 h5 h6
      store_ops_atomic_on_error [where now = "''t0''" and s = "courseStore ''t0'' 1 0"
        and cid = "''c1''" and ctitle = "''t''" and cby = "''u1''"
        and mid = "''m2''" and courseId = "''c1''" and mtitle = "''t''" and position = 1
        and lid = "''l2''" and moduleId = "''m2''" and ltitle = "''t''"
        and eid = "''e2''" and userId = "''s1''"
        and lessonId = "''l9''" and provider = s3 and key = "''k''" and fileId = "''f''"
        and contentType = "''ct''" and size' = 10
        and enrollmentId = "''e1''" and actorUserId = "''s2''" and status = completed]
    by simp
qed

text \<open>
  Claim C2. In every store that the operations produce from the new store, every
  enrollment \<open>E\<close> and every lesson \<open>L\<close> whose module belongs to the course of \<open>E\<close> have a
  progress row with the id \<open>E.id:L.id\<close>. A successful \<open>createLesson\<close> writes the row
  \<open>newProgress\<close> of the new lesson for each enrollment id in the index of the course of the
  module, and appends the id of that row to the progress index of that enrollment, once;
  the index lists every existing enrollment of the course once and nothing else; every
  other progress row and every other progress index is as before. A successful
  \<open>enrollStudent\<close> writes the row \<open>newProgress\<close> of the new enrollment for each lesson that
  \<open>getLessonsForCourse\<close> returns, which are the existing lessons of the modules of the
  course, each once; the progress index of the new enrollment lists the ids of these rows
  and every other progress row and progress index is as before. The row \<open>newProgress\<close>
  is \<open>not_started\<close>. So \<open>markLessonProgress\<close> never throws for a missing progress row.
\<close>

theorem progress_rows_exist:
  assumes "reachable s"
  shows
    "(map_get (enrollments s) e = Some E \<and> map_get (lessons s) l = Some L \<and>
      map_get (modules s) (lesson_moduleId L) = Some M \<and>
      module_courseId M = enrollment_courseId E \<longrightarrow>
        (\<exists>row. map_get (progress s) (enrollment_id E @ '':'' @ lesson_id L) = Some row \<and>
               progress_id row = enrollment_id E @ '':'' @ lesson_id L)) \<and>
     (snd (createLesson s lid moduleId ltitle position) = Inr lesson \<and>
      map_get (modules s) moduleId = Some moduleRow \<longrightarrow>
        (let s' = fst (createLesson s lid moduleId ltitle position);
             enrollmentIds = getIndex (enrollmentIdsByCourse s) (module_courseId moduleRow)
         in distinct enrollmentIds \<and>
            set enrollmentIds =
              {e. \<exists>E. map_get (enrollments s) e = Some E \<and>
                       enrollment_courseId E = module_courseId moduleRow} \<and>
            (\<forall>e\<in>set enrollmentIds.
               map_get (progress s') (e @ '':'' @ lid) = Some (newProgress e lid)) \<and>
            (\<forall>k. k \<notin> (\<lambda>e. e @ '':'' @ lid) ` set enrollmentIds \<longrightarrow>
               map_get (progress s') k = map_get (progress s) k) \<and>
            (\<forall>e. getIndex (progressIdsByEnrollment s') e =
                    getIndex (progressIdsByEnrollment s) e @
                      (if e \<in> set enrollmentIds then [e @ '':'' @ lid] else [])))) \<and>
     (snd (enrollStudent now s eid courseId userId) = Inr enrollment \<longrightarrow>
        (let s' = fst (enrollStudent now s eid courseId userId);
             lessonsInCourse = getLessonsForCourse s courseId
         in distinct (map lesson_id lessonsInCourse) \<and>
            set lessonsInCourse =
              {L. \<exists>l M. map_get (lessons s) l = Some L \<and>
                         map_get (modules s) (lesson_moduleId L) = Some M \<and>
                         module_courseId M = courseId} \<and>
            (\<forall>L\<in>set lessonsInCourse.
               map_get (progress s') (eid @ '':'' @ lesson_id L) =
                 Some (newProgress eid (lesson_id L))) \<and>
            (\<forall>k. k \<notin> (\<lambda>L. eid @ '':'' @ lesson_id L) ` set lessonsInCourse \<longrightarrow>
               map_get (progress s') k = map_get (progress s) k) \<and>
            getIndex (progressIdsByEnrollment s') eid =
              map (\<lambda>L. eid @ '':'' @ lesson_id L) lessonsInCourse \<and>
            (\<forall>e. e \<noteq> eid \<longrightarrow>
               getIndex (progressIdsByEnrollment s') e =
                 getIndex (progressIdsByEnrollment s) e))) \<and>
     (snd (createLesson s lid moduleId ltitle position) = Inr lesson \<and>
      map_get (modules s) moduleId = Some moduleRow \<and> map_get (enrollments s) e = Some E \<and>
      enrollment_courseId E = module_courseId moduleRow \<longrightarrow>
        map_get (progress (fst (createLesson s lid moduleId ltitle position))) (e @ '':'' @ lid)
          = Some (newProgress e lid)) \<and>
     (snd (enrollStudent now s eid courseId userId) = Inr enrollment \<and>
      map_get (lessons s) l = Some L \<and> map_get (modules s) (lesson_moduleId L) = Some M \<and>
      module_courseId M = courseId \<longrightarrow>
        map_get (progress (fst (enrollStudent now s eid courseId userId))) (eid @ '':'' @ l)
          = Some (newProgress eid l)) \<and>
     snd (markLessonProgress now s e' l' a st) \<noteq>
       Inl (LmsModelError INVALID_RELATION ''missing progress row for enrollment/lesson'') \<and>
     newProgress e l =
       \<lparr>progress_id = e @ '':'' @ l, progress_enrollmentId = e, progress_lessonId = l,
        progress_status = not_started, progress_completedAt = None\<rparr>"
proof -
  from assms have inv: "store_inv s" by (rule reachable_store_inv)
  from assms have ex: "indexes_exact s" by (rule reachable_indexes_exact)
  from assms have ky: "progress_keyed s" by (rule reachable_keyed)
  from inv have pc: "progress_complete s" by (simp add: store_inv_def)
  have c1: "map_get (enrollments s) e = Some E \<and> map_get (lessons s) l = Some L \<and>
      map_get (modules s) (lesson_moduleId L) = Some M \<and>
      module_courseId M = enrollment_courseId E \<longrightarrow>
        (\<exists>row. map_get (progress s) (enrollment_id E @ '':'' @ lesson_id L) = Some row \<and>
               progress_id row = enrollment_id E @ '':'' @ lesson_id L)"
  proof
    assume h: "map_get (enrollments s) e = Some E \<and> map_get (lessons s) l = Some L \<and>
      map_get (modules s) (lesson_moduleId L) = Some M \<and>
      module_courseId M = enrollment_courseId E"
    then have "map_has (progress s) (enrollment_id E @ '':'' @ lesson_id L)"
      using progress_completeD [OF pc, of e E l L M] by simp
    then obtain row where
      r: "map_get (progress s) (enrollment_id E @ '':'' @ lesson_id L) = Some row"
      by (auto simp: map_has_iff)
    with ky have "progress_id row = enrollment_id E @ '':'' @ lesson_id L"
      by (simp add: progress_keyed_def)
    with r show "\<exists>row. map_get (progress s) (enrollment_id E @ '':'' @ lesson_id L) = Some row \<and>
               progress_id row = enrollment_id E @ '':'' @ lesson_id L"
      by simp
  qed
  have c2: "snd (createLesson s lid moduleId ltitle position) = Inr lesson \<and>
      map_get (modules s) moduleId = Some moduleRow \<longrightarrow>
        (let s' = fst (createLesson s lid moduleId ltitle position);
             enrollmentIds = getIndex (enrollmentIdsByCourse s) (module_courseId moduleRow)
         in distinct enrollmentIds \<and>
            set enrollmentIds =
              {e. \<exists>E. map_get (enrollments s) e = Some E \<and>
                       enrollment_courseId E = module_courseId moduleRow} \<and>
            (\<forall>e\<in>set enrollmentIds.
               map_get (progress s') (e @ '':'' @ lid) = Some (newProgress e lid)) \<and>
            (\<forall>k. k \<notin> (\<lambda>e. e @ '':'' @ lid) ` set enrollmentIds \<longrightarrow>
               map_get (progress s') k = map_get (progress s) k) \<and>
            (\<forall>e. getIndex (progressIdsByEnrollment s') e =
                    getIndex (progressIdsByEnrollment s) e @
                      (if e \<in> set enrollmentIds then [e @ '':'' @ lid] else [])))"
  proof
    assume h: "snd (createLesson s lid moduleId ltitle position) = Inr lesson \<and>
      map_get (modules s) moduleId = Some moduleRow"
    note f = createLesson_fans_out_exactly [OF inv ex conjunct1 [OF h] conjunct2 [OF h]]
    show "let s' = fst (createLesson s lid moduleId ltitle position);
             enrollmentIds = getIndex (enrollmentIdsByCourse s) (module_courseId moduleRow)
         in distinct enrollmentIds \<and>
            set enrollmentIds =
              {e. \<exists>E. map_get (enrollments s) e = Some E \<and>
                       enrollment_courseId E = module_courseId moduleRow} \<and>
            (\<forall>e\<in>set enrollmentIds.
               map_get (progress s') (e @ '':'' @ lid) = Some (newProgress e lid)) \<and>
            (\<forall>k. k \<notin> (\<lambda>e. e @ '':'' @ lid) ` set enrollmentIds \<longrightarrow>
               map_get (progress s') k = map_get (progress s) k) \<and>
            (\<forall>e. getIndex (progressIdsByEnrollment s') e =
                    getIndex (progressIdsByEnrollment s) e @
                      (if e \<in> set enrollmentIds then [e @ '':'' @ lid] else []))"
      unfolding Let_def by (intro conjI) (rule f)+
  qed
  have c3: "snd (enrollStudent now s eid courseId userId) = Inr enrollment \<longrightarrow>
        (let s' = fst (enrollStudent now s eid courseId userId);
             lessonsInCourse = getLessonsForCourse s courseId
         in distinct (map lesson_id lessonsInCourse) \<and>
            set lessonsInCourse =
              {L. \<exists>l M. map_get (lessons s) l = Some L \<and>
                         map_get (modules s) (lesson_moduleId L) = Some M \<and>
                         module_courseId M = courseId} \<and>
            (\<forall>L\<in>set lessonsInCourse.
               map_get (progress s') (eid @ '':'' @ lesson_id L) =
                 Some (newProgress eid (lesson_id L))) \<and>
            (\<forall>k. k \<notin> (\<lambda>L. eid @ '':'' @ lesson_id L) ` set lessonsInCourse \<longrightarrow>
               map_get (progress s') k = map_get (progress s) k) \<and>
            getIndex (progressIdsByEnrollment s') eid =
              map (\<lambda>L. eid @ '':'' @ lesson_id L) lessonsInCourse \<and>
            (\<forall>e. e \<noteq> eid \<longrightarrow>
               getIndex (progressIdsByEnrollment s') e =
                 getIndex (progressIdsByEnrollment s) e))"
  proof
    assume h: "snd (enrollStudent now s eid courseId userId) = Inr enrollment"
    note f = enrollStudent_fans_out_exactly [OF inv ex h]
    show "let s' = fst (enrollStudent now s eid courseId userId);
             lessonsInCourse = getLessonsForCourse s courseId
         in distinct (map lesson_id lessonsInCourse) \<and>
            set lessonsInCourse =
              {L. \<exists>l M. map_get (lessons s) l = Some L \<and>
                         map_get (modules s) (lesson_moduleId L) = Some M \<and>
                         module_courseId M = courseId} \<and>
            (\<forall>L\<in>set lessonsInCourse.
               map_get (progress s') (eid @ '':'' @ lesson_id L) =
                 Some (newProgress eid (lesson_id L))) \<and>
            (\<forall>k. k \<notin> (\<lambda>L. eid @ '':'' @ lesson_id L) ` set lessonsInCourse \<longrightarrow>
               map_get (progress s') k = map_get (progress s) k) \<and>
            getIndex (progressIdsByEnrollment s') eid =
              map (\<lambda>L. eid @ '':'' @ lesson_id L) lessonsInCourse \<and>
            (\<forall>e. e \<noteq> eid \<longrightarrow>
               getIndex (progressIdsByEnrollment s') e =
                 getIndex (progressIdsByEnrollment s) e)"
      unfolding Let_def by (intro conjI) (rule f)+
  qed
  have c4: "snd (createLesson s lid moduleId ltitle position) = Inr lesson \<and>
      map_get (modules s) moduleId = Some moduleRow \<and> map_get (enrollments s) e = Some E \<and>
      enrollment_courseId E = module_courseId moduleRow \<longrightarrow>
        map_get (progress (fst (createLesson s lid moduleId ltitle position))) (e @ '':'' @ lid)
          = Some (newProgress e lid)"
    using createLesson_fans_out [OF inv] by blast
  have c5: "snd (enrollStudent now s eid courseId userId) = Inr enrollment \<and>
      map_get (lessons s) l = Some L \<and> map_get (modules s) (lesson_moduleId L) = Some M \<and>
      module_courseId M = courseId \<longrightarrow>
        map_get (progress (fst (enrollStudent now s eid courseId userId))) (eid @ '':'' @ l)
          = Some (newProgress eid l)"
    using enrollStudent_fans_out [OF inv] by blast
  note c6 = markLessonProgress_row_exists [OF inv, of now e' l' a st]
  have c7: "newProgress e l =
       \<lparr>progress_id = e @ '':'' @ l, progress_enrollmentId = e, progress_lessonId = l,
        progress_status = not_started, progress_completedAt = None\<rparr>"
    by (simp add: newProgress_def)
  show ?thesis
    by (intro conjI) (rule c1 c2 c3 c4 c5 c6 c7)+
qed

theorem progress_rows_exist_witness:
  "reachable (courseStore ''t0'' 3 2) \<and>
   (\<exists>row. map_get (progress (courseStore ''t0'' 3 2)) ''e1:li'' = Some row \<and>
          progress_id row = ''e1:li'') \<and>
   getIndex (enrollmentIdsByCourse (courseStore ''t0'' 3 2)) ''c1'' = [''e1''] \<and>
   map_get (progress (fst (createLesson (courseStore ''t0'' 3 2) ''lx'' ''m1'' ''t'' 9))) ''e1:lx''
     = Some (newProgress ''e1'' ''lx'') \<and>
   map_get (progress (fst (createLesson (courseStore ''t0'' 3 2) ''lx'' ''m1'' ''t'' 9))) ''e1:li''
     = map_get (progress (courseStore ''t0'' 3 2)) ''e1:li'' \<and>
   getIndex (progressIdsByEnrollment
               (fst (createLesson (courseStore ''t0'' 3 2) ''lx'' ''m1'' ''t'' 9))) ''e1''
     = getIndex (progressIdsByEnrollment (courseStore ''t0'' 3 2)) ''e1'' @ [''e1:lx''] \<and>
   map lesson_id (getLessonsForCourse (courseStore ''t0'' 3 2) ''c1'') = [''li'', ''lii'', ''liii''] \<and>
   getIndex (progressIdsByEnrollment
               (fst (enrollStudent ''t1'' (courseStore ''t0'' 3 2) ''e2'' ''c1'' ''s2''))) ''e2''
     = [''e2:li'', ''e2:lii'', ''e2:liii''] \<and>
   getIndex (progressIdsByEnrollment
               (fst (enrollStudent ''t1'' (courseStore ''t0'' 3 2) ''e2'' ''c1'' ''s2''))) ''e1''
     = getIndex (progressIdsByEnrollment (courseStore ''t0'' 3 2)) ''e1'' \<and>
   map_get (progress (fst (enrollStudent ''t1'' (courseStore ''t0'' 3 2) ''e2'' ''c1'' ''s2'')))
     ''e2:li'' = Some (newProgress ''e2'' ''li'')"
proof -
  let ?S = "courseStore ''t0'' 3 2"
  let ?E = "\<lparr>enrollment_id = ''e1'', enrollment_courseId = ''c1'', enrollment_userId = ''s1'',
           enrollment_role = ''Student'', enrollment_enrolledAt = ''t0''\<rparr>"
  let ?L = "\<lparr>lesson_id = ''li'', lesson_moduleId = ''m1'', lesson_title = ''t'',
           lesson_position = 1\<rparr>"
  let ?M = "\<lparr>module_id = ''m1'', module_courseId = ''c1'', module_title = ''t'',
           module_position = 1\<rparr>"
  let ?L' = "\<lparr>lesson_id = ''lx'', lesson_moduleId = ''m1'', lesson_title = ''t'',
           lesson_position = 9\<rparr>"
  let ?E' = "\<lparr>enrollment_id = ''e2'', enrollment_courseId = ''c1'', enrollment_userId = ''s2'',
           enrollment_role = ''Student'', enrollment_enrolledAt = ''t1''\<rparr>"
  note T = progress_rows_exist [OF courseStore_reachable, where e = "''e1''" and E = ?E
      and l = "''li''" and L = ?L and M = ?M and lid = "''lx''" and moduleId = "''m1''"
      and ltitle = "''t''" and position = 9 and lesson = ?L' and moduleRow = ?M
      and now = "''t1''" and eid = "''e2''" and courseId = "''c1''" and userId = "''s2''"
      and enrollment = ?E']
  have h1: "map_get (enrollments ?S) ''e1'' = Some ?E" by code_simp
  have h2: "map_get (lessons ?S) ''li'' = Some ?L" by code_simp
  have h3: "map_get (modules ?S) ''m1'' = Some ?M" by code_simp
  have h4: "snd (createLesson ?S ''lx'' ''m1'' ''t'' 9) = Inr ?L'" by code_simp
  have h5: "snd (enrollStudent ''t1'' ?S ''e2'' ''c1'' ''s2'') = Inr ?E'" by code_simp
  have es: "getIndex (enrollmentIdsByCourse ?S) ''c1'' = [''e1'']" by code_simp
  have ls: "getLessonsForCourse ?S ''c1'' =
      [\<lparr>lesson_id = ''li'', lesson_moduleId = ''m1'', lesson_title = ''t'', lesson_position = 1\<rparr>,
       \<lparr>lesson_id = ''lii'', lesson_moduleId = ''m1'', lesson_title = ''t'', lesson_position = 2\<rparr>,
       \<lparr>lesson_id = ''liii'', lesson_moduleId = ''m1'', lesson_title = ''t'',
        lesson_position = 3\<rparr>]"
    by code_simp
  have p1: "map_get (enrollments ?S) ''e1'' = Some ?E \<and> map_get (lessons ?S) ''li'' = Some ?L \<and>
      map_get (modules ?S) (lesson_moduleId ?L) = Some ?M \<and>
      module_courseId ?M = enrollment_courseId ?E"
    using h1 h2 h3 by simp
  from mp [OF T [THEN conjunct1] p1]
  have a1: "\<exists>row. map_get (progress ?S) ''e1:li'' = Some row \<and> progress_id row = ''e1:li''"
    by simp
  have p2: "snd (createLesson ?S ''lx'' ''m1'' ''t'' 9) = Inr ?L' \<and>
      map_get (modules ?S) ''m1'' = Some ?M"
    using h4 h3 by (intro conjI)
  note c2 = mp [OF T [THEN conjunct2, THEN conjunct1] p2, unfolded Let_def]
  have mc: "module_courseId ?M = ''c1''" by simp
  from c2 [THEN conjunct2, THEN conjunct2, THEN conjunct1]
  have a2: "map_get (progress (fst (createLesson ?S ''lx'' ''m1'' ''t'' 9))) ''e1:lx''
      = Some (newProgress ''e1'' ''lx'')"
    unfolding mc es by simp
  from c2 [THEN conjunct2, THEN conjunct2, THEN conjunct2, THEN conjunct1,
      THEN spec, of "''e1:li''"]
  have a3: "map_get (progress (fst (createLesson ?S ''lx'' ''m1'' ''t'' 9))) ''e1:li''
      = map_get (progress ?S) ''e1:li''"
    unfolding mc es by simp
  from c2 [THEN conjunct2, THEN conjunct2, THEN conjunct2, THEN conjunct2,
      THEN spec, of "''e1''"]
  have a4: "getIndex (progressIdsByEnrollment (fst (createLesson ?S ''lx'' ''m1'' ''t'' 9)))
      ''e1'' = getIndex (progressIdsByEnrollment ?S) ''e1'' @ [''e1:lx'']"
    unfolding mc es by simp
  note c3 = mp [OF T [THEN conjunct2, THEN conjunct2, THEN conjunct1] h5, unfolded Let_def]
  have a5: "map lesson_id (getLessonsForCourse ?S ''c1'') = [''li'', ''lii'', ''liii'']"
    unfolding ls by simp
  from c3 [THEN conjunct2, THEN conjunct2, THEN conjunct2, THEN conjunct2, THEN conjunct1]
  have a6: "getIndex (progressIdsByEnrollment
               (fst (enrollStudent ''t1'' ?S ''e2'' ''c1'' ''s2''))) ''e2''
     = [''e2:li'', ''e2:lii'', ''e2:liii'']"
    unfolding ls by simp
  from c3 [THEN conjunct2, THEN conjunct2, THEN conjunct2, THEN conjunct2, THEN conjunct2,
      THEN spec, of "''e1''"]
  have a7: "getIndex (progressIdsByEnrollment
               (fst (enrollStudent ''t1'' ?S ''e2'' ''c1'' ''s2''))) ''e1''
     = getIndex (progressIdsByEnrollment ?S) ''e1''"
    by simp
  from c3 [THEN conjunct2, THEN conjunct2, THEN conjunct1]
  have a8: "map_get (progress (fst (enrollStudent ''t1'' ?S ''e2'' ''c1'' ''s2'')))
     ''e2:li'' = Some (newProgress ''e2'' ''li'')"
    unfolding ls by simp
  show ?thesis
    by (intro conjI) (rule courseStore_reachable a1 es a2 a3 a4 a5 a6 a7 a8)+
qed

text \<open>
  Claim C8. In every store that the operations produce from the new store, a progress
  row has a completion time exactly when its status is \<open>completed\<close>. A successful
  \<open>markLessonProgress\<close> replaces the stored row of the enrollment and the lesson by that
  row with the new status, and with the clock value as completion time exactly when the
  new status is \<open>completed\<close>, none otherwise; it returns the row that it stored and
  changes nothing else in the store. The call succeeds on the existing row whatever its
  previous status is; the rows of the fan-out are \<open>not_started\<close> without a completion
  time.
\<close>

theorem completedAt_iff_completed:
  "(reachable s \<and> map_get (progress s) k = Some row \<longrightarrow>
      (progress_completedAt row \<noteq> None) = (progress_status row = completed)) \<and>
   (snd (markLessonProgress now s e l a st) = Inr row' \<longrightarrow>
      progress_status row' = st \<and>
      progress_completedAt row' = (if st = completed then Some now else None) \<and>
      (\<exists>E L row0.
         map_get (enrollments s) e = Some E \<and> map_get (lessons s) l = Some L \<and>
         map_get (progress s) (enrollment_id E @ '':'' @ lesson_id L) = Some row0 \<and>
         row' = row0\<lparr>progress_status := st,
                     progress_completedAt := (if st = completed then Some now else None)\<rparr> \<and>
         fst (markLessonProgress now s e l a st) =
           s\<lparr>progress := map_set (progress s) (enrollment_id E @ '':'' @ lesson_id L) row'\<rparr>)) \<and>
   (reachable s \<and> snd (markLessonProgress now s e l a st) = Inr row' \<longrightarrow>
      (\<forall>k'. map_get (progress (fst (markLessonProgress now s e l a st))) k' =
              (if k' = e @ '':'' @ l then Some row' else map_get (progress s) k'))) \<and>
   (map_get (enrollments s) e = Some E \<and> enrollment_userId E = a \<and>
    map_get (lessons s) l = Some L \<and> map_get (modules s) (lesson_moduleId L) = Some M \<and>
    module_courseId M = enrollment_courseId E \<and>
    map_get (progress s) (enrollment_id E @ '':'' @ lesson_id L) = Some row0 \<longrightarrow>
      markLessonProgress now s e l a st =
        (s\<lparr>progress := map_set (progress s) (enrollment_id E @ '':'' @ lesson_id L)
             (row0\<lparr>progress_status := st,
                   progress_completedAt := (if st = completed then Some now else None)\<rparr>)\<rparr>,
         Inr (row0\<lparr>progress_status := st,
                   progress_completedAt := (if st = completed then Some now else None)\<rparr>))) \<and>
   progress_status (newProgress e l) = not_started \<and>
   progress_completedAt (newProgress e l) = None"
proof -
  have c1: "reachable s \<and> map_get (progress s) k = Some row \<longrightarrow>
      (progress_completedAt row \<noteq> None) = (progress_status row = completed)"
    using reachable_consistent [of s]
    by (auto simp: progress_consistent_def completedAt_consistent_def)
  have c2: "snd (markLessonProgress now s e l a st) = Inr row' \<longrightarrow>
      progress_status row' = st \<and>
      progress_completedAt row' = (if st = completed then Some now else None) \<and>
      (\<exists>E L row0.
         map_get (enrollments s) e = Some E \<and> map_get (lessons s) l = Some L \<and>
         map_get (progress s) (enrollment_id E @ '':'' @ lesson_id L) = Some row0 \<and>
         row' = row0\<lparr>progress_status := st,
                     progress_completedAt := (if st = completed then Some now else None)\<rparr> \<and>
         fst (markLessonProgress now s e l a st) =
           s\<lparr>progress := map_set (progress s) (enrollment_id E @ '':'' @ lesson_id L) row'\<rparr>)"
  proof
    assume r: "snd (markLessonProgress now s e l a st) = Inr row'"
    from markLessonProgress_result [OF r]
    have "progress_status row' = st"
      "progress_completedAt row' = (if st = completed then Some now else None)"
      by simp_all
    with markLessonProgress_stores [OF r]
    show "progress_status row' = st \<and>
      progress_completedAt row' = (if st = completed then Some now else None) \<and>
      (\<exists>E L row0.
         map_get (enrollments s) e = Some E \<and> map_get (lessons s) l = Some L \<and>
         map_get (progress s) (enrollment_id E @ '':'' @ lesson_id L) = Some row0 \<and>
         row' = row0\<lparr>progress_status := st,
                     progress_completedAt := (if st = completed then Some now else None)\<rparr> \<and>
         fst (markLessonProgress now s e l a st) =
           s\<lparr>progress := map_set (progress s) (enrollment_id E @ '':'' @ lesson_id L) row'\<rparr>)"
      by (intro conjI)
  qed
  have c3: "reachable s \<and> snd (markLessonProgress now s e l a st) = Inr row' \<longrightarrow>
      (\<forall>k'. map_get (progress (fst (markLessonProgress now s e l a st))) k' =
              (if k' = e @ '':'' @ l then Some row' else map_get (progress s) k'))"
  proof (intro impI allI)
    fix k'
    assume h: "reachable s \<and> snd (markLessonProgress now s e l a st) = Inr row'"
    then have "store_inv s" by (simp add: reachable_store_inv)
    from markLessonProgress_stores_reachable [OF this conjunct2 [OF h]]
    show "map_get (progress (fst (markLessonProgress now s e l a st))) k' =
              (if k' = e @ '':'' @ l then Some row' else map_get (progress s) k')" .
  qed
  have c4: "map_get (enrollments s) e = Some E \<and> enrollment_userId E = a \<and>
    map_get (lessons s) l = Some L \<and> map_get (modules s) (lesson_moduleId L) = Some M \<and>
    module_courseId M = enrollment_courseId E \<and>
    map_get (progress s) (enrollment_id E @ '':'' @ lesson_id L) = Some row0 \<longrightarrow>
      markLessonProgress now s e l a st =
        (s\<lparr>progress := map_set (progress s) (enrollment_id E @ '':'' @ lesson_id L)
             (row0\<lparr>progress_status := st,
                   progress_completedAt := (if st = completed then Some now else None)\<rparr>)\<rparr>,
         Inr (row0\<lparr>progress_status := st,
                   progress_completedAt := (if st = completed then Some now else None)\<rparr>))"
    using markLessonProgress_accepts [of s e E a l L M row0 now st] by simp
  have c5: "progress_status (newProgress e l) = not_started"
    by (simp add: newProgress_def)
  have c6: "progress_completedAt (newProgress e l) = None"
    by (simp add: newProgress_def)
  show ?thesis
    by (intro conjI) (rule c1 c2 c3 c4 c5 c6)+
qed

theorem completedAt_iff_completed_witness:
  "reachable (courseStore ''t0'' 3 2) \<and>
   map_get (progress (courseStore ''t0'' 3 2)) ''e1:li'' =
     Some \<lparr>progress_id = ''e1:li'', progress_enrollmentId = ''e1'', progress_lessonId = ''li'',
           progress_status = completed, progress_completedAt = Some ''t0''\<rparr> \<and>
   markLessonProgress ''t1'' (courseStore ''t0'' 3 2) ''e1'' ''li'' ''s1'' in_progress =
     ((courseStore ''t0'' 3 2)
        \<lparr>progress := map_set (progress (courseStore ''t0'' 3 2)) ''e1:li''
           \<lparr>progress_id = ''e1:li'', progress_enrollmentId = ''e1'', progress_lessonId = ''li'',
            progress_status = in_progress, progress_completedAt = None\<rparr>\<rparr>,
      Inr \<lparr>progress_id = ''e1:li'', progress_enrollmentId = ''e1'', progress_lessonId = ''li'',
           progress_status = in_progress, progress_completedAt = None\<rparr>) \<and>
   snd (markLessonProgress ''t1'' (courseStore ''t0'' 3 2) ''e1'' ''liii'' ''s1'' completed) =
     Inr \<lparr>progress_id = ''e1:liii'', progress_enrollmentId = ''e1'', progress_lessonId = ''liii'',
          progress_status = completed, progress_completedAt = Some ''t1''\<rparr> \<and>
   map_get
     (progress (fst (markLessonProgress ''t1'' (courseStore ''t0'' 3 2) ''e1'' ''liii'' ''s1''
                       completed))) ''e1:liii'' =
     Some \<lparr>progress_id = ''e1:liii'', progress_enrollmentId = ''e1'',
           progress_lessonId = ''liii'', progress_status = completed,
           progress_completedAt = Some ''t1''\<rparr> \<and>
   map_get
     (progress (fst (markLessonProgress ''t1'' (courseStore ''t0'' 3 2) ''e1'' ''liii'' ''s1''
                       completed))) ''e1:li'' =
     Some \<lparr>progress_id = ''e1:li'', progress_enrollmentId = ''e1'', progress_lessonId = ''li'',
           progress_status = completed, progress_completedAt = Some ''t0''\<rparr>"
proof -
  let ?S = "courseStore ''t0'' 3 2"
  let ?E = "\<lparr>enrollment_id = ''e1'', enrollment_courseId = ''c1'', enrollment_userId = ''s1'',
           enrollment_role = ''Student'', enrollment_enrolledAt = ''t0''\<rparr>"
  let ?L = "\<lparr>lesson_id = ''li'', lesson_moduleId = ''m1'', lesson_title = ''t'',
           lesson_position = 1\<rparr>"
  let ?M = "\<lparr>module_id = ''m1'', module_courseId = ''c1'', module_title = ''t'',
           module_position = 1\<rparr>"
  let ?R = "\<lparr>progress_id = ''e1:li'', progress_enrollmentId = ''e1'', progress_lessonId = ''li'',
           progress_status = completed, progress_completedAt = Some ''t0''\<rparr>"
  let ?R3 = "\<lparr>progress_id = ''e1:liii'', progress_enrollmentId = ''e1'',
           progress_lessonId = ''liii'', progress_status = completed,
           progress_completedAt = Some ''t1''\<rparr>"
  have h1: "map_get (enrollments ?S) ''e1'' = Some ?E" by code_simp
  have h2: "map_get (lessons ?S) ''li'' = Some ?L" by code_simp
  have h3: "map_get (modules ?S) ''m1'' = Some ?M" by code_simp
  have h4: "map_get (progress ?S) ''e1:li'' = Some ?R" by code_simp
  have h5: "snd (markLessonProgress ''t1'' ?S ''e1'' ''liii'' ''s1'' completed) = Inr ?R3"
    by code_simp
  have p4: "map_get (enrollments ?S) ''e1'' = Some ?E \<and> enrollment_userId ?E = ''s1'' \<and>
    map_get (lessons ?S) ''li'' = Some ?L \<and> map_get (modules ?S) (lesson_moduleId ?L) = Some ?M \<and>
    module_courseId ?M = enrollment_courseId ?E \<and>
    map_get (progress ?S) (enrollment_id ?E @ '':'' @ lesson_id ?L) = Some ?R"
    using h1 h2 h3 h4 by simp
  have first: "markLessonProgress ''t1'' ?S ''e1'' ''li'' ''s1'' in_progress =
     (?S\<lparr>progress := map_set (progress ?S) ''e1:li''
           \<lparr>progress_id = ''e1:li'', progress_enrollmentId = ''e1'', progress_lessonId = ''li'',
            progress_status = in_progress, progress_completedAt = None\<rparr>\<rparr>,
      Inr \<lparr>progress_id = ''e1:li'', progress_enrollmentId = ''e1'', progress_lessonId = ''li'',
           progress_status = in_progress, progress_completedAt = None\<rparr>)"
    using mp [OF completedAt_iff_completed [where s = ?S and k = "''e1:li''" and row = ?R
        and now = "''t1''" and e = "''e1''" and l = "''li''" and a = "''s1''"
        and st = in_progress and E = ?E and L = ?L and M = ?M and row0 = ?R and row' = ?R,
        THEN conjunct2, THEN conjunct2, THEN conjunct2, THEN conjunct1] p4]
    by simp
  have p3: "reachable ?S \<and>
    snd (markLessonProgress ''t1'' ?S ''e1'' ''liii'' ''s1'' completed) = Inr ?R3"
    using courseStore_reachable h5 by (intro conjI)
  note second = mp [OF completedAt_iff_completed [where s = ?S and now = "''t1''"
        and e = "''e1''" and l = "''liii''" and a = "''s1''" and st = completed and row' = ?R3
        and k = "''e1:li''" and row = ?R and E = ?E and L = ?L and M = ?M and row0 = ?R,
        THEN conjunct2, THEN conjunct2, THEN conjunct1] p3]
  have third: "map_get
     (progress (fst (markLessonProgress ''t1'' ?S ''e1'' ''liii'' ''s1'' completed)))
     ''e1:liii'' = Some ?R3"
    using spec [OF second, of "''e1:liii''"] by simp
  have fourth: "map_get
     (progress (fst (markLessonProgress ''t1'' ?S ''e1'' ''liii'' ''s1'' completed)))
     ''e1:li'' = Some ?R"
    using spec [OF second, of "''e1:li''"] by (simp add: h4)
  show ?thesis
    by (intro conjI) (rule courseStore_reachable h4 h5 first third fourth)+
qed

subsection \<open>The completion percentage\<close>

text \<open>
  Claim C3 says that \<open>getCourseCompletionPercent\<close> returns \<open>round (100 * K / N)\<close>. With
  forty progress rows of which twenty-three are completed, \<open>100 * K / N\<close> is \<open>57.5\<close>
  and rounds to \<open>58\<close>; the quotient \<open>23 / 40\<close> is rounded to binary64 before the
  multiplication, the product is \<open>57.49999999999999\<close>, and the function returns \<open>57\<close>.
\<close>

theorem completion_percent_23_of_40:
  "getCourseCompletionPercent (courseStore ''t0'' 40 23) ''e1'' = Inr 57 \<and>
   Math_round (100 * 23, 40) = 58"
  by code_simp

section \<open>Properties of the signed content URLs\<close>

lemma verify_roundtrip:
  assumes "toNumber rt (numberToString rt (now div 1000 + input_expiresInSeconds input)) =
             Finite (of_int (now div 1000 + input_expiresInSeconds input))"
    and "now' div 1000 < now div 1000 + input_expiresInSeconds input"
  shows "verifySignedLessonContentUrl rt secret now'
           \<lparr>params_provider = ref_provider (input_content input),
            params_key = ref_key (input_content input),
            params_lessonId = input_lessonId input, params_userId = input_userId input,
            params_exp = signedExp rt now input, params_sig = signedSig rt secret now input\<rparr>"
  using assms
  by (simp add: verifySignedLessonContentUrl_def signedExp_def signedSig_def timingSafeEqual_def
      Let_def)

lemma build_url:
  "url (buildSignedLessonContentUrl rt baseUrl secret now input) =
     stripTrailingSlash baseUrl @ ''/'' @ providerName (ref_provider (input_content input)) @ ''/''
       @ encodeURIComponent rt (ref_key (input_content input))
       @ ''?fileId='' @ encodeURIComponent rt (ref_fileId (input_content input))
       @ ''&lessonId='' @ encodeURIComponent rt (input_lessonId input)
       @ ''&uid='' @ encodeURIComponent rt (input_userId input)
       @ ''&exp='' @ signedExp rt now input @ ''&sig='' @ signedSig rt secret now input"
  by (simp add: buildSignedLessonContentUrl_def signedExp_def signedSig_def Let_def)

lemma verify_not_finite:
  "(\<forall>x. toNumber rt (params_exp params) \<noteq> Finite x) \<Longrightarrow>
   \<not> verifySignedLessonContentUrl rt secret now params"
  by (auto simp: verifySignedLessonContentUrl_def split: jsnum.splits)

lemma verify_elapsed:
  "toNumber rt (params_exp params) = Finite x \<Longrightarrow> x \<le> of_int (now div 1000) \<Longrightarrow>
   \<not> verifySignedLessonContentUrl rt secret now params"
  by (simp add: verifySignedLessonContentUrl_def)

lemma verify_sig_differs:
  "params_sig params \<noteq>
     hmacSha256Hex rt secret (canonicalPayload (params_provider params) (params_key params)
       (params_lessonId params) (params_userId params) (params_exp params)) \<Longrightarrow>
   \<not> verifySignedLessonContentUrl rt secret now params"
  by (auto simp: verifySignedLessonContentUrl_def timingSafeEqual_def Let_def split: jsnum.splits)

lemma providerName_inj: "providerName p = providerName q \<Longrightarrow> p = q"
  by (cases p; cases q) simp_all

lemma canonicalPayload_one_field:
  "canonicalPayload p k l u e = canonicalPayload p' k l u e \<Longrightarrow> p = p'"
  "canonicalPayload p k l u e = canonicalPayload p k' l u e \<Longrightarrow> k = k'"
  "canonicalPayload p k l u e = canonicalPayload p k l' u e \<Longrightarrow> l = l'"
  "canonicalPayload p k l u e = canonicalPayload p k l u' e \<Longrightarrow> u = u'"
  "canonicalPayload p k l u e = canonicalPayload p k l u e' \<Longrightarrow> e = e'"
  by (auto simp: canonicalPayload_def dest: providerName_inj)

lemma canonicalPayload_two_fields:
  "canonicalPayload gdrive ''a'' ''b:c'' u e = canonicalPayload gdrive ''a:b'' ''c'' u e"
  by (simp add: canonicalPayload_def)


lemma altersOneField_payload:
  "altersOneField P P' \<Longrightarrow> paramsPayload P' \<noteq> paramsPayload P"
  unfolding altersOneField_def paramsPayload_def
  by (auto split: if_splits dest: canonicalPayload_one_field)

lemma verify_altered:
  assumes "params_sig P = hmacSha256Hex rt secret (paramsPayload P)"
    and "altersOneField P P'"
    and "hmacSha256Hex rt secret (paramsPayload P') = hmacSha256Hex rt secret (paramsPayload P)
           \<longrightarrow> paramsPayload P' = paramsPayload P"
  shows "\<not> verifySignedLessonContentUrl rt secret now P'"
proof -
  from assms(2) have "paramsPayload P' \<noteq> paramsPayload P" by (rule altersOneField_payload)
  with assms(3) have "hmacSha256Hex rt secret (paramsPayload P') \<noteq> params_sig P"
    by (auto simp: assms(1))
  moreover from assms(2) have "params_sig P' = params_sig P" by (simp add: altersOneField_def)
  ultimately show ?thesis
    using verify_sig_differs [of P' rt secret now] by (auto simp: paramsPayload_def)
qed

text \<open>
  Claim C5. Round trip: the URL that \<open>buildSignedLessonContentUrl\<close> returns carries the
  expiry \<open>exp\<close>, the decimal string of \<open>floor (now / 1000) + expiresInSeconds\<close>, and the
  signature \<open>sig\<close>; verifying the provider, the raw key, the lesson id, the user id, \<open>exp\<close>
  and \<open>sig\<close> with the same secret returns true at every time whose epoch second is
  before the expiry. \<^verbatim>\<open>Number\<close> reads the string of the expiry back as the expiry.
\<close>

theorem signed_url_round_trip:
  assumes "toNumber rt (numberToString rt (now div 1000 + input_expiresInSeconds input)) =
             Finite (of_int (now div 1000 + input_expiresInSeconds input))"
    and "now' div 1000 < now div 1000 + input_expiresInSeconds input"
  shows "url (buildSignedLessonContentUrl rt baseUrl secret now input) =
           stripTrailingSlash baseUrl @ ''/'' @ providerName (ref_provider (input_content input))
             @ ''/'' @ encodeURIComponent rt (ref_key (input_content input))
             @ ''?fileId='' @ encodeURIComponent rt (ref_fileId (input_content input))
             @ ''&lessonId='' @ encodeURIComponent rt (input_lessonId input)
             @ ''&uid='' @ encodeURIComponent rt (input_userId input)
             @ ''&exp='' @ signedExp rt now input @ ''&sig='' @ signedSig rt secret now input \<and>
         signedExp rt now input =
           numberToString rt (now div 1000 + input_expiresInSeconds input) \<and>
         verifySignedLessonContentUrl rt secret now'
           \<lparr>params_provider = ref_provider (input_content input),
            params_key = ref_key (input_content input),
            params_lessonId = input_lessonId input, params_userId = input_userId input,
            params_exp = signedExp rt now input, params_sig = signedSig rt secret now input\<rparr>"
  using verify_roundtrip [OF assms] build_url [of rt baseUrl secret now input]
  by (simp add: signedExp_def)

theorem signed_url_round_trip_witness:
  "toNumber exampleRuntime (numberToString exampleRuntime (2000 div 1000 + 3)) =
     Finite (of_int (2000 div 1000 + 3)) \<and>
   (4999::int) div 1000 < 2000 div 1000 + 3 \<and>
   verifySignedLessonContentUrl exampleRuntime ''secret'' 4999
     \<lparr>params_provider = gdrive, params_key = ''courses/c1/l1.pdf'', params_lessonId = ''l1'',
      params_userId = ''u1'', params_exp = ''iiiii'',
      params_sig = ''secret|gdrive:courses/c1/l1.pdf:l1:u1:iiiii''\<rparr>"
proof -
  let ?input = "\<lparr>input_userId = ''u1'', input_lessonId = ''l1'',
                 input_content = \<lparr>ref_provider = gdrive, ref_key = ''courses/c1/l1.pdf'',
                                   ref_fileId = ''f1'', ref_contentType = ''application/pdf'',
                                   ref_size = 2048\<rparr>,
                 input_expiresInSeconds = 3\<rparr>"
  have h1: "toNumber exampleRuntime
              (numberToString exampleRuntime (2000 div 1000 + input_expiresInSeconds ?input)) =
            Finite (of_int (2000 div 1000 + input_expiresInSeconds ?input))"
    by (simp add: exampleRuntime_def)
  have h2: "(4999::int) div 1000 < 2000 div 1000 + input_expiresInSeconds ?input"
    by simp
  have e: "signedExp exampleRuntime 2000 ?input = ''iiiii''"
    by (simp add: signedExp_def exampleRuntime_def eval_nat_numeral)
  have g: "signedSig exampleRuntime ''secret'' 2000 ?input =
             ''secret|gdrive:courses/c1/l1.pdf:l1:u1:iiiii''"
    by (simp add: signedSig_def e canonicalPayload_def) (simp add: exampleRuntime_def)
  have r: "verifySignedLessonContentUrl exampleRuntime ''secret'' 4999
           \<lparr>params_provider = ref_provider (input_content ?input),
            params_key = ref_key (input_content ?input),
            params_lessonId = input_lessonId ?input, params_userId = input_userId ?input,
            params_exp = signedExp exampleRuntime 2000 ?input,
            params_sig = signedSig exampleRuntime ''secret'' 2000 ?input\<rparr>"
    using signed_url_round_trip [OF h1 h2, of "''base''" "''secret''"] by blast
  show ?thesis
    using h1 h2 r by (simp add: e g)
qed

text \<open>
  Claim C6. \<open>verifySignedLessonContentUrl\<close> returns a boolean on every input; the
  \<^verbatim>\<open>RangeError\<close> of \<^verbatim>\<open>timingSafeEqual\<close> on signatures of different lengths is caught
  and gives false. It returns false when \<open>exp\<close> is not a finite number, when \<open>exp\<close> is
  not after the current epoch second, and when \<open>sig\<close> is not the HMAC of the canonical
  payload. Altering exactly one of provider, key, lesson id, user id and \<open>exp\<close> of validly
  signed parameters gives false, unless the HMAC of the altered payload collides with
  that of the signed one.
\<close>

theorem verify_rejects:
  "((\<forall>x. toNumber rt (params_exp P) \<noteq> Finite x) \<longrightarrow>
      \<not> verifySignedLessonContentUrl rt secret now P) \<and>
   (toNumber rt (params_exp P) = Finite x \<and> x \<le> of_int (now div 1000) \<longrightarrow>
      \<not> verifySignedLessonContentUrl rt secret now P) \<and>
   (params_sig P \<noteq> hmacSha256Hex rt secret (paramsPayload P) \<longrightarrow>
      \<not> verifySignedLessonContentUrl rt secret now P) \<and>
   (length (params_sig P) \<noteq> length (hmacSha256Hex rt secret (paramsPayload P)) \<longrightarrow>
      timingSafeEqual (hmacSha256Hex rt secret (paramsPayload P)) (params_sig P) = Inl RangeError \<and>
      \<not> verifySignedLessonContentUrl rt secret now P) \<and>
   (params_sig Q = hmacSha256Hex rt secret (paramsPayload Q) \<and> altersOneField Q Q' \<and>
    (hmacSha256Hex rt secret (paramsPayload Q') = hmacSha256Hex rt secret (paramsPayload Q)
       \<longrightarrow> paramsPayload Q' = paramsPayload Q) \<longrightarrow>
      \<not> verifySignedLessonContentUrl rt secret now Q')"
proof -
  have "(\<forall>x. toNumber rt (params_exp P) \<noteq> Finite x) \<longrightarrow>
      \<not> verifySignedLessonContentUrl rt secret now P"
    using verify_not_finite [of rt P secret now] by blast
  moreover have "toNumber rt (params_exp P) = Finite x \<and> x \<le> of_int (now div 1000) \<longrightarrow>
      \<not> verifySignedLessonContentUrl rt secret now P"
    using verify_elapsed [of rt P x now secret] by blast
  moreover have s: "params_sig P \<noteq> hmacSha256Hex rt secret (paramsPayload P) \<longrightarrow>
      \<not> verifySignedLessonContentUrl rt secret now P"
    using verify_sig_differs [of P rt secret now] by (simp add: paramsPayload_def)
  moreover have "length (params_sig P) \<noteq> length (hmacSha256Hex rt secret (paramsPayload P)) \<longrightarrow>
      timingSafeEqual (hmacSha256Hex rt secret (paramsPayload P)) (params_sig P) = Inl RangeError \<and>
      \<not> verifySignedLessonContentUrl rt secret now P"
    using s by (auto simp: timingSafeEqual_def)
  moreover have "params_sig Q = hmacSha256Hex rt secret (paramsPayload Q) \<and> altersOneField Q Q' \<and>
    (hmacSha256Hex rt secret (paramsPayload Q') = hmacSha256Hex rt secret (paramsPayload Q)
       \<longrightarrow> paramsPayload Q' = paramsPayload Q) \<longrightarrow>
      \<not> verifySignedLessonContentUrl rt secret now Q'"
    using verify_altered [of Q rt secret Q' now] by blast
  ultimately show ?thesis by blast
qed


theorem verify_rejects_witness:
  "toNumber exampleRuntime ''abc'' = NaN \<and>
   \<not> verifySignedLessonContentUrl exampleRuntime ''secret'' 5000
       \<lparr>params_provider = gdrive, params_key = ''k'', params_lessonId = ''l1'',
        params_userId = ''u1'', params_exp = ''abc'',
        params_sig = ''secret|gdrive:k:l1:u1:abc''\<rparr> \<and>
   toNumber exampleRuntime ''ii'' = Finite 2 \<and>
   \<not> verifySignedLessonContentUrl exampleRuntime ''secret'' 5000
       \<lparr>params_provider = gdrive, params_key = ''k'', params_lessonId = ''l1'',
        params_userId = ''u1'', params_exp = ''ii'',
        params_sig = ''secret|gdrive:k:l1:u1:ii''\<rparr> \<and>
   \<not> verifySignedLessonContentUrl exampleRuntime ''secret'' 5000
       \<lparr>params_provider = gdrive, params_key = ''k'', params_lessonId = ''l1'',
        params_userId = ''u1'', params_exp = ''iiiiii'', params_sig = ''bad''\<rparr> \<and>
   verifySignedLessonContentUrl exampleRuntime ''secret'' 5000
       \<lparr>params_provider = gdrive, params_key = ''k'', params_lessonId = ''l1'',
        params_userId = ''u1'', params_exp = ''iiiiii'',
        params_sig = ''secret|gdrive:k:l1:u1:iiiiii''\<rparr> \<and>
   \<not> verifySignedLessonContentUrl exampleRuntime ''secret'' 5000
       \<lparr>params_provider = gdrive, params_key = ''k2'', params_lessonId = ''l1'',
        params_userId = ''u1'', params_exp = ''iiiiii'',
        params_sig = ''secret|gdrive:k:l1:u1:iiiiii''\<rparr>"
proof -
  let ?P1 = "\<lparr>params_provider = gdrive, params_key = ''k'', params_lessonId = ''l1'',
        params_userId = ''u1'', params_exp = ''abc'',
        params_sig = ''secret|gdrive:k:l1:u1:abc''\<rparr>"
  let ?P2 = "\<lparr>params_provider = gdrive, params_key = ''k'', params_lessonId = ''l1'',
        params_userId = ''u1'', params_exp = ''ii'',
        params_sig = ''secret|gdrive:k:l1:u1:ii''\<rparr>"
  let ?P3 = "\<lparr>params_provider = gdrive, params_key = ''k'', params_lessonId = ''l1'',
        params_userId = ''u1'', params_exp = ''iiiiii'', params_sig = ''bad''\<rparr>"
  let ?Q = "\<lparr>params_provider = gdrive, params_key = ''k'', params_lessonId = ''l1'',
        params_userId = ''u1'', params_exp = ''iiiiii'',
        params_sig = ''secret|gdrive:k:l1:u1:iiiiii''\<rparr>"
  let ?Q' = "\<lparr>params_provider = gdrive, params_key = ''k2'', params_lessonId = ''l1'',
        params_userId = ''u1'', params_exp = ''iiiiii'',
        params_sig = ''secret|gdrive:k:l1:u1:iiiiii''\<rparr>"
  have n1: "toNumber exampleRuntime ''abc'' = NaN"
    by (simp add: exampleRuntime_def)
  then have h1: "\<forall>x. toNumber exampleRuntime (params_exp ?P1) \<noteq> Finite x"
    by simp
  have n2: "toNumber exampleRuntime ''ii'' = Finite 2"
    by (simp add: exampleRuntime_def)
  then have h2: "toNumber exampleRuntime (params_exp ?P2) = Finite 2 \<and>
                 (2::rat) \<le> of_int (5000 div 1000)"
    by simp
  have h3: "params_sig ?P3 \<noteq> hmacSha256Hex exampleRuntime ''secret'' (paramsPayload ?P3)"
    by (simp add: exampleRuntime_def)
  have h4: "params_sig ?Q = hmacSha256Hex exampleRuntime ''secret'' (paramsPayload ?Q)"
    by (simp add: exampleRuntime_def paramsPayload_def canonicalPayload_def)
  have h5: "altersOneField ?Q ?Q'"
    by (simp add: altersOneField_def)
  have h6: "hmacSha256Hex exampleRuntime ''secret'' (paramsPayload ?Q') =
              hmacSha256Hex exampleRuntime ''secret'' (paramsPayload ?Q)
            \<longrightarrow> paramsPayload ?Q' = paramsPayload ?Q"
    by (simp add: exampleRuntime_def)
  have ok: "verifySignedLessonContentUrl exampleRuntime ''secret'' 5000 ?Q"
    by (simp add: verifySignedLessonContentUrl_def exampleRuntime_def canonicalPayload_def
        timingSafeEqual_def)
  have r1: "\<not> verifySignedLessonContentUrl exampleRuntime ''secret'' 5000 ?P1"
    using h1 verify_rejects [of exampleRuntime ?P1 "''secret''" 5000] by blast
  have r2: "\<not> verifySignedLessonContentUrl exampleRuntime ''secret'' 5000 ?P2"
    using h2 verify_rejects [of exampleRuntime ?P2 "''secret''" 5000 2] by blast
  have r3: "\<not> verifySignedLessonContentUrl exampleRuntime ''secret'' 5000 ?P3"
    using h3 verify_rejects [of exampleRuntime ?P3 "''secret''" 5000] by blast
  have r4: "\<not> verifySignedLessonContentUrl exampleRuntime ''secret'' 5000 ?Q'"
    using h4 h5 h6 verify_rejects [of exampleRuntime _ "''secret''" 5000 _ ?Q ?Q'] by blast
  show ?thesis
    using n1 n2 r1 r2 r3 r4 ok by blast
qed

section \<open>Properties of the service\<close>

subsection \<open>Sessions, OAuth states and random ids\<close>

lemma map_get_map_delete [simp]:
  "map_get (map_delete m k) k' = (if k' = k then None else map_get m k')"
  by (induction m) (auto simp: map_get_def map_delete_def)

lemma getOrCreateSubscription_fields [simp]:
  "usersByEmail (fst (getOrCreateSubscription rt now s userId)) = usersByEmail s"
  "usersById (fst (getOrCreateSubscription rt now s userId)) = usersById s"
  "refreshSessions (fst (getOrCreateSubscription rt now s userId)) = refreshSessions s"
  "oauthStates (fst (getOrCreateSubscription rt now s userId)) = oauthStates s"
  "lmsStore (fst (getOrCreateSubscription rt now s userId)) = lmsStore s"
  "randomIdCalls (fst (getOrCreateSubscription rt now s userId)) = randomIdCalls s"
  by (simp_all add: getOrCreateSubscription_def Let_def split: option.splits)

lemma getSubscriptionStatus_fields [simp]:
  "usersByEmail (fst (getSubscriptionStatus rt now s userId)) = usersByEmail s"
  "usersById (fst (getSubscriptionStatus rt now s userId)) = usersById s"
  "refreshSessions (fst (getSubscriptionStatus rt now s userId)) = refreshSessions s"
  "oauthStates (fst (getSubscriptionStatus rt now s userId)) = oauthStates s"
  "lmsStore (fst (getSubscriptionStatus rt now s userId)) = lmsStore s"
  "randomIdCalls (fst (getSubscriptionStatus rt now s userId)) = randomIdCalls s"
  by (simp_all add: getSubscriptionStatus_def Let_def split_beta)

lemma withSoftLimitMeta_fields [simp]:
  "usersByEmail (fst (withSoftLimitMeta rt now s userId)) = usersByEmail s"
  "usersById (fst (withSoftLimitMeta rt now s userId)) = usersById s"
  "refreshSessions (fst (withSoftLimitMeta rt now s userId)) = refreshSessions s"
  "oauthStates (fst (withSoftLimitMeta rt now s userId)) = oauthStates s"
  "lmsStore (fst (withSoftLimitMeta rt now s userId)) = lmsStore s"
  "randomIdCalls (fst (withSoftLimitMeta rt now s userId)) = randomIdCalls s"
  by (simp_all add: withSoftLimitMeta_def Let_def split_beta)

lemma toAuthResponse_fields [simp]:
  "refreshSessions (fst (toAuthResponse rt env now clock s user)) =
     map_set (refreshSessions s) (randomId rt (randomIdCalls s))
       \<lparr>session_sessionId = randomId rt (randomIdCalls s), session_userId = user_id user,
        session_tokenHash = sha256 rt (signRefresh rt clock (user_id user)
                                         (randomId rt (randomIdCalls s)) (user_tokenVersion user)),
        session_expiresAt = now + REFRESH_TOKEN_TTL_SECONDS env * 1000,
        session_revokedAt = None\<rparr>"
  "randomIdCalls (fst (toAuthResponse rt env now clock s user)) = Suc (randomIdCalls s)"
  "oauthStates (fst (toAuthResponse rt env now clock s user)) = oauthStates s"
  "usersById (fst (toAuthResponse rt env now clock s user)) = usersById s"
  "usersByEmail (fst (toAuthResponse rt env now clock s user)) = usersByEmail s"
  "lmsStore (fst (toAuthResponse rt env now clock s user)) = lmsStore s"
  by (simp_all add: toAuthResponse_def issueRefreshToken_def Let_def split_beta)

lemma unused_later:
  "unused rt s k \<Longrightarrow> randomIdCalls s \<le> randomIdCalls s' \<Longrightarrow> unused rt s' k"
  by (auto simp: unused_def)

lemma unused_neq: "unused rt s k \<Longrightarrow> randomIdCalls s \<le> n \<Longrightarrow> randomId rt n \<noteq> k"
  by (auto simp: unused_def)

lemma loginProfile_effect:
  "\<exists>n session. randomIdCalls s \<le> n \<and>
     refreshSessions (fst (loginProfile rt env now clock s profile)) =
       map_set (refreshSessions s) (randomId rt n) session \<and>
     session_revokedAt session = None \<and>
     randomIdCalls (fst (loginProfile rt env now clock s profile)) = Suc n \<and>
     oauthStates (fst (loginProfile rt env now clock s profile)) = oauthStates s"
proof (cases "map_get (usersByEmail s) (toLowerCase rt (profile_email profile))")
  case None
  then show ?thesis
    unfolding loginProfile_def Let_def split_beta
    by (intro exI [where x = "Suc (randomIdCalls s)"]) auto
next
  case (Some existing)
  then show ?thesis
    unfolding loginProfile_def Let_def split_beta
    by (intro exI [where x = "randomIdCalls s"]) auto
qed

lemma issued_dead:
  assumes "dead s sid" and "unused rt s sid" and "randomIdCalls s \<le> n"
    and "refreshSessions s' = map_set (refreshSessions s) (randomId rt n) session"
    and "randomIdCalls s' = Suc n"
  shows "dead s' sid \<and> unused rt s' sid"
proof -
  from assms(2,3) have "randomId rt n \<noteq> sid" by (rule unused_neq)
  with assms(1,4) have "dead s' sid" by (simp add: dead_def)
  moreover from assms(2,3,5) have "unused rt s' sid" by (auto intro: unused_later)
  ultimately show ?thesis ..
qed

lemma toAuthResponse_dead:
  "dead s sid \<Longrightarrow> unused rt s sid \<Longrightarrow>
   dead (fst (toAuthResponse rt env now clock s user)) sid \<and>
   unused rt (fst (toAuthResponse rt env now clock s user)) sid"
  by (rule issued_dead [where n = "randomIdCalls s"]) simp_all

lemma loginProfile_dead:
  assumes "dead s sid" and "unused rt s sid"
  shows "dead (fst (loginProfile rt env now clock s profile)) sid \<and>
         unused rt (fst (loginProfile rt env now clock s profile)) sid"
proof -
  from loginProfile_effect [of s rt env now clock profile] obtain n session where
    "randomIdCalls s \<le> n"
    "refreshSessions (fst (loginProfile rt env now clock s profile)) =
       map_set (refreshSessions s) (randomId rt n) session"
    "randomIdCalls (fst (loginProfile rt env now clock s profile)) = Suc n"
    by blast
  with assms show ?thesis by (rule issued_dead)
qed

lemma dead_same:
  "dead s sid \<Longrightarrow> refreshSessions s' = refreshSessions s \<Longrightarrow> dead s' sid"
  by (simp add: dead_def)

lemma dead_revoke:
  "dead s sid \<Longrightarrow>
   dead (s\<lparr>refreshSessions := map_set (refreshSessions s) k
            (session\<lparr>session_revokedAt := Some t\<rparr>)\<rparr>) sid"
  by (simp add: dead_def)

lemma unused_same:
  "unused rt s k \<Longrightarrow> randomIdCalls s' = randomIdCalls s \<Longrightarrow> unused rt s' k"
  by (simp add: unused_def)

lemma get_auth_google_start_dead:
  "dead s sid \<Longrightarrow> unused rt s sid \<Longrightarrow>
   dead (fst (get_auth_google_start rt now s)) sid \<and>
   unused rt (fst (get_auth_google_start rt now s)) sid"
  by (auto simp: get_auth_google_start_def Let_def dead_def intro: unused_later)

lemma get_auth_google_callback_dead:
  "dead s sid \<Longrightarrow> unused rt s sid \<Longrightarrow>
   dead (fst (get_auth_google_callback rt env now clock s code' state)) sid \<and>
   unused rt (fst (get_auth_google_callback rt env now clock s code' state)) sid"
  unfolding get_auth_google_callback_def Let_def
  by (auto split: option.splits intro!: loginProfile_dead [THEN conjunct1]
      loginProfile_dead [THEN conjunct2] intro: dead_same unused_same)

lemma post_auth_refresh_dead:
  "dead s sid \<Longrightarrow> unused rt s sid \<Longrightarrow>
   dead (fst (post_auth_refresh rt env now clock s token)) sid \<and>
   unused rt (fst (post_auth_refresh rt env now clock s token)) sid"
  unfolding post_auth_refresh_def Let_def split_beta
  by (auto split: option.splits sum.splits jwt_error.splits
      intro!: toAuthResponse_dead [THEN conjunct1] toAuthResponse_dead [THEN conjunct2]
        dead_revoke intro: unused_same)

lemma post_auth_logout_dead:
  "dead s sid \<Longrightarrow> unused rt s sid \<Longrightarrow>
   dead (fst (post_auth_logout rt now clock s token)) sid \<and>
   unused rt (fst (post_auth_logout rt now clock s token)) sid"
  unfolding post_auth_logout_def Let_def
  by (auto split: option.splits sum.splits intro!: dead_revoke intro: unused_same)


lemma get_subscription_me_quiet:
  "refreshSessions (fst (get_subscription_me rt now s auth)) = refreshSessions s \<and>
   oauthStates (fst (get_subscription_me rt now s auth)) = oauthStates s \<and>
   randomIdCalls (fst (get_subscription_me rt now s auth)) = randomIdCalls s"
  by (simp add: get_subscription_me_def split_beta)

lemma post_subscription_plan_quiet:
  "refreshSessions (fst (post_subscription_plan rt now s auth userId plan)) = refreshSessions s \<and>
   oauthStates (fst (post_subscription_plan rt now s auth userId plan)) = oauthStates s \<and>
   randomIdCalls (fst (post_subscription_plan rt now s auth userId plan)) = randomIdCalls s"
  by (simp add: post_subscription_plan_def Let_def)

lemma post_lms_courses_quiet:
  "refreshSessions (fst (post_lms_courses rt now s auth cid ctitle)) = refreshSessions s \<and>
   oauthStates (fst (post_lms_courses rt now s auth cid ctitle)) = oauthStates s \<and>
   randomIdCalls (fst (post_lms_courses rt now s auth cid ctitle)) = randomIdCalls s"
  by (simp add: post_lms_courses_def split_beta split: sum.splits)

lemma post_lms_modules_quiet:
  "refreshSessions (fst (post_lms_modules s auth mid courseId mtitle position)) = refreshSessions s \<and>
   oauthStates (fst (post_lms_modules s auth mid courseId mtitle position)) = oauthStates s \<and>
   randomIdCalls (fst (post_lms_modules s auth mid courseId mtitle position)) = randomIdCalls s"
  by (simp add: post_lms_modules_def split_beta split: sum.splits bool.splits)

lemma post_lms_lessons_quiet:
  "refreshSessions (fst (post_lms_lessons s auth lid moduleId ltitle position)) = refreshSessions s \<and>
   oauthStates (fst (post_lms_lessons s auth lid moduleId ltitle position)) = oauthStates s \<and>
   randomIdCalls (fst (post_lms_lessons s auth lid moduleId ltitle position)) = randomIdCalls s"
  by (simp add: post_lms_lessons_def split_beta split: sum.splits bool.splits)

lemma post_lms_enrollments_quiet:
  "refreshSessions (fst (post_lms_enrollments rt now s auth eid courseId userId)) = refreshSessions s \<and>
   oauthStates (fst (post_lms_enrollments rt now s auth eid courseId userId)) = oauthStates s \<and>
   randomIdCalls (fst (post_lms_enrollments rt now s auth eid courseId userId)) = randomIdCalls s"
  by (simp add: post_lms_enrollments_def split_beta split: sum.splits)

lemma patch_lms_progress_quiet:
  "refreshSessions (fst (patch_lms_progress rt now s auth enrollmentId lessonId status')) =
     refreshSessions s \<and>
   oauthStates (fst (patch_lms_progress rt now s auth enrollmentId lessonId status')) =
     oauthStates s \<and>
   randomIdCalls (fst (patch_lms_progress rt now s auth enrollmentId lessonId status')) =
     randomIdCalls s"
  by (simp add: patch_lms_progress_def split_beta split: sum.splits)

lemma put_lms_lesson_content_quiet:
  "refreshSessions (fst (put_lms_lesson_content rt now s auth lessonId provider key fileId
                           contentType size')) = refreshSessions s \<and>
   oauthStates (fst (put_lms_lesson_content rt now s auth lessonId provider key fileId
                       contentType size')) = oauthStates s \<and>
   randomIdCalls (fst (put_lms_lesson_content rt now s auth lessonId provider key fileId
                         contentType size')) = randomIdCalls s"
  by (simp add: put_lms_lesson_content_def split_beta split: sum.splits bool.splits)

lemma quiet_dead:
  "dead s sid \<Longrightarrow> unused rt s sid \<Longrightarrow>
   refreshSessions s' = refreshSessions s \<and> oauthStates s' = oauthStates s \<and>
   randomIdCalls s' = randomIdCalls s \<Longrightarrow>
   dead s' sid \<and> unused rt s' sid"
  by (simp add: dead_def unused_def)

lemma handle_dead:
  assumes "dead s sid" and "unused rt s sid"
  shows "dead (fst (handle rt env now clock request s)) sid \<and>
         unused rt (fst (handle rt env now clock request s)) sid"
proof (cases request)
  case GetAuthGoogleStart
  then show ?thesis using assms by (simp add: get_auth_google_start_dead)
next
  case (GetAuthGoogleCallback code' state)
  then show ?thesis using assms by (simp add: get_auth_google_callback_dead)
next
  case (PostAuthRefresh token)
  then show ?thesis using assms by (simp add: post_auth_refresh_dead)
next
  case (PostAuthLogout token)
  then show ?thesis using assms by (simp add: post_auth_logout_dead)
next
  case (GetSubscriptionMe auth)
  then show ?thesis
    using quiet_dead [OF assms get_subscription_me_quiet] by simp
next
  case (PostSubscriptionPlan auth userId plan)
  then show ?thesis
    using quiet_dead [OF assms post_subscription_plan_quiet] by simp
next
  case (PostLmsCourses auth cid ctitle)
  then show ?thesis
    using quiet_dead [OF assms post_lms_courses_quiet] by simp
next
  case (PostLmsModules auth mid courseId mtitle position)
  then show ?thesis
    using quiet_dead [OF assms post_lms_modules_quiet] by simp
next
  case (PostLmsLessons auth lid moduleId ltitle position)
  then show ?thesis
    using quiet_dead [OF assms post_lms_lessons_quiet] by simp
next
  case (PostLmsEnrollments auth eid courseId userId)
  then show ?thesis
    using quiet_dead [OF assms post_lms_enrollments_quiet] by simp
next
  case (PatchLmsProgress auth enrollmentId lessonId status')
  then show ?thesis
    using quiet_dead [OF assms patch_lms_progress_quiet] by simp
next
  case (PutLmsLessonContent auth lessonId provider key fileId contentType size')
  then show ?thesis
    using quiet_dead [OF assms put_lms_lesson_content_quiet] by simp
qed

lemma run_dead:
  "dead s sid \<Longrightarrow> unused rt s sid \<Longrightarrow>
   dead (run rt env requests s) sid \<and> unused rt (run rt env requests s) sid"
proof (induction requests arbitrary: s)
  case Nil
  then show ?case by simp
next
  case (Cons r requests)
  obtain now clock request where r: "r = (now, clock, request)" by (cases r) auto
  from handle_dead [OF Cons.prems, of env now clock request] Cons.IH show ?case
    by (simp add: r)
qed

lemma post_auth_refresh_oauth:
  "oauthStates (fst (post_auth_refresh rt env now clock s token)) = oauthStates s \<and>
   randomIdCalls s \<le> randomIdCalls (fst (post_auth_refresh rt env now clock s token))"
  unfolding post_auth_refresh_def Let_def split_beta
  by (auto split: option.splits sum.splits jwt_error.splits)

lemma post_auth_logout_quiet:
  "oauthStates (fst (post_auth_logout rt now clock s token)) = oauthStates s \<and>
   randomIdCalls (fst (post_auth_logout rt now clock s token)) = randomIdCalls s"
  unfolding post_auth_logout_def Let_def
  by (auto split: option.splits sum.splits)

lemma loginProfile_oauth [simp]:
  "oauthStates (fst (loginProfile rt env now clock s profile)) = oauthStates s"
  using loginProfile_effect [of s rt env now clock profile] by auto

lemma loginProfile_calls:
  "randomIdCalls s \<le> randomIdCalls (fst (loginProfile rt env now clock s profile))"
  using loginProfile_effect [of s rt env now clock profile] by auto

lemma get_auth_google_callback_oauth:
  "map_get (oauthStates s) k = None \<Longrightarrow>
   map_get (oauthStates (fst (get_auth_google_callback rt env now clock s code' state))) k = None \<and>
   randomIdCalls s \<le> randomIdCalls (fst (get_auth_google_callback rt env now clock s code' state))"
  unfolding get_auth_google_callback_def Let_def
  using loginProfile_calls [of "s\<lparr>oauthStates := map_delete (oauthStates s) state\<rparr>" rt env now clock]
  by (auto split: option.splits)

lemma handle_absent:
  assumes "map_get (oauthStates s) k = None" and "unused rt s k"
  shows "map_get (oauthStates (fst (handle rt env now clock request s))) k = None \<and>
         unused rt (fst (handle rt env now clock request s)) k"
proof (cases request)
  case GetAuthGoogleStart
  then show ?thesis
    using assms unused_neq [OF assms(2) order_refl]
    by (auto simp: get_auth_google_start_def Let_def intro: unused_later)
next
  case (GetAuthGoogleCallback code' state)
  then show ?thesis
    using get_auth_google_callback_oauth [OF assms(1), of rt env now clock code' state] assms(2)
    by (auto intro: unused_later)
next
  case (PostAuthRefresh token)
  then show ?thesis
    using post_auth_refresh_oauth [of rt env now clock s token] assms
    by (auto intro: unused_later)
next
  case (PostAuthLogout token)
  then show ?thesis
    using post_auth_logout_quiet [of rt now clock s token] assms
    by (auto intro: unused_same)
next
  case (GetSubscriptionMe auth)
  then show ?thesis
    using get_subscription_me_quiet [of rt now s auth] assms by (auto intro: unused_same)
next
  case (PostSubscriptionPlan auth userId plan)
  then show ?thesis
    using post_subscription_plan_quiet [of rt now s auth userId plan] assms
    by (auto intro: unused_same)
next
  case (PostLmsCourses auth cid ctitle)
  then show ?thesis
    using post_lms_courses_quiet [of rt now s auth cid ctitle] assms
    by (auto intro: unused_same)
next
  case (PostLmsModules auth mid courseId mtitle position)
  then show ?thesis
    using post_lms_modules_quiet [of s auth mid courseId mtitle position] assms
    by (auto intro: unused_same)
next
  case (PostLmsLessons auth lid moduleId ltitle position)
  then show ?thesis
    using post_lms_lessons_quiet [of s auth lid moduleId ltitle position] assms
    by (auto intro: unused_same)
next
  case (PostLmsEnrollments auth eid courseId userId)
  then show ?thesis
    using post_lms_enrollments_quiet [of rt now s auth eid courseId userId] assms
    by (auto intro: unused_same)
next
  case (PatchLmsProgress auth enrollmentId lessonId status')
  then show ?thesis
    using patch_lms_progress_quiet [of rt now s auth enrollmentId lessonId status'] assms
    by (auto intro: unused_same)
next
  case (PutLmsLessonContent auth lessonId provider key fileId contentType size')
  then show ?thesis
    using put_lms_lesson_content_quiet [of rt now s auth lessonId provider key fileId
        contentType size'] assms
    by (auto intro: unused_same)
qed

lemma run_absent:
  "map_get (oauthStates s) k = None \<Longrightarrow> unused rt s k \<Longrightarrow>
   map_get (oauthStates (run rt env requests s)) k = None \<and>
   unused rt (run rt env requests s) k"
proof (induction requests arbitrary: s)
  case Nil
  then show ?case by simp
next
  case (Cons r requests)
  obtain now clock request where r: "r = (now, clock, request)" by (cases r) auto
  from handle_absent [OF Cons.prems, of env now clock request] Cons.IH show ?case
    by (simp add: r)
qed

lemma refresh_dead_rejects:
  "dead s sid \<Longrightarrow> token \<noteq> [] \<Longrightarrow> verifyRefresh rt clock token = Inr decoded \<Longrightarrow>
   decoded_sid decoded = Some sid \<Longrightarrow> decoded_type decoded = ''refresh'' \<Longrightarrow>
   post_auth_refresh rt env now clock s token =
     (s, respond 401 (ErrorBody ''refresh_session_invalid''))"
  by (auto simp: post_auth_refresh_def dead_def split: option.splits)

lemma refresh_dead_fails:
  "dead s sid \<Longrightarrow> \<forall>decoded. verifyRefresh rt clock token = Inr decoded \<longrightarrow>
      decoded_sid decoded = Some sid \<Longrightarrow>
   res_status (snd (post_auth_refresh rt env now clock s token)) \<in> {400, 401} \<and>
   fst (post_auth_refresh rt env now clock s token) = s"
  by (auto simp: post_auth_refresh_def dead_def respond_def
      split: option.splits sum.splits jwt_error.splits)

lemma refresh_success_cases:
  assumes "res_status (snd (post_auth_refresh rt env now clock s token)) = 200"
  shows "\<exists>decoded sid session user. verifyRefresh rt clock token = Inr decoded \<and>
           decoded_sid decoded = Some sid \<and> decoded_type decoded = ''refresh'' \<and> token \<noteq> [] \<and>
           map_get (refreshSessions s) sid = Some session \<and>
           fst (post_auth_refresh rt env now clock s token) =
             fst (toAuthResponse rt env now clock
                    (s\<lparr>refreshSessions := map_set (refreshSessions s) sid
                         (session\<lparr>session_revokedAt := Some now\<rparr>)\<rparr>) user)"
proof -
  have t: "token \<noteq> []"
    using assms by (auto simp: post_auth_refresh_def respond_def)
  obtain decoded where v: "verifyRefresh rt clock token = Inr decoded"
    using assms t
    by (cases "verifyRefresh rt clock token")
      (auto simp: post_auth_refresh_def respond_def split: jwt_error.splits)
  have ty: "decoded_type decoded = ''refresh''"
    using assms t v by (cases "decoded_type decoded = ''refresh''")
      (auto simp: post_auth_refresh_def respond_def)
  obtain sid where sid: "decoded_sid decoded = Some sid"
    using assms t v ty by (cases "decoded_sid decoded")
      (auto simp: post_auth_refresh_def respond_def)
  obtain session where se: "map_get (refreshSessions s) sid = Some session"
    using assms t v ty sid by (cases "map_get (refreshSessions s) sid")
      (auto simp: post_auth_refresh_def respond_def)
  have ok1: "\<not> (session_revokedAt session \<noteq> None \<or> session_expiresAt session \<le> now)"
    using assms t v ty sid se
    by (cases "session_revokedAt session \<noteq> None \<or> session_expiresAt session \<le> now")
      (simp_all add: post_auth_refresh_def respond_def)
  have ok2: "\<not> (session_userId session \<noteq> decoded_sub decoded \<or>
                 session_tokenHash session \<noteq> sha256 rt token)"
    using assms t v ty sid se ok1
    by (cases "session_userId session \<noteq> decoded_sub decoded \<or>
               session_tokenHash session \<noteq> sha256 rt token")
      (simp_all add: post_auth_refresh_def respond_def)
  obtain user where u: "map_get (usersById s) (decoded_sub decoded) = Some user"
    using assms t v ty sid se ok1 ok2
    by (cases "map_get (usersById s) (decoded_sub decoded)")
      (simp_all add: post_auth_refresh_def respond_def)
  have ok3: "user_tokenVersion user = decoded_tokenVersion decoded"
    using assms t v ty sid se ok1 ok2 u
    by (cases "user_tokenVersion user = decoded_tokenVersion decoded")
      (simp_all add: post_auth_refresh_def respond_def)
  have "fst (post_auth_refresh rt env now clock s token) =
             fst (toAuthResponse rt env now clock
                    (s\<lparr>refreshSessions := map_set (refreshSessions s) sid
                         (session\<lparr>session_revokedAt := Some now\<rparr>)\<rparr>) user)"
    using t v ty sid se ok1 ok2 u ok3
    by (simp add: post_auth_refresh_def Let_def split_beta)
  with t v ty sid se show ?thesis by blast
qed

lemma refresh_success_revokes:
  assumes "res_status (snd (post_auth_refresh rt env now clock s token)) = 200"
  shows "\<exists>decoded sid. verifyRefresh rt clock token = Inr decoded \<and>
           decoded_sid decoded = Some sid \<and> decoded_type decoded = ''refresh'' \<and> token \<noteq> [] \<and>
           (unused rt s sid \<longrightarrow>
              dead (fst (post_auth_refresh rt env now clock s token)) sid \<and>
              unused rt (fst (post_auth_refresh rt env now clock s token)) sid)"
proof -
  from refresh_success_cases [OF assms] obtain decoded sid session user where
    f: "verifyRefresh rt clock token = Inr decoded" "decoded_sid decoded = Some sid"
      "decoded_type decoded = ''refresh''" "token \<noteq> []"
    and eq: "fst (post_auth_refresh rt env now clock s token) =
             fst (toAuthResponse rt env now clock
                    (s\<lparr>refreshSessions := map_set (refreshSessions s) sid
                         (session\<lparr>session_revokedAt := Some now\<rparr>)\<rparr>) user)"
    by blast
  have "unused rt s sid \<longrightarrow>
              dead (fst (post_auth_refresh rt env now clock s token)) sid \<and>
              unused rt (fst (post_auth_refresh rt env now clock s token)) sid"
  proof
    assume u: "unused rt s sid"
    let ?s1 = "s\<lparr>refreshSessions := map_set (refreshSessions s) sid
                         (session\<lparr>session_revokedAt := Some now\<rparr>)\<rparr>"
    have "dead ?s1 sid" by (simp add: dead_def)
    moreover from u have "unused rt ?s1 sid" by (simp add: unused_def)
    ultimately show "dead (fst (post_auth_refresh rt env now clock s token)) sid \<and>
              unused rt (fst (post_auth_refresh rt env now clock s token)) sid"
      unfolding eq by (rule toAuthResponse_dead)
  qed
  with f show ?thesis by blast
qed

lemma logout_success_revokes:
  assumes "res_status (snd (post_auth_logout rt now clock s token)) = 200"
  shows "\<exists>decoded. verifyRefresh rt clock token = Inr decoded \<and>
           decoded_type decoded = ''refresh'' \<and> token \<noteq> [] \<and>
           (\<forall>sid. decoded_sid decoded = Some sid \<longrightarrow>
              dead (fst (post_auth_logout rt now clock s token)) sid \<and>
              (unused rt s sid \<longrightarrow> unused rt (fst (post_auth_logout rt now clock s token)) sid))"
proof -
  have t: "token \<noteq> []"
    using assms by (auto simp: post_auth_logout_def respond_def)
  obtain decoded where v: "verifyRefresh rt clock token = Inr decoded"
    using assms t by (cases "verifyRefresh rt clock token")
      (auto simp: post_auth_logout_def respond_def)
  have ty: "decoded_type decoded = ''refresh''"
    using assms t v by (cases "decoded_type decoded = ''refresh''")
      (auto simp: post_auth_logout_def respond_def)
  have "dead (fst (post_auth_logout rt now clock s token)) sid \<and>
        (unused rt s sid \<longrightarrow> unused rt (fst (post_auth_logout rt now clock s token)) sid)"
    if "decoded_sid decoded = Some sid" for sid
    using that t v ty post_auth_logout_quiet [of rt now clock s token]
    by (cases "map_get (refreshSessions s) sid")
      (auto simp: post_auth_logout_def dead_def unused_def)
  with t v ty show ?thesis by blast
qed

lemma callback_calls:
  "randomIdCalls s \<le> randomIdCalls (fst (get_auth_google_callback rt env now clock s code' state))"
  unfolding get_auth_google_callback_def Let_def
  using loginProfile_calls [of "s\<lparr>oauthStates := map_delete (oauthStates s) state\<rparr>" rt env now clock]
  by (auto split: option.splits)

lemma callback_removes:
  "code' \<noteq> [] \<Longrightarrow> state \<noteq> [] \<Longrightarrow>
   map_get (oauthStates (fst (get_auth_google_callback rt env now clock s code' state))) state = None"
  unfolding get_auth_google_callback_def Let_def
  by (auto split: option.splits)

lemma callback_absent:
  "code' \<noteq> [] \<Longrightarrow> state \<noteq> [] \<Longrightarrow> map_get (oauthStates s) state = None \<Longrightarrow>
   get_auth_google_callback rt env now clock s code' state =
     (s, respond 400 (ErrorBody ''invalid_state''))"
  by (simp add: get_auth_google_callback_def)

lemma callback_expired:
  "code' \<noteq> [] \<Longrightarrow> state \<noteq> [] \<Longrightarrow> map_get (oauthStates s) state = Some issuedAt \<Longrightarrow>
   now - issuedAt > 10 * 60 * 1000 \<Longrightarrow>
   get_auth_google_callback rt env now clock s code' state =
     (s\<lparr>oauthStates := map_delete (oauthStates s) state\<rparr>, respond 400 (ErrorBody ''expired_state''))"
  by (simp add: get_auth_google_callback_def)

lemma callback_fresh:
  "code' \<noteq> [] \<Longrightarrow> state \<noteq> [] \<Longrightarrow> map_get (oauthStates s) state = Some issuedAt \<Longrightarrow>
   now - issuedAt \<le> 10 * 60 * 1000 \<Longrightarrow>
   get_auth_google_callback rt env now clock s code' state =
     (case exchangeCodeForProfile rt code' of
        None \<Rightarrow> (s\<lparr>oauthStates := map_delete (oauthStates s) state\<rparr>,
                 respond 401 (ErrorBody ''google_auth_failed''))
      | Some profile \<Rightarrow>
          loginProfile rt env now clock (s\<lparr>oauthStates := map_delete (oauthStates s) state\<rparr>)
            profile)"
  by (simp add: get_auth_google_callback_def Let_def)

lemma loginProfile_status:
  "res_status (snd (loginProfile rt env now clock s profile)) = 200"
  by (simp add: loginProfile_def Let_def split_beta respond_def)

lemma start_records:
  "map_get (oauthStates (fst (get_auth_google_start rt now s))) (randomId rt (randomIdCalls s))
     = Some now \<and>
   snd (get_auth_google_start rt now s) =
     respond 200 (StartBody (getAuthorizationUrl rt (randomId rt (randomIdCalls s)))
                    ''openid email'' (randomId rt (randomIdCalls s)))"
  by (simp add: get_auth_google_start_def Let_def)

lemma dead_refresh_response:
  assumes "dead s sid" and "token \<noteq> []" and "decoded_sid decoded = Some sid"
    and "decoded_type decoded = ''refresh''"
    and "\<forall>d. verifyRefresh rt clock token = Inr d \<longrightarrow> d = decoded"
  shows "post_auth_refresh rt env now clock s token =
     (s, respond 401 (ErrorBody
           (case verifyRefresh rt clock token of
              Inl TokenExpiredError \<Rightarrow> ''refresh_token_expired''
            | Inl JsonWebTokenError \<Rightarrow> ''invalid_refresh_token''
            | Inr d \<Rightarrow> ''refresh_session_invalid'')))"
proof (cases "verifyRefresh rt clock token")
  case (Inl thrown)
  then show ?thesis
    using assms(2) by (cases thrown) (simp_all add: post_auth_refresh_def)
next
  case (Inr d)
  with assms(5) have "d = decoded" by simp
  with Inr assms(1-4) show ?thesis
    by (simp add: refresh_dead_rejects)
qed

lemma exampleRuntime_unused:
  "length k \<le> randomIdCalls s \<Longrightarrow> unused exampleRuntime s k"
  by (auto simp: unused_def exampleRuntime_def)

subsection \<open>OAuth states\<close>

lemma callback_invalid_params:
  "code' = [] \<or> state = [] \<Longrightarrow>
   get_auth_google_callback rt env now clock s code' state =
     (s, respond 400 (ErrorBody ''invalid_callback_params''))"
  by (simp add: get_auth_google_callback_def)

text \<open>
  The parameter check of the callback comes before the lookup of the state. After a
  callback that presents the recorded state \<open>x\<close> without a code, the state is still
  recorded, and a second callback with the same state logs in.
\<close>

theorem callback_without_code_keeps_state:
  "get_auth_google_callback exampleRuntime exampleEnv 1000 0
     (fst (get_auth_google_start exampleRuntime 0 newApp)) [] ''x'' =
     (fst (get_auth_google_start exampleRuntime 0 newApp),
      respond 400 (ErrorBody ''invalid_callback_params'')) \<and>
   res_status
     (snd (get_auth_google_callback exampleRuntime exampleEnv 2000 0
             (fst (get_auth_google_callback exampleRuntime exampleEnv 1000 0
                     (fst (get_auth_google_start exampleRuntime 0 newApp)) [] ''x''))
             ''student'' ''x'')) = 200 \<and>
   snd (get_auth_google_callback exampleRuntime exampleEnv 2000 0
          (fst (get_auth_google_callback exampleRuntime exampleEnv 1000 0
                  (fst (get_auth_google_start exampleRuntime 0 newApp)) [] ''x''))
          ''student'' ''x'') \<noteq> respond 400 (ErrorBody ''invalid_state'')"
  by code_simp

text \<open>
  Claim C7, amended. A callback whose code or state is empty answers
  \<^verbatim>\<open>invalid_callback_params\<close> and leaves the state store as it was, so a recorded state
  stays usable. A callback with a code and a state removes the presented state from the
  state store before the exchange, whatever the exchange returns: a later callback
  with a code and the same state, after any requests, fails with \<^verbatim>\<open>invalid_state\<close>,
  provided that \<^verbatim>\<open>deps.randomId()\<close> does not return the state again. A recorded state
  presented with a code more than ten minutes after its issue fails with
  \<^verbatim>\<open>expired_state\<close>; presented within ten minutes it passes the state check, and the
  response is that of the exchange and the login. The start route records the state
  with the time of issue.
\<close>

theorem oauth_state_single_use:
  assumes "code' \<noteq> []" and "state \<noteq> []" and "code'' \<noteq> []"
  shows
    "get_auth_google_callback rt env now clock s [] state =
       (s, respond 400 (ErrorBody ''invalid_callback_params'')) \<and>
     get_auth_google_callback rt env now clock s code' [] =
       (s, respond 400 (ErrorBody ''invalid_callback_params'')) \<and>
     map_get (oauthStates (fst (get_auth_google_callback rt env now clock s code' state))) state
       = None \<and>
     (unused rt s state \<longrightarrow>
        get_auth_google_callback rt env now'' clock''
          (run rt env requests (fst (get_auth_google_callback rt env now clock s code' state)))
          code'' state =
        (run rt env requests (fst (get_auth_google_callback rt env now clock s code' state)),
         respond 400 (ErrorBody ''invalid_state''))) \<and>
     (map_get (oauthStates s) state = None \<longrightarrow>
        get_auth_google_callback rt env now clock s code' state =
          (s, respond 400 (ErrorBody ''invalid_state''))) \<and>
     (map_get (oauthStates s) state = Some issuedAt \<and> now - issuedAt > 10 * 60 * 1000 \<longrightarrow>
        get_auth_google_callback rt env now clock s code' state =
          (s\<lparr>oauthStates := map_delete (oauthStates s) state\<rparr>,
           respond 400 (ErrorBody ''expired_state''))) \<and>
     (map_get (oauthStates s) state = Some issuedAt \<and> now - issuedAt \<le> 10 * 60 * 1000 \<longrightarrow>
        get_auth_google_callback rt env now clock s code' state =
          (case exchangeCodeForProfile rt code' of
             None \<Rightarrow> (s\<lparr>oauthStates := map_delete (oauthStates s) state\<rparr>,
                      respond 401 (ErrorBody ''google_auth_failed''))
           | Some profile \<Rightarrow>
               loginProfile rt env now clock
                 (s\<lparr>oauthStates := map_delete (oauthStates s) state\<rparr>) profile) \<and>
        res_status (snd (get_auth_google_callback rt env now clock s code' state)) \<noteq> 400) \<and>
     map_get (oauthStates (fst (get_auth_google_start rt now s))) (randomId rt (randomIdCalls s))
       = Some now"
proof -
  let ?s1 = "fst (get_auth_google_callback rt env now clock s code' state)"
  have r: "map_get (oauthStates ?s1) state = None"
    using assms by (simp add: callback_removes)
  have "unused rt s state \<longrightarrow>
        get_auth_google_callback rt env now'' clock'' (run rt env requests ?s1) code'' state =
        (run rt env requests ?s1, respond 400 (ErrorBody ''invalid_state''))"
  proof
    assume "unused rt s state"
    then have "unused rt ?s1 state"
      by (rule unused_later) (rule callback_calls)
    from run_absent [OF r this, of env requests]
    show "get_auth_google_callback rt env now'' clock'' (run rt env requests ?s1) code'' state =
        (run rt env requests ?s1, respond 400 (ErrorBody ''invalid_state''))"
      using assms by (simp add: callback_absent)
  qed
  moreover have "map_get (oauthStates s) state = Some issuedAt \<and> now - issuedAt \<le> 10 * 60 * 1000
      \<longrightarrow> res_status (snd (get_auth_google_callback rt env now clock s code' state)) \<noteq> 400"
    using assms
    by (auto simp: callback_fresh loginProfile_status respond_def split: option.splits)
  moreover have "get_auth_google_callback rt env now clock s [] state =
       (s, respond 400 (ErrorBody ''invalid_callback_params''))"
    by (simp add: callback_invalid_params)
  moreover have "get_auth_google_callback rt env now clock s code' [] =
       (s, respond 400 (ErrorBody ''invalid_callback_params''))"
    by (simp add: callback_invalid_params)
  ultimately show ?thesis
    using assms r callback_absent [of code' state s rt env now clock]
      callback_expired [of code' state s issuedAt now rt env clock]
      callback_fresh [of code' state s issuedAt now rt env clock]
      start_records [of rt now s]
    by simp
qed

theorem oauth_state_single_use_witness:
  "map_get (oauthStates (fst (get_auth_google_start exampleRuntime 0 newApp))) ''x'' = Some 0 \<and>
   snd (get_auth_google_callback exampleRuntime exampleEnv 600000 0
          (fst (get_auth_google_start exampleRuntime 0 newApp)) [] ''x'')
     = respond 400 (ErrorBody ''invalid_callback_params'') \<and>
   res_status (snd (get_auth_google_callback exampleRuntime exampleEnv 600000 0
                      (fst (get_auth_google_start exampleRuntime 0 newApp)) ''student'' ''x''))
     = 200 \<and>
   snd (get_auth_google_callback exampleRuntime exampleEnv 600001 0
          (fst (get_auth_google_start exampleRuntime 0 newApp)) ''student'' ''x'')
     = respond 400 (ErrorBody ''expired_state'') \<and>
   snd (get_auth_google_callback exampleRuntime exampleEnv 700000 0
          (run exampleRuntime exampleEnv [(650000, 0, GetAuthGoogleStart)]
             (fst (get_auth_google_callback exampleRuntime exampleEnv 600001 0
                     (fst (get_auth_google_start exampleRuntime 0 newApp)) ''student'' ''x'')))
          ''student'' ''x'')
     = respond 400 (ErrorBody ''invalid_state'')"
proof -
  let ?s = "fst (get_auth_google_start exampleRuntime 0 newApp)"
  have n: "''student'' \<noteq> []" "''x'' \<noteq> []" by simp_all
  have g: "map_get (oauthStates ?s) ''x'' = Some 0" by code_simp
  have c: "randomIdCalls ?s = 1" by code_simp
  have u: "unused exampleRuntime ?s ''x''"
    by (rule exampleRuntime_unused) (simp add: c)
  have e: "exchangeCodeForProfile exampleRuntime ''student'' =
             Some \<lparr>profile_email = ''student@navcloud.io'', profile_name = ''student''\<rparr>"
    by (simp add: exampleRuntime_def)
  have params: "snd (get_auth_google_callback exampleRuntime exampleEnv 600000 0 ?s [] ''x'')
      = respond 400 (ErrorBody ''invalid_callback_params'')"
    using oauth_state_single_use [OF n n(1), where s = ?s and rt = exampleRuntime
        and env = exampleEnv and now = 600000 and clock = 0 and issuedAt = 0]
    by simp
  have fresh: "res_status (snd (get_auth_google_callback exampleRuntime exampleEnv 600000 0 ?s
                                  ''student'' ''x'')) = 200"
    using oauth_state_single_use [OF n n(1), where s = ?s and rt = exampleRuntime
        and env = exampleEnv and now = 600000 and clock = 0 and issuedAt = 0] g
    by (simp add: e loginProfile_status)
  have expired: "snd (get_auth_google_callback exampleRuntime exampleEnv 600001 0 ?s
                        ''student'' ''x'') = respond 400 (ErrorBody ''expired_state'')"
    using oauth_state_single_use [OF n n(1), where s = ?s and rt = exampleRuntime
        and env = exampleEnv and now = 600001 and clock = 0 and issuedAt = 0] g
    by simp
  have second: "snd (get_auth_google_callback exampleRuntime exampleEnv 700000 0
          (run exampleRuntime exampleEnv [(650000, 0, GetAuthGoogleStart)]
             (fst (get_auth_google_callback exampleRuntime exampleEnv 600001 0 ?s
                     ''student'' ''x'')))
          ''student'' ''x'') = respond 400 (ErrorBody ''invalid_state'')"
    using oauth_state_single_use [OF n n(1), where s = ?s and rt = exampleRuntime
        and env = exampleEnv and now = 600001 and clock = 0 and now'' = 700000 and clock'' = 0
        and requests = "[(650000, 0, GetAuthGoogleStart)]"] u
    by simp
  from g params fresh expired second show ?thesis by blast
qed

subsection \<open>Refresh sessions\<close>

theorem refresh_after_expiry:
  "res_status (snd (post_auth_refresh exampleRuntime exampleEnv 1000 1000 exampleLogin ''xx.xxx''))
     = 200 \<and>
   snd (post_auth_refresh exampleRuntime exampleEnv 31000 31000
          (fst (post_auth_refresh exampleRuntime exampleEnv 1000 1000 exampleLogin ''xx.xxx''))
          ''xx.xxx'')
     = respond 401 (ErrorBody ''refresh_token_expired'') \<and>
   snd (post_auth_refresh exampleRuntime exampleEnv 31000 31000
          (fst (post_auth_refresh exampleRuntime exampleEnv 1000 1000 exampleLogin ''xx.xxx''))
          ''xx.xxx'')
     \<noteq> respond 401 (ErrorBody ''refresh_session_invalid'')"
  by code_simp

text \<open>
  Claim C1, amended. Let a refresh token carry the session id \<open>sid\<close>, which
  \<^verbatim>\<open>deps.randomId()\<close> does not return again. Once the session is revoked or missing, by a
  successful rotation at \<^verbatim>\<open>POST /auth/refresh\<close>, by \<^verbatim>\<open>POST /auth/logout\<close> or otherwise,
  every later \<^verbatim>\<open>POST /auth/refresh\<close> presenting the token, after any requests, returns
  401 and leaves the state as it is: with \<^verbatim>\<open>refresh_session_invalid\<close> when the token
  still verifies, and with \<^verbatim>\<open>refresh_token_expired\<close> or \<^verbatim>\<open>invalid_refresh_token\<close>
  when the verification throws. The claim as stated promises
  \<^verbatim>\<open>refresh_session_invalid\<close> for every second presentation; the example before
  this paragraph presents a rotated token again after its expiry.
\<close>

theorem revoked_session_never_rotates:
  assumes "unused rt s sid" and "decoded_sid decoded = Some sid"
    and "\<forall>d. verifyRefresh rt clock' token = Inr d \<longrightarrow> d = decoded"
  shows
    "(dead s sid \<and> token \<noteq> [] \<and> decoded_type decoded = ''refresh'' \<longrightarrow>
        post_auth_refresh rt env now' clock' (run rt env requests s) token =
          (run rt env requests s,
           respond 401 (ErrorBody
             (case verifyRefresh rt clock' token of
                Inl TokenExpiredError \<Rightarrow> ''refresh_token_expired''
              | Inl JsonWebTokenError \<Rightarrow> ''invalid_refresh_token''
              | Inr d \<Rightarrow> ''refresh_session_invalid'')))) \<and>
     (res_status (snd (post_auth_refresh rt env now clock s token)) = 200 \<and>
      verifyRefresh rt clock token = Inr decoded \<longrightarrow>
        post_auth_refresh rt env now' clock'
          (run rt env requests (fst (post_auth_refresh rt env now clock s token))) token =
          (run rt env requests (fst (post_auth_refresh rt env now clock s token)),
           respond 401 (ErrorBody
             (case verifyRefresh rt clock' token of
                Inl TokenExpiredError \<Rightarrow> ''refresh_token_expired''
              | Inl JsonWebTokenError \<Rightarrow> ''invalid_refresh_token''
              | Inr d \<Rightarrow> ''refresh_session_invalid'')))) \<and>
     (res_status (snd (post_auth_logout rt now clock s token)) = 200 \<and>
      verifyRefresh rt clock token = Inr decoded \<longrightarrow>
        post_auth_refresh rt env now' clock'
          (run rt env requests (fst (post_auth_logout rt now clock s token))) token =
          (run rt env requests (fst (post_auth_logout rt now clock s token)),
           respond 401 (ErrorBody
             (case verifyRefresh rt clock' token of
                Inl TokenExpiredError \<Rightarrow> ''refresh_token_expired''
              | Inl JsonWebTokenError \<Rightarrow> ''invalid_refresh_token''
              | Inr d \<Rightarrow> ''refresh_session_invalid''))))"
proof -
  have later: "post_auth_refresh rt env now' clock' (run rt env requests s1) token =
          (run rt env requests s1,
           respond 401 (ErrorBody
             (case verifyRefresh rt clock' token of
                Inl TokenExpiredError \<Rightarrow> ''refresh_token_expired''
              | Inl JsonWebTokenError \<Rightarrow> ''invalid_refresh_token''
              | Inr d \<Rightarrow> ''refresh_session_invalid'')))"
    if "dead s1 sid" and "unused rt s1 sid" and "token \<noteq> []"
      and "decoded_type decoded = ''refresh''" for s1
  proof -
    from run_dead [OF that(1,2), of env requests]
    have "dead (run rt env requests s1) sid" by simp
    then show ?thesis
      using that(3) assms(2) that(4) assms(3) by (rule dead_refresh_response)
  qed
  have a: "dead s sid \<and> token \<noteq> [] \<and> decoded_type decoded = ''refresh'' \<longrightarrow>
        post_auth_refresh rt env now' clock' (run rt env requests s) token =
          (run rt env requests s,
           respond 401 (ErrorBody
             (case verifyRefresh rt clock' token of
                Inl TokenExpiredError \<Rightarrow> ''refresh_token_expired''
              | Inl JsonWebTokenError \<Rightarrow> ''invalid_refresh_token''
              | Inr d \<Rightarrow> ''refresh_session_invalid'')))"
    using later [of s] assms(1) by blast
  have b: "res_status (snd (post_auth_refresh rt env now clock s token)) = 200 \<and>
      verifyRefresh rt clock token = Inr decoded \<longrightarrow>
        post_auth_refresh rt env now' clock'
          (run rt env requests (fst (post_auth_refresh rt env now clock s token))) token =
          (run rt env requests (fst (post_auth_refresh rt env now clock s token)),
           respond 401 (ErrorBody
             (case verifyRefresh rt clock' token of
                Inl TokenExpiredError \<Rightarrow> ''refresh_token_expired''
              | Inl JsonWebTokenError \<Rightarrow> ''invalid_refresh_token''
              | Inr d \<Rightarrow> ''refresh_session_invalid'')))"
  proof (intro impI, elim conjE)
    assume ok: "res_status (snd (post_auth_refresh rt env now clock s token)) = 200"
      and v: "verifyRefresh rt clock token = Inr decoded"
    from refresh_success_revokes [OF ok] v assms(1,2)
    have "dead (fst (post_auth_refresh rt env now clock s token)) sid"
      and "unused rt (fst (post_auth_refresh rt env now clock s token)) sid"
      and "token \<noteq> []" and "decoded_type decoded = ''refresh''"
      by auto
    then show "post_auth_refresh rt env now' clock'
          (run rt env requests (fst (post_auth_refresh rt env now clock s token))) token =
          (run rt env requests (fst (post_auth_refresh rt env now clock s token)),
           respond 401 (ErrorBody
             (case verifyRefresh rt clock' token of
                Inl TokenExpiredError \<Rightarrow> ''refresh_token_expired''
              | Inl JsonWebTokenError \<Rightarrow> ''invalid_refresh_token''
              | Inr d \<Rightarrow> ''refresh_session_invalid'')))"
      by (rule later)
  qed
  have c: "res_status (snd (post_auth_logout rt now clock s token)) = 200 \<and>
      verifyRefresh rt clock token = Inr decoded \<longrightarrow>
        post_auth_refresh rt env now' clock'
          (run rt env requests (fst (post_auth_logout rt now clock s token))) token =
          (run rt env requests (fst (post_auth_logout rt now clock s token)),
           respond 401 (ErrorBody
             (case verifyRefresh rt clock' token of
                Inl TokenExpiredError \<Rightarrow> ''refresh_token_expired''
              | Inl JsonWebTokenError \<Rightarrow> ''invalid_refresh_token''
              | Inr d \<Rightarrow> ''refresh_session_invalid'')))"
  proof (intro impI, elim conjE)
    assume ok: "res_status (snd (post_auth_logout rt now clock s token)) = 200"
      and v: "verifyRefresh rt clock token = Inr decoded"
    from logout_success_revokes [OF ok] v assms(1,2)
    have "dead (fst (post_auth_logout rt now clock s token)) sid"
      and "unused rt (fst (post_auth_logout rt now clock s token)) sid"
      and "token \<noteq> []" and "decoded_type decoded = ''refresh''"
      by auto
    then show "post_auth_refresh rt env now' clock'
          (run rt env requests (fst (post_auth_logout rt now clock s token))) token =
          (run rt env requests (fst (post_auth_logout rt now clock s token)),
           respond 401 (ErrorBody
             (case verifyRefresh rt clock' token of
                Inl TokenExpiredError \<Rightarrow> ''refresh_token_expired''
              | Inl JsonWebTokenError \<Rightarrow> ''invalid_refresh_token''
              | Inr d \<Rightarrow> ''refresh_session_invalid'')))"
      by (rule later)
  qed
  from a b c show ?thesis by blast
qed

theorem revoked_session_never_rotates_witness:
  "res_status (snd (post_auth_refresh exampleRuntime exampleEnv 1000 1000 exampleLogin ''xx.xxx''))
     = 200 \<and>
   post_auth_refresh exampleRuntime exampleEnv 2000 2000
     (run exampleRuntime exampleEnv [(1500, 1500, GetAuthGoogleStart)]
        (fst (post_auth_refresh exampleRuntime exampleEnv 1000 1000 exampleLogin ''xx.xxx'')))
     ''xx.xxx'' =
     (run exampleRuntime exampleEnv [(1500, 1500, GetAuthGoogleStart)]
        (fst (post_auth_refresh exampleRuntime exampleEnv 1000 1000 exampleLogin ''xx.xxx'')),
      respond 401 (ErrorBody ''refresh_session_invalid'')) \<and>
   res_status (snd (post_auth_logout exampleRuntime 1000 1000 exampleLogin ''xx.xxx'')) = 200 \<and>
   post_auth_refresh exampleRuntime exampleEnv 2000 2000
     (run exampleRuntime exampleEnv [(1500, 1500, GetAuthGoogleStart)]
        (fst (post_auth_logout exampleRuntime 1000 1000 exampleLogin ''xx.xxx'')))
     ''xx.xxx'' =
     (run exampleRuntime exampleEnv [(1500, 1500, GetAuthGoogleStart)]
        (fst (post_auth_logout exampleRuntime 1000 1000 exampleLogin ''xx.xxx'')),
      respond 401 (ErrorBody ''refresh_session_invalid''))"
proof -
  let ?d = "\<lparr>decoded_sub = ''xx'', decoded_sid = Some ''xxx'', decoded_tokenVersion = 1,
            decoded_type = ''refresh''\<rparr>"
  have c: "randomIdCalls exampleLogin = 3" by code_simp
  have u: "unused exampleRuntime exampleLogin ''xxx''"
    by (rule exampleRuntime_unused) (simp add: c)
  have sid: "decoded_sid ?d = Some ''xxx''" by simp
  have v1: "verifyRefresh exampleRuntime 1000 ''xx.xxx'' = Inr ?d"
    by (simp add: exampleRuntime_def)
  have v2: "verifyRefresh exampleRuntime 2000 ''xx.xxx'' = Inr ?d"
    by (simp add: exampleRuntime_def)
  then have st: "\<forall>d. verifyRefresh exampleRuntime 2000 ''xx.xxx'' = Inr d \<longrightarrow> d = ?d"
    by simp
  have ok1: "res_status (snd (post_auth_refresh exampleRuntime exampleEnv 1000 1000 exampleLogin
                                ''xx.xxx'')) = 200"
    by code_simp
  have ok2: "res_status (snd (post_auth_logout exampleRuntime 1000 1000 exampleLogin ''xx.xxx''))
               = 200"
    by code_simp
  show ?thesis
    using ok1 ok2 v1
      revoked_session_never_rotates [OF u sid st, where env = exampleEnv and now' = 2000
        and requests = "[(1500, 1500, GetAuthGoogleStart)]" and now = 1000 and clock = 1000]
    by (simp add: v2)
qed

subsection \<open>Missing parents\<close>

lemma createModule_missing_course:
  "\<not> map_has (courses s) courseId \<Longrightarrow>
   createModule s mid courseId mtitle position =
     (s, Inl (LmsModelError INVALID_RELATION (''course does not exist: '' @ courseId)))"
  by (simp add: createModule_def map_has_iff split: option.splits)

lemma createLesson_missing_module:
  "\<not> map_has (modules s) moduleId \<Longrightarrow>
   createLesson s lid moduleId ltitle position =
     (s, Inl (LmsModelError INVALID_RELATION (''module does not exist: '' @ moduleId)))"
  by (simp add: createLesson_def map_has_iff split: option.splits)

lemma enrollStudent_missing_course:
  "\<not> map_has (courses s) courseId \<Longrightarrow>
   enrollStudent now s eid courseId userId =
     (s, Inl (LmsModelError INVALID_RELATION (''course does not exist: '' @ courseId)))"
  by (simp add: enrollStudent_def)

lemma lmsStore_same [simp]: "s\<lparr>lmsStore := lmsStore s\<rparr> = s"
  by simp

lemma post_lms_modules_admin_missing_course:
  "auth_role auth = Admin \<Longrightarrow> mid \<noteq> [] \<Longrightarrow> courseId \<noteq> [] \<Longrightarrow> mtitle \<noteq> [] \<Longrightarrow>
   0 < position \<Longrightarrow> \<not> map_has (courses (lmsStore s)) courseId \<Longrightarrow>
   post_lms_modules s auth mid courseId mtitle position =
     (s, respond 400 (LmsErrorBody INVALID_RELATION (''course does not exist: '' @ courseId)))"
  by (simp add: post_lms_modules_def createModule_missing_course handleLmsError_def)

lemma post_lms_modules_instructor_missing_course:
  "auth_role auth = Instructor \<Longrightarrow> mid \<noteq> [] \<Longrightarrow> courseId \<noteq> [] \<Longrightarrow> mtitle \<noteq> [] \<Longrightarrow>
   0 < position \<Longrightarrow> \<not> map_has (courses (lmsStore s)) courseId \<Longrightarrow>
   post_lms_modules s auth mid courseId mtitle position =
     (s, respond 404 (LmsErrorBody NOT_FOUND (''course does not exist: '' @ courseId)))"
  by (simp add: post_lms_modules_def canInstructorManageCourse_def getCourse_def map_has_iff
      handleLmsError_def split: option.splits)

lemma post_lms_lessons_admin_missing_module:
  "auth_role auth = Admin \<Longrightarrow> lid \<noteq> [] \<Longrightarrow> moduleId \<noteq> [] \<Longrightarrow> ltitle \<noteq> [] \<Longrightarrow>
   0 < position \<Longrightarrow> \<not> map_has (modules (lmsStore s)) moduleId \<Longrightarrow>
   post_lms_lessons s auth lid moduleId ltitle position =
     (s, respond 400 (LmsErrorBody INVALID_RELATION (''module does not exist: '' @ moduleId)))"
  by (simp add: post_lms_lessons_def createLesson_missing_module handleLmsError_def)

lemma post_lms_lessons_instructor_missing_module:
  "auth_role auth = Instructor \<Longrightarrow> lid \<noteq> [] \<Longrightarrow> moduleId \<noteq> [] \<Longrightarrow> ltitle \<noteq> [] \<Longrightarrow>
   0 < position \<Longrightarrow> \<not> map_has (modules (lmsStore s)) moduleId \<Longrightarrow>
   post_lms_lessons s auth lid moduleId ltitle position =
     (s, respond 404 (LmsErrorBody NOT_FOUND (''module does not exist: '' @ moduleId)))"
  by (simp add: post_lms_lessons_def getCourseIdForModule_def map_has_iff
      handleLmsError_def split: option.splits)

lemma post_lms_enrollments_missing_course:
  "auth_role auth = Student \<longrightarrow> auth_sub auth = userId \<Longrightarrow> eid \<noteq> [] \<Longrightarrow> courseId \<noteq> [] \<Longrightarrow>
   userId \<noteq> [] \<Longrightarrow> \<not> map_has (courses (lmsStore s)) courseId \<Longrightarrow>
   post_lms_enrollments rt now s auth eid courseId userId =
     (s, respond 400 (LmsErrorBody INVALID_RELATION (''course does not exist: '' @ courseId)))"
  by (cases "auth_role auth")
    (auto simp: post_lms_enrollments_def enrollStudent_missing_course handleLmsError_def)

text \<open>
  An instructor who posts a module for a course that does not exist is answered by the
  ownership check, which looks the course up with \<open>getCourse\<close>: the response is 404 with
  code \<open>NOT_FOUND\<close>, not 400.
\<close>

theorem instructor_module_missing_course:
  "post_lms_modules newApp
     \<lparr>auth_sub = ''u1'', auth_email = ''instructor@navcloud.io'', auth_role = Instructor,
      auth_tokenVersion = 1\<rparr> ''m1'' ''c1'' ''Basics'' 1 =
     (newApp, respond 404 (LmsErrorBody NOT_FOUND ''course does not exist: c1'')) \<and>
   res_status (snd (post_lms_modules newApp
     \<lparr>auth_sub = ''u1'', auth_email = ''instructor@navcloud.io'', auth_role = Instructor,
      auth_tokenVersion = 1\<rparr> ''m1'' ''c1'' ''Basics'' 1)) \<noteq> 400"
  by code_simp

text \<open>
  Claim C4, amended. The store operations \<open>createModule\<close>, \<open>createLesson\<close> and
  \<open>enrollStudent\<close> throw \<open>INVALID_RELATION\<close> when the parent does not exist, and leave the
  store as it was. Through the routes, with a valid body: for an Admin, \<open>POST /lms/modules\<close>
  with a missing course and \<open>POST /lms/lessons\<close> with a missing module answer 400 with code
  \<open>INVALID_RELATION\<close>; for an Instructor both answer 404 with code \<open>NOT_FOUND\<close>, from the
  ownership check that runs first; \<open>POST /lms/enrollments\<close> with a missing course answers 400
  with code \<open>INVALID_RELATION\<close>. The state is unchanged in every case.
\<close>

theorem missing_parent_rejected:
  "(\<not> map_has (courses store) courseId \<longrightarrow>
      createModule store mid courseId mtitle position =
        (store, Inl (LmsModelError INVALID_RELATION (''course does not exist: '' @ courseId))) \<and>
      enrollStudent now' store eid courseId userId =
        (store, Inl (LmsModelError INVALID_RELATION (''course does not exist: '' @ courseId)))) \<and>
   (\<not> map_has (modules store) moduleId \<longrightarrow>
      createLesson store lid moduleId ltitle position =
        (store, Inl (LmsModelError INVALID_RELATION (''module does not exist: '' @ moduleId)))) \<and>
   (mid \<noteq> [] \<and> courseId \<noteq> [] \<and> mtitle \<noteq> [] \<and> 0 < position \<and>
    \<not> map_has (courses (lmsStore s)) courseId \<longrightarrow>
      (auth_role auth = Admin \<longrightarrow>
         post_lms_modules s auth mid courseId mtitle position =
           (s, respond 400
                 (LmsErrorBody INVALID_RELATION (''course does not exist: '' @ courseId)))) \<and>
      (auth_role auth = Instructor \<longrightarrow>
         post_lms_modules s auth mid courseId mtitle position =
           (s, respond 404 (LmsErrorBody NOT_FOUND (''course does not exist: '' @ courseId))))) \<and>
   (lid \<noteq> [] \<and> moduleId \<noteq> [] \<and> ltitle \<noteq> [] \<and> 0 < position \<and>
    \<not> map_has (modules (lmsStore s)) moduleId \<longrightarrow>
      (auth_role auth = Admin \<longrightarrow>
         post_lms_lessons s auth lid moduleId ltitle position =
           (s, respond 400
                 (LmsErrorBody INVALID_RELATION (''module does not exist: '' @ moduleId)))) \<and>
      (auth_role auth = Instructor \<longrightarrow>
         post_lms_lessons s auth lid moduleId ltitle position =
           (s, respond 404 (LmsErrorBody NOT_FOUND (''module does not exist: '' @ moduleId))))) \<and>
   (eid \<noteq> [] \<and> courseId \<noteq> [] \<and> userId \<noteq> [] \<and>
    (auth_role auth = Student \<longrightarrow> auth_sub auth = userId) \<and>
    \<not> map_has (courses (lmsStore s)) courseId \<longrightarrow>
      post_lms_enrollments rt now s auth eid courseId userId =
        (s, respond 400 (LmsErrorBody INVALID_RELATION (''course does not exist: '' @ courseId))))"
  by (simp add: createModule_missing_course createLesson_missing_module
      enrollStudent_missing_course post_lms_modules_admin_missing_course
      post_lms_modules_instructor_missing_course post_lms_lessons_admin_missing_module
      post_lms_lessons_instructor_missing_module post_lms_enrollments_missing_course)


theorem missing_parent_rejected_witness:
  "createModule newStore ''m1'' ''c1'' ''Basics'' 1 =
     (newStore, Inl (LmsModelError INVALID_RELATION ''course does not exist: c1'')) \<and>
   createLesson newStore ''l1'' ''m1'' ''Intro'' 1 =
     (newStore, Inl (LmsModelError INVALID_RELATION ''module does not exist: m1'')) \<and>
   enrollStudent ''t0'' newStore ''e1'' ''c1'' ''u3'' =
     (newStore, Inl (LmsModelError INVALID_RELATION ''course does not exist: c1'')) \<and>
   post_lms_modules newApp
     \<lparr>auth_sub = ''u1'', auth_email = ''admin@navcloud.io'', auth_role = Admin,
      auth_tokenVersion = 1\<rparr> ''m1'' ''c1'' ''Basics'' 1 =
     (newApp, respond 400 (LmsErrorBody INVALID_RELATION ''course does not exist: c1'')) \<and>
   post_lms_modules newApp
     \<lparr>auth_sub = ''u2'', auth_email = ''instructor@navcloud.io'', auth_role = Instructor,
      auth_tokenVersion = 1\<rparr> ''m1'' ''c1'' ''Basics'' 1 =
     (newApp, respond 404 (LmsErrorBody NOT_FOUND ''course does not exist: c1'')) \<and>
   post_lms_lessons newApp
     \<lparr>auth_sub = ''u1'', auth_email = ''admin@navcloud.io'', auth_role = Admin,
      auth_tokenVersion = 1\<rparr> ''l1'' ''m1'' ''Intro'' 1 =
     (newApp, respond 400 (LmsErrorBody INVALID_RELATION ''module does not exist: m1'')) \<and>
   post_lms_lessons newApp
     \<lparr>auth_sub = ''u2'', auth_email = ''instructor@navcloud.io'', auth_role = Instructor,
      auth_tokenVersion = 1\<rparr> ''l1'' ''m1'' ''Intro'' 1 =
     (newApp, respond 404 (LmsErrorBody NOT_FOUND ''module does not exist: m1'')) \<and>
   post_lms_enrollments exampleRuntime 0 newApp
     \<lparr>auth_sub = ''u3'', auth_email = ''student@navcloud.io'', auth_role = Student,
      auth_tokenVersion = 1\<rparr> ''e1'' ''c1'' ''u3'' =
     (newApp, respond 400 (LmsErrorBody INVALID_RELATION ''course does not exist: c1''))"
proof -
  let ?admin = "\<lparr>auth_sub = ''u1'', auth_email = ''admin@navcloud.io'', auth_role = Admin,
      auth_tokenVersion = 1\<rparr>"
  let ?instructor = "\<lparr>auth_sub = ''u2'', auth_email = ''instructor@navcloud.io'',
      auth_role = Instructor, auth_tokenVersion = 1\<rparr>"
  let ?student = "\<lparr>auth_sub = ''u3'', auth_email = ''student@navcloud.io'', auth_role = Student,
      auth_tokenVersion = 1\<rparr>"
  have h1: "\<not> map_has (courses newStore) ''c1''" "\<not> map_has (modules newStore) ''m1''"
    by (simp_all add: newStore_def map_has_def)
  have h2: "\<not> map_has (courses (lmsStore newApp)) ''c1''"
    "\<not> map_has (modules (lmsStore newApp)) ''m1''"
    by (simp_all add: newApp_def newStore_def map_has_def)
  show ?thesis
    using h1 h2
      missing_parent_rejected [where store = newStore and s = newApp and auth = ?admin
        and courseId = "''c1''" and moduleId = "''m1''" and mid = "''m1''" and lid = "''l1''"
        and mtitle = "''Basics''" and ltitle = "''Intro''" and position = 1 and eid = "''e1''"
        and userId = "''u3''" and now' = "''t0''" and rt = exampleRuntime and now = 0]
      missing_parent_rejected [where store = newStore and s = newApp and auth = ?instructor
        and courseId = "''c1''" and moduleId = "''m1''" and mid = "''m1''" and lid = "''l1''"
        and mtitle = "''Basics''" and ltitle = "''Intro''" and position = 1 and eid = "''e1''"
        and userId = "''u3''" and now' = "''t0''" and rt = exampleRuntime and now = 0]
      missing_parent_rejected [where store = newStore and s = newApp and auth = ?student
        and courseId = "''c1''" and moduleId = "''m1''" and mid = "''m1''" and lid = "''l1''"
        and mtitle = "''Basics''" and ltitle = "''Intro''" and position = 1 and eid = "''e1''"
        and userId = "''u3''" and now' = "''t0''" and rt = exampleRuntime and now = 0]
    by simp
qed

subsection \<open>Soft limits\<close>

lemma getSubscriptionStatus_formula:
  "snd (getSubscriptionStatus rt now s userId) =
     (let plan = subscription_plan (snd (getOrCreateSubscription rt now s userId));
          limits = PLAN_LIMITS plan;
          usage = getUserUsageSnapshot (lmsStore s) userId
      in \<lparr>status_plan = plan, status_limits = limits, status_usage = usage,
          status_softLimit =
            \<lparr>createdCoursesExceededBy = max (createdCourses usage - maxCreatedCourses limits) 0,
             activeEnrollmentsExceededBy =
               max (activeEnrollments usage - maxActiveEnrollments limits) 0,
             ownedStorageBytesExceededBy =
               max (ownedStorageBytes usage - maxOwnedStorageBytes limits) 0\<rparr>\<rparr>)"
  by (simp add: getSubscriptionStatus_def split_beta Let_def getOrCreateSubscription_fields)

lemma withSoftLimitMeta_formula:
  "snd (withSoftLimitMeta rt now s userId) =
     (let status' = snd (getSubscriptionStatus rt now s userId)
      in \<lparr>meta_plan = status_plan status',
          meta_softLimitExceeded =
            (createdCoursesExceededBy (status_softLimit status') > 0 \<or>
             activeEnrollmentsExceededBy (status_softLimit status') > 0 \<or>
             ownedStorageBytesExceededBy (status_softLimit status') > 0),
          meta_softLimit = status_softLimit status'\<rparr>)"
  by (simp add: withSoftLimitMeta_def split_beta Let_def)

lemma getOrCreateSubscription_lmsStore_update:
  "subscription_plan (snd (getOrCreateSubscription rt now (s\<lparr>lmsStore := store\<rparr>) userId)) =
   subscription_plan (snd (getOrCreateSubscription rt now s userId))"
  by (simp add: getOrCreateSubscription_def Let_def split: option.splits)

lemma exceededBy_positive: "(0 < max (a - b) (0::int)) = (b < a)"
  by auto

lemma map_set_fresh: "\<not> map_has m k \<Longrightarrow> map_set m k v = m @ [(k, v)]"
  by (induction m) (auto simp: map_has_def)

lemma createCourse_createdCourses:
  assumes "\<not> map_has (courses store) cid"
  shows "createdCourses (getUserUsageSnapshot (fst (createCourse now store cid ctitle userId))
                           userId) =
         createdCourses (getUserUsageSnapshot store userId) + 1"
  using assms
  by (simp add: createCourse_def Let_def getUserUsageSnapshot_def map_values_def map_set_fresh)

lemma createCourse_succeeds:
  assumes "\<not> map_has (courses store) cid"
  shows "snd (createCourse now store cid ctitle userId) =
           Inr \<lparr>course_id = cid, course_title = ctitle, course_createdBy = userId,
                course_createdAt = now\<rparr>"
  using assms by (simp add: createCourse_def Let_def)

lemma post_lms_courses_created:
  assumes "auth_role auth \<in> {Admin, Instructor}" and "cid \<noteq> []" and "ctitle \<noteq> []"
    and "\<not> map_has (courses (lmsStore s)) cid"
  shows "snd (post_lms_courses rt now s auth cid ctitle) =
           respond 201
             (CourseBody
                \<lparr>course_id = cid, course_title = ctitle, course_createdBy = auth_sub auth,
                 course_createdAt = toISOString rt now\<rparr>
                (snd (withSoftLimitMeta rt now
                        (s\<lparr>lmsStore := fst (createCourse (toISOString rt now) (lmsStore s) cid
                                              ctitle (auth_sub auth))\<rparr>)
                        (auth_sub auth))))"
    and "lmsStore (fst (post_lms_courses rt now s auth cid ctitle)) =
           fst (createCourse (toISOString rt now) (lmsStore s) cid ctitle (auth_sub auth))"
  using assms
  by (auto simp: post_lms_courses_def createCourse_def Let_def split_beta withSoftLimitMeta_def
      getSubscriptionStatus_def getOrCreateSubscription_def split: option.splits)

lemma post_subscription_plan_admin:
  assumes "auth_role auth = Admin" and "userId \<noteq> []" and "map_has (usersById s) userId"
  shows "post_subscription_plan rt now s auth userId plan =
           (s\<lparr>subscriptionsByUserId :=
                 map_set (subscriptionsByUserId s) userId
                   \<lparr>subscription_userId = userId, subscription_plan = plan,
                    subscription_updatedAt = toISOString rt now\<rparr>\<rparr>,
            respond 200
              (PlanBody \<lparr>subscription_userId = userId, subscription_plan = plan,
                         subscription_updatedAt = toISOString rt now\<rparr>))"
  using assms by (simp add: post_subscription_plan_def Let_def)

lemma getOrCreateSubscription_after_set:
  "subscription_plan
     (snd (getOrCreateSubscription rt now
             (s\<lparr>subscriptionsByUserId := map_set (subscriptionsByUserId s) userId r\<rparr>) userId)) =
   subscription_plan r"
  by (simp add: getOrCreateSubscription_def)



end
